(* ===== verification/Prelude.thy ===== *)
theory Prelude
  imports Main "HOL-Library.Sublist" "HOL-Library.AList" "HOL-Library.Char_ord"
    "HOL-Library.List_Lexorder"
begin

text \<open>
  The vocabulary the component theories share: Go results that may panic, Go errors and
  \<open>errors.Join\<close>, the dynamic values \<open>any\<close> holds, the functions of Go's
  \<open>strings\<close> package the modelled code calls (strings are byte sequences, so HOL's
  \<open>char list\<close>), maps as association lists, and the list, option and map lemmas that more
  than one component uses.

  The collection \<open>go_simps\<close> holds the equations that evaluate the shared operations on
  concrete input and the laws the component proofs simplify with.
\<close>

named_theorems go_simps \<open>equations and laws of the shared Go vocabulary\<close>

section \<open>Results, errors, dynamic values\<close>

text \<open>A call either returns a value or panics (a nil dereference, a failed type assertion).\<close>

datatype 'a go = Ret 'a | Panic

definition go_bind :: "'a go \<Rightarrow> ('a \<Rightarrow> 'b go) \<Rightarrow> 'b go" where
  "go_bind r f = (case r of Ret x \<Rightarrow> f x | Panic \<Rightarrow> Panic)"

lemma go_bind_simps [simp, go_simps]:
  "go_bind (Ret x) f = f x"
  "go_bind Panic f = Panic"
  by (simp_all add: go_bind_def)

lemma go_bind_eq_Ret: "go_bind r f = Ret y \<longleftrightarrow> (\<exists>x. r = Ret x \<and> f x = Ret y)"
  by (cases r) simp_all

text \<open>
  Go errors: a message, or several errors joined by \<open>errors.Join\<close>, which drops nil errors
  and returns nil when nothing is left. A nil error is \<open>None\<close>.
\<close>

datatype error = Err string | Joined "error list"

definition errors_Join :: "error option list \<Rightarrow> error option" where
  "errors_Join es =
     (let present = map the (filter (\<lambda>e. e \<noteq> None) es)
      in if present = [] then None else Some (Joined present))"

lemma errors_Join_None_iff: "errors_Join es = None \<longleftrightarrow> (\<forall>e \<in> set es. e = None)"
  by (auto simp: errors_Join_def Let_def filter_empty_conv)

fun strings_Join :: "string list \<Rightarrow> string \<Rightarrow> string" where
  "strings_Join [] sep = []"
| "strings_Join [x] sep = x"
| "strings_Join (x # y # xs) sep = x @ sep @ strings_Join (y # xs) sep"

text \<open>The text of an error (\<open>Error()\<close>): joined errors are separated by newlines.\<close>

fun error_text :: "error \<Rightarrow> string" where
  "error_text (Err s) = s"
| "error_text (Joined es) = strings_Join (map error_text es) [CHR 0x0A]"

text \<open>
  The dynamic values of \<open>any\<close> and \<open>map[string]any\<close>, as JSON decoding and the
  framework build them. A \<open>float64\<close> is carried as its shortest decimal rendering (the
  text \<open>strconv\<close> prints, which determines the value); the modelled code only stores,
  copies and prints floats. A map is an association list with distinct keys.
\<close>

datatype gval =
    VNil
  | VBool bool
  | VInt int
  | VFloat string
  | VStr string
  | VStrs "string list"
  | VList "gval list"
  | VMap "(string \<times> gval) list"

type_synonym gmap = "(string \<times> gval) list"

section \<open>Decimal rendering\<close>

definition digit_char :: "nat \<Rightarrow> char" where
  "digit_char d = char_of (48 + d)"

fun nat_text :: "nat \<Rightarrow> string" where
  "nat_text n = (if n < 10 then [digit_char n] else nat_text (n div 10) @ [digit_char (n mod 10)])"

declare nat_text.simps [simp del]

text \<open>\<open>strconv.Itoa\<close>.\<close>

definition Itoa :: "int \<Rightarrow> string" where
  "Itoa i = (if i < 0 then ''-'' @ nat_text (nat (- i)) else nat_text (nat i))"

lemma nat_text_nonempty [simp]: "nat_text n \<noteq> []"
  by (subst nat_text.simps) simp

lemma Itoa_nonempty [simp]: "Itoa i \<noteq> []"
  by (simp add: Itoa_def)

text \<open>
  \<open>fmt.Sprint\<close> (the \<open>%v\<close> verb) of a dynamic value: maps print their entries by
  increasing key, lists and maps put one space between elements.
\<close>

fun Sprint :: "gval \<Rightarrow> string" where
  "Sprint VNil = ''<nil>''"
| "Sprint (VBool b) = (if b then ''true'' else ''false'')"
| "Sprint (VInt i) = Itoa i"
| "Sprint (VFloat s) = s"
| "Sprint (VStr s) = s"
| "Sprint (VStrs ss) = ''['' @ strings_Join ss '' '' @ '']''"
| "Sprint (VList vs) = ''['' @ strings_Join (map Sprint vs) '' '' @ '']''"
| "Sprint (VMap m) =
     ''map['' @ strings_Join (map (\<lambda>p. fst p @ '':'' @ snd p)
        (sort_key fst (map (\<lambda>p. (fst p, Sprint (snd p))) m))) '' '' @ '']''"

text \<open>
  \<open>utils.CloneAny\<close> and \<open>utils.CloneAnyMap\<close>: the copy is built value by value, and is
  the value it copies (the model has no shared structure a copy could separate).
\<close>

fun CloneAny :: "gval \<Rightarrow> gval" where
  "CloneAny (VMap m) = VMap (map (\<lambda>p. (fst p, CloneAny (snd p))) m)"
| "CloneAny (VList vs) = VList (map CloneAny vs)"
| "CloneAny (VStrs ss) = VStrs ss"
| "CloneAny v = v"

definition CloneAnyMap :: "gmap option \<Rightarrow> gmap option" where
  "CloneAnyMap m = map_option (map (\<lambda>p. (fst p, CloneAny (snd p)))) m"

lemma CloneAny_id [simp, go_simps]: "CloneAny v = v"
  by (induction v rule: CloneAny.induct) (auto intro!: map_idI)

lemma CloneAnyMap_id [simp, go_simps]: "CloneAnyMap m = m"
  by (cases m) (simp_all add: CloneAnyMap_def)

section \<open>The strings package\<close>

definition HasPrefix :: "string \<Rightarrow> string \<Rightarrow> bool" where
  "HasPrefix s p = prefix p s"

definition HasSuffix :: "string \<Rightarrow> string \<Rightarrow> bool" where
  "HasSuffix s p = prefix (rev p) (rev s)"

definition TrimPrefix :: "string \<Rightarrow> string \<Rightarrow> string" where
  "TrimPrefix s p = (if HasPrefix s p then drop (length p) s else s)"

definition TrimSuffix :: "string \<Rightarrow> string \<Rightarrow> string" where
  "TrimSuffix s p = (if HasSuffix s p then take (length s - length p) s else s)"

fun Contains :: "string \<Rightarrow> string \<Rightarrow> bool" where
  "Contains [] t = (t = [])"
| "Contains (c # s) t = (prefix t (c # s) \<or> Contains s t)"

definition ContainsAny :: "string \<Rightarrow> string \<Rightarrow> bool" where
  "ContainsAny s chars = list_ex (\<lambda>c. c \<in> set chars) s"

text \<open>\<open>strings.Count\<close> of a one-byte substring.\<close>

definition CountByte :: "string \<Rightarrow> char \<Rightarrow> nat" where
  "CountByte s c = length (filter (\<lambda>x. x = c) s)"

text \<open>\<open>strings.TrimRight\<close> with an ASCII cutset.\<close>

definition TrimRight :: "string \<Rightarrow> string \<Rightarrow> string" where
  "TrimRight s cs = rev (dropWhile (\<lambda>c. c \<in> set cs) (rev s))"

definition TrimLeft :: "string \<Rightarrow> string \<Rightarrow> string" where
  "TrimLeft s cs = dropWhile (\<lambda>c. c \<in> set cs) s"

text \<open>\<open>strings.Trim\<close> with an ASCII cutset.\<close>

definition Trim :: "string \<Rightarrow> string \<Rightarrow> string" where
  "Trim s cs = TrimRight (TrimLeft s cs) cs"

lemma HasPrefix_append [simp, go_simps]: "HasPrefix (p @ s) p"
  by (simp add: HasPrefix_def)

lemma HasPrefix_Nil [simp, go_simps]: "HasPrefix s []"
  by (simp add: HasPrefix_def)

lemma HasSuffix_iff: "HasSuffix s p \<longleftrightarrow> (\<exists>t. s = t @ p)"
  by (metis HasSuffix_def prefix_def rev_append rev_rev_ident)

lemma TrimSuffix_append [simp, go_simps]: "TrimSuffix (s @ p) p = s"
  by (simp add: TrimSuffix_def HasSuffix_iff)

lemma TrimPrefix_append [simp, go_simps]: "TrimPrefix (p @ s) p = s"
  by (simp add: TrimPrefix_def)

lemma Contains_iff: "Contains s t \<longleftrightarrow> (\<exists>a b. s = a @ t @ b)"
proof (induction s)
  case Nil
  then show ?case by auto
next
  case (Cons c s)
  show ?case
  proof
    assume "Contains (c # s) t"
    then consider "prefix t (c # s)" | "Contains s t" by auto
    then show "\<exists>a b. c # s = a @ t @ b"
    proof cases
      case 1
      then show ?thesis by (metis append_Nil prefix_def)
    next
      case 2
      with Cons.IH obtain a b where "s = a @ t @ b" by blast
      then show ?thesis by (metis append_Cons)
    qed
  next
    assume "\<exists>a b. c # s = a @ t @ b"
    then obtain a b where ab: "c # s = a @ t @ b" by blast
    show "Contains (c # s) t"
    proof (cases a)
      case Nil
      with ab have "prefix t (c # s)" by (simp add: prefix_def)
      then show ?thesis by simp
    next
      case (Cons x xs)
      with ab have "s = xs @ t @ b" by simp
      then have "Contains s t" using Cons.IH by blast
      then show ?thesis by simp
    qed
  qed
qed


text \<open>
  The \<open>%q\<close> verb: quotes, backslashes and the control bytes with a short escape are escaped;
  the remaining bytes are copied, as \<open>strconv.Quote\<close> does for printable text.
\<close>

definition quote_byte :: "char \<Rightarrow> string" where
  "quote_byte c =
     (if c = CHR 0x22 then [CHR 0x5C, CHR 0x22]
      else if c = CHR 0x5C then [CHR 0x5C, CHR 0x5C]
      else if c = CHR 0x0A then [CHR 0x5C, CHR ''n'']
      else if c = CHR 0x0D then [CHR 0x5C, CHR ''r'']
      else if c = CHR 0x09 then [CHR 0x5C, CHR ''t'']
      else [c])"

definition go_quote :: "string \<Rightarrow> string" where
  "go_quote s = [CHR 0x22] @ concat (map quote_byte s) @ [CHR 0x22]"

subsection \<open>White space\<close>

text \<open>
  The UTF-8 encodings of the code points \<open>unicode.IsSpace\<close> accepts: the six ASCII ones,
  U+0085, U+00A0, U+1680, U+2000 to U+200A, U+2028, U+2029, U+202F, U+205F and U+3000.
\<close>

definition space_runes :: "string list" where
  "space_runes =
     [[CHR 0x09], [CHR 0x0A], [CHR 0x0B], [CHR 0x0C], [CHR 0x0D], [CHR 0x20],
      [CHR 0xC2, CHR 0x85], [CHR 0xC2, CHR 0xA0], [CHR 0xE1, CHR 0x9A, CHR 0x80]]
     @ map (\<lambda>b. [CHR 0xE2, CHR 0x80, char_of (b::nat)]) [128..<139]
     @ map (\<lambda>b. [CHR 0xE2, CHR 0x80, b]) [CHR 0xA8, CHR 0xA9, CHR 0xAF]
     @ [[CHR 0xE2, CHR 0x81, CHR 0x9F], [CHR 0xE3, CHR 0x80, CHR 0x80]]"

text \<open>The length of the first of the given runes that starts the string, 0 when none does.\<close>

definition rune_width :: "string list \<Rightarrow> string \<Rightarrow> nat" where
  "rune_width rs s = (case find (\<lambda>r. prefix r s) rs of None \<Rightarrow> 0 | Some r \<Rightarrow> length r)"

lemma rune_width_le: "rune_width rs s \<le> length s"
  by (auto simp: rune_width_def find_Some_iff prefix_length_le split: option.splits)

function strip_runes :: "string list \<Rightarrow> string \<Rightarrow> string" where
  "strip_runes rs s =
     (if rune_width rs s = 0 then s else strip_runes rs (drop (rune_width rs s) s))"
  by pat_completeness auto
termination
proof (relation "measure (\<lambda>(rs, s). length s)", goal_cases)
  case 1
  then show ?case by simp
next
  case (2 rs s)
  then have "0 < length s" using rune_width_le [of rs s] by linarith
  with 2 show ?case by simp
qed

declare strip_runes.simps [simp del]

definition TrimSpace :: "string \<Rightarrow> string" where
  "TrimSpace s = rev (strip_runes (map rev space_runes) (rev (strip_runes space_runes s)))"

lemma strip_runes_suffix: "\<exists>t. s = t @ strip_runes rs s"
proof (induction rs s rule: strip_runes.induct)
  case (1 rs s)
  show ?case
  proof (cases "rune_width rs s = 0")
    case True
    then show ?thesis by (simp add: strip_runes.simps [of rs s])
  next
    case False
    with 1 obtain t where "drop (rune_width rs s) s = t @ strip_runes rs (drop (rune_width rs s) s)"
      by blast
    then have "s = (take (rune_width rs s) s @ t) @ strip_runes rs s"
      using False by (metis append.assoc append_take_drop_id strip_runes.simps)
    then show ?thesis by blast
  qed
qed

lemma strip_runes_width: "rune_width rs (strip_runes rs s) = 0"
proof (induction rs s rule: strip_runes.induct)
  case (1 rs s)
  then show ?case by (cases "rune_width rs s = 0") (simp_all add: strip_runes.simps [of rs s])
qed

lemma strip_runes_id: "rune_width rs s = 0 \<Longrightarrow> strip_runes rs s = s"
  by (simp add: strip_runes.simps)

lemma rune_width_prefix:
  assumes "rune_width rs s = 0" and "prefix t s"
  shows "rune_width rs t = 0"
proof (cases "find (\<lambda>r. prefix r t) rs")
  case None
  then show ?thesis by (simp add: rune_width_def)
next
  case (Some r)
  then have r: "r \<in> set rs" "prefix r t" by (auto simp: find_Some_iff)
  show ?thesis
  proof (cases "find (\<lambda>r. prefix r s) rs")
    case None
    with r assms(2) show ?thesis by (metis find_None_iff prefix_order.trans)
  next
    case (Some q)
    with assms(1) have "length q = 0" by (simp add: rune_width_def)
    obtain i where i: "i < length rs" "rs ! i = q" "\<forall>j<i. \<not> prefix (rs ! j) s"
      using Some by (auto simp: find_Some_iff)
    obtain k where k: "k < length rs" "rs ! k = r" "prefix (rs ! k) t" "\<forall>j<k. \<not> prefix (rs ! j) t"
      using \<open>find (\<lambda>r. prefix r t) rs = Some r\<close> by (auto simp: find_Some_iff)
    have "\<not> k < i" using i(3) k(3) assms(2) by (meson prefix_order.trans)
    moreover have "\<not> i < k" using k(4) i(2) \<open>length q = 0\<close> by auto
    ultimately have "r = q" using i(2) k(2) by (metis linorder_neqE_nat)
    with \<open>length q = 0\<close> \<open>find (\<lambda>r. prefix r t) rs = Some r\<close> show ?thesis
      by (simp add: rune_width_def)
  qed
qed

lemma TrimSpace_idem [simp, go_simps]: "TrimSpace (TrimSpace s) = TrimSpace s"
proof -
  let ?l = "strip_runes space_runes s"
  let ?r = "strip_runes (map rev space_runes) (rev ?l)"
  obtain t where "rev ?l = t @ ?r" using strip_runes_suffix by blast
  then have "prefix (rev ?r) ?l" by (metis prefixI rev_append rev_rev_ident)
  then have "rune_width space_runes (rev ?r) = 0"
    using rune_width_prefix strip_runes_width by blast
  then show ?thesis
    by (simp add: TrimSpace_def strip_runes_id strip_runes_width)
qed

lemma TrimSpace_Nil [simp, go_simps]: "TrimSpace [] = []"
proof -
  have "rune_width rs [] = 0" for rs using rune_width_le [of rs "[]"] by simp
  then show ?thesis by (simp add: TrimSpace_def strip_runes_id)
qed

text \<open>
  Trimming without evaluating the table: a string whose ends are printable ASCII is left alone, and
  an outer blank goes away.
\<close>

definition plain :: "char \<Rightarrow> bool" where
  "plain c \<longleftrightarrow> 32 < (of_char c :: nat) \<and> (of_char c :: nat) < 127"

lemma space_runes_ends:
  "list_all (\<lambda>r. r \<noteq> [] \<and> \<not> plain (hd r) \<and> \<not> plain (last r)) space_runes"
  by (simp add: space_runes_def upt_rec plain_def)

lemma find_SomeD: "find p xs = Some x \<Longrightarrow> p x \<and> x \<in> set xs"
  by (induction xs) (auto split: if_splits)

lemma rune_width_plain:
  assumes "plain c"
  shows "rune_width space_runes (c # s) = 0" "rune_width (map rev space_runes) (c # s) = 0"
proof -
  have "\<not> prefix r (c # s) \<and> \<not> prefix (rev r) (c # s)" if "r \<in> set space_runes" for r
  proof -
    have r: "r \<noteq> []" "hd r \<noteq> c" "last r \<noteq> c"
      using space_runes_ends that assms by (auto simp: list_all_iff)
    then have "r = hd r # tl r" "rev r = last r # rev (butlast r)"
      by simp_all
    with r show ?thesis by (metis Cons_prefix_Cons)
  qed
  then show "rune_width space_runes (c # s) = 0" "rune_width (map rev space_runes) (c # s) = 0"
    by (auto simp: rune_width_def find_None_iff split: option.split dest!: find_SomeD)
qed

lemma TrimSpace_plain:
  assumes "s \<noteq> []" and "plain (hd s)" and "plain (last s)"
  shows "TrimSpace s = s"
proof -
  obtain c t where s: "s = c # t" using assms(1) by (cases s) auto
  obtain d u where r: "rev s = d # u" using assms(1) by (cases "rev s") auto
  have "plain c" "plain d" using assms s r by (auto simp: hd_rev [symmetric])
  have "strip_runes space_runes s = s"
    using rune_width_plain(1) [OF \<open>plain c\<close>] s by (simp add: strip_runes_id)
  moreover have "strip_runes (map rev space_runes) (rev s) = rev s"
    using rune_width_plain(2) [OF \<open>plain d\<close>] r by (simp add: strip_runes_id)
  ultimately show ?thesis by (simp add: TrimSpace_def)
qed

lemma space_width: "rune_width space_runes (CHR 0x20 # s) = 1" "rune_width (map rev space_runes) (CHR 0x20 # s) = 1"
  by (simp_all add: rune_width_def space_runes_def upt_rec)

lemma TrimSpace_left: "TrimSpace (CHR 0x20 # s) = TrimSpace s"
  by (simp add: TrimSpace_def strip_runes.simps [of _ "CHR 0x20 # s"] space_width)

lemma TrimSpace_right:
  assumes "s \<noteq> []" and "plain (hd s)" and "plain (last s)"
  shows "TrimSpace (s @ [CHR 0x20]) = s"
proof -
  obtain c t where s: "s = c # t" using assms(1) by (cases s) auto
  obtain d u where r: "rev s = d # u" using assms(1) by (cases "rev s") auto
  have pl: "plain c" "plain d" using assms s r by (auto simp: hd_rev [symmetric])
  have "strip_runes space_runes (s @ [CHR 0x20]) = s @ [CHR 0x20]"
    using rune_width_plain(1) [OF pl(1)] s by (simp add: strip_runes_id)
  moreover have "strip_runes (map rev space_runes) (CHR 0x20 # rev s) = rev s"
    using rune_width_plain(2) [OF pl(2)] r
    by (simp add: strip_runes.simps [of _ "CHR 0x20 # _"] space_width strip_runes_id)
  ultimately show ?thesis by (simp add: TrimSpace_def)
qed

text \<open>Names the witnesses of later theories use.\<close>

lemma TrimSpace_samples [go_simps]:
  "TrimSpace ''Bash'' = ''Bash''" "TrimSpace '' Bash'' = ''Bash''" "TrimSpace ''Fetch'' = ''Fetch''"
  "TrimSpace ''web'' = ''web''" "TrimSpace ''web '' = ''web''" "TrimSpace ''reset_tools'' = ''reset_tools''"
  using TrimSpace_right [of "''web''"]
  by (simp_all add: TrimSpace_plain TrimSpace_left plain_def)
lemma TrimSpace_eq_self_nonempty: "TrimSpace s \<noteq> [] \<Longrightarrow> s \<noteq> []"
  by auto

subsection \<open>Splitting\<close>

text \<open>\<open>strings.Split\<close> with a one-byte separator.\<close>

fun SplitByte :: "string \<Rightarrow> char \<Rightarrow> string list" where
  "SplitByte [] d = [[]]"
| "SplitByte (c # s) d =
     (if c = d then [] # SplitByte s d
      else (case SplitByte s d of [] \<Rightarrow> [[c]] | w # ws \<Rightarrow> (c # w) # ws))"

lemma SplitByte_nonempty [simp]: "SplitByte s d \<noteq> []"
  by (induction s) (auto split: list.splits)

lemma SplitByte_join: "strings_Join (SplitByte s d) [d] = s"
proof (induction s)
  case Nil
  then show ?case by simp
next
  case (Cons c s)
  obtain w ws where w: "SplitByte s d = w # ws"
    using SplitByte_nonempty [of s d] by (cases "SplitByte s d") auto
  show ?case using Cons w by (cases ws) auto
qed

text \<open>\<open>strings.Fields\<close>: the maximal runs of bytes outside white-space runes.\<close>

function Fields_from :: "string \<Rightarrow> string \<Rightarrow> string list" where
  "Fields_from acc s =
     (if s = [] then (if acc = [] then [] else [acc])
      else if rune_width space_runes s = 0 then Fields_from (acc @ [hd s]) (tl s)
      else (if acc = [] then [] else [acc])
           @ Fields_from [] (drop (rune_width space_runes s) s))"
  by pat_completeness auto
termination
  by (relation "measure (\<lambda>(acc, s). length s)") auto

declare Fields_from.simps [simp del]

definition Fields :: "string \<Rightarrow> string list" where
  "Fields s = Fields_from [] s"

lemma Fields_from_nonempty: "w \<in> set (Fields_from acc s) \<Longrightarrow> w \<noteq> []"
proof (induction acc s rule: Fields_from.induct)
  case (1 acc s)
  from 1(3) show ?case
    by (subst (asm) Fields_from.simps) (auto split: if_splits dest: 1(1,2))
qed

lemma Fields_nonempty: "w \<in> set (Fields s) \<Longrightarrow> w \<noteq> []"
  by (simp add: Fields_def Fields_from_nonempty)

section \<open>Machine integers\<close>

text \<open>Go's \<open>int\<close> on the 64-bit targets, as an HOL \<open>int\<close> brought back into range.\<close>

definition wrap64 :: "int \<Rightarrow> int" where
  "wrap64 i = (i + 2 ^ 63) mod 2 ^ 64 - 2 ^ 63"

lemma wrap64_id: "- (2 ^ 63) \<le> i \<Longrightarrow> i < 2 ^ 63 \<Longrightarrow> wrap64 i = i"
  by (simp add: wrap64_def)

lemma wrap64_bounds: "- (2 ^ 63) \<le> wrap64 i \<and> wrap64 i < 2 ^ 63"
  by (simp add: wrap64_def)

lemma wrap64_add [simp, go_simps]: "wrap64 (wrap64 a + b) = wrap64 (a + b)"
proof -
  have "wrap64 a + b + 2 ^ 63 = (a + 2 ^ 63) mod 2 ^ 64 + b" by (simp add: wrap64_def)
  also have "(\<dots>) mod 2 ^ 64 = (a + 2 ^ 63 + b) mod 2 ^ 64" by (simp add: mod_add_left_eq)
  finally show ?thesis by (simp add: wrap64_def algebra_simps)
qed

lemma wrap64_wrap64 [simp]: "wrap64 (wrap64 a) = wrap64 a"
  using wrap64_add [of a 0] by simp

section \<open>Maps\<close>

text \<open>
  A Go map that may be nil is an option of a HOL map. Reading a missing key of either gives the
  zero value; writing to a nil map panics.
\<close>

definition nmap_get :: "('k \<rightharpoonup> 'v) option \<Rightarrow> 'k \<Rightarrow> 'v option" where
  "nmap_get m k = (case m of None \<Rightarrow> None | Some f \<Rightarrow> f k)"

definition nmap_list :: "('k \<rightharpoonup> 'v list) option \<Rightarrow> 'k \<Rightarrow> 'v list" where
  "nmap_list m k = (case nmap_get m k of None \<Rightarrow> [] | Some vs \<Rightarrow> vs)"

definition nmap_put :: "('k \<rightharpoonup> 'v) option \<Rightarrow> 'k \<Rightarrow> 'v \<Rightarrow> ('k \<rightharpoonup> 'v) option go" where
  "nmap_put m k v = (case m of None \<Rightarrow> Panic | Some f \<Rightarrow> Ret (Some (f(k \<mapsto> v))))"

lemma nmap_simps [simp, go_simps]:
  "nmap_get None k = None"
  "nmap_get (Some f) k = f k"
  "nmap_list None k = []"
  "nmap_put None k v = Panic"
  "nmap_put (Some f) k v = Ret (Some (f(k \<mapsto> v)))"
  by (simp_all add: nmap_get_def nmap_list_def nmap_put_def)

lemma nmap_list_Some [simp, go_simps]:
  "nmap_list (Some f) k = (case f k of None \<Rightarrow> [] | Some vs \<Rightarrow> vs)"
  by (simp add: nmap_list_def)

text \<open>
  The dynamic maps are association lists: \<open>AList.update\<close> writes a key, \<open>map_of\<close> reads
  it. Writing every entry of one map into another (\<open>for k, v := range src\<close>) is a fold.
\<close>

definition gmap_merge :: "('k \<times> 'v) list \<Rightarrow> ('k \<times> 'v) list \<Rightarrow> ('k \<times> 'v) list" where
  "gmap_merge dst src = fold (\<lambda>(k, v) m. AList.update k v m) src dst"

lemma map_of_gmap_merge:
  "distinct (map fst src) \<Longrightarrow> map_of (gmap_merge dst src) = map_of dst ++ map_of src"
proof (induction src arbitrary: dst)
  case Nil
  then show ?case by (simp add: gmap_merge_def)
next
  case (Cons p src)
  obtain k v where p: "p = (k, v)" by (cases p)
  from Cons.prems p have k: "map_of src k = None" and d: "distinct (map fst src)"
    by (auto simp: map_of_eq_None_iff)
  have "map_of (gmap_merge dst (p # src)) = map_of (AList.update k v dst) ++ map_of src"
    using Cons.IH [OF d, of "AList.update k v dst"] by (simp add: gmap_merge_def p)
  also have "\<dots> = map_of dst ++ map_of (p # src)"
    using k by (simp add: p update_conv' map_add_upd_left domIff)
  finally show ?case .
qed

section \<open>Lists\<close>

text \<open>Update the first element that satisfies a predicate, as a loop with an early return does.\<close>

fun update_first :: "('a \<Rightarrow> bool) \<Rightarrow> ('a \<Rightarrow> 'a) \<Rightarrow> 'a list \<Rightarrow> 'a list" where
  "update_first p f [] = []"
| "update_first p f (x # xs) = (if p x then f x # xs else x # update_first p f xs)"

lemma length_update_first [simp]: "length (update_first p f xs) = length xs"
  by (induction xs) auto

lemma update_first_id: "find p xs = None \<Longrightarrow> update_first p f xs = xs"
  by (induction xs) (auto split: if_splits)

lemma map_update_first: "(\<And>x. p x \<Longrightarrow> g (f x) = g x) \<Longrightarrow> map g (update_first p f xs) = map g xs"
  by (induction xs) auto

lemma list_all_update_first:
  "list_all q xs \<Longrightarrow> (\<And>x. p x \<Longrightarrow> q x \<Longrightarrow> q (f x)) \<Longrightarrow> list_all q (update_first p f xs)"
  by (induction xs) auto

lemma find_append: "find p (xs @ ys) = (case find p xs of None \<Rightarrow> find p ys | Some x \<Rightarrow> Some x)"
  by (induction xs) auto

lemma find_update_first:
  "(\<And>x. p x \<Longrightarrow> p (f x)) \<Longrightarrow> find p (update_first p f xs) = map_option f (find p xs)"
  by (induction xs) auto

lemma update_first_append:
  "update_first p f (xs @ ys) =
     (if find p xs = None then xs @ update_first p f ys else update_first p f xs @ ys)"
  by (induction xs) auto

lemma update_first_comp:
  "(\<And>x. p x \<Longrightarrow> p (f x)) \<Longrightarrow> update_first p g (update_first p f xs) = update_first p (g \<circ> f) xs"
  by (induction xs) auto


section \<open>Identifiers and clocks\<close>

text \<open>
  \<open>utils.NewID\<close> and \<open>time.Now\<close> read the environment: a supply of identifiers (the
  configured ID factory) and of wall-clock texts (RFC 3339), each with the position of the next
  value. Nothing is assumed of the supplied values.
\<close>

record env =
  IdAt :: "nat \<Rightarrow> string"
  IdPos :: nat
  TimeAt :: "nat \<Rightarrow> string"
  TimePos :: nat

definition newID :: "env \<Rightarrow> string \<times> env" where
  "newID w = (IdAt w (IdPos w), w\<lparr>IdPos := Suc (IdPos w)\<rparr>)"

definition nowISO :: "env \<Rightarrow> string \<times> env" where
  "nowISO w = (TimeAt w (TimePos w), w\<lparr>TimePos := Suc (TimePos w)\<rparr>)"

end
