(* ===== verification/Permission.thy ===== *)
theory Permission
  imports Prelude
begin

text \<open>
  The permission engine: \<open>pkg/permission\<close> (\<open>rule.go\<close>, \<open>decision.go\<close>, \<open>mode.go\<close>,
  \<open>context.go\<close>, \<open>classifier.go\<close>, \<open>engine.go\<close>). Rules, decisions and the permission
  context are records; a tool is a record of the functions of the Go interface; the engine's
  mutable part is its context (the denial counters). \<open>CheckPermission\<close> returns the result
  pair of the Go method together with the engine after the call.

  The tool's own methods and the auto classifier are parameters (fields of the records): they are
  supplied by the caller of the package.
\<close>

section \<open>Data\<close>

datatype PermissionMode =
    ModeDefault | ModeAcceptEdits | ModeAuto | ModeExplore | ModeBypass | ModeDontAsk
  | ModeOther string

fun mode_text :: "PermissionMode \<Rightarrow> string" where
  "mode_text ModeDefault = ''default''"
| "mode_text ModeAcceptEdits = ''accept_edits''"
| "mode_text ModeAuto = ''auto''"
| "mode_text ModeExplore = ''explore''"
| "mode_text ModeBypass = ''bypass''"
| "mode_text ModeDontAsk = ''dont_ask''"
| "mode_text (ModeOther s) = s"

datatype Behavior =
    BehaviorAllow | BehaviorDeny | BehaviorAsk | BehaviorPassthrough | BehaviorOther string

fun behavior_text :: "Behavior \<Rightarrow> string" where
  "behavior_text BehaviorAllow = ''allow''"
| "behavior_text BehaviorDeny = ''deny''"
| "behavior_text BehaviorAsk = ''ask''"
| "behavior_text BehaviorPassthrough = ''passthrough''"
| "behavior_text (BehaviorOther s) = s"

record rule =
  ToolName :: string
  RuleContent :: string
  RuleBehavior :: Behavior
  RuleSource :: string

record decision =
  DecBehavior :: Behavior
  DecMessage :: string
  DecisionReason :: string
  UpdatedInput :: "gmap option"
  SuggestedRules :: "rule list"

record AutoDenialState =
  ConsecutiveDenials :: int
  TotalDenials :: int

record workdir =
  DirPath :: string
  DirSource :: string

type_synonym rule_map = "(string \<rightharpoonup> rule list) option"

record perm_context =
  Mode :: PermissionMode
  WorkingDirectories :: "(string \<rightharpoonup> workdir) option"
  AllowRules :: rule_map
  DenyRules :: rule_map
  AskRules :: rule_map
  DenialState :: AutoDenialState

text \<open>\<open>AutoMaxConsecutiveDenials\<close> and \<open>AutoMaxTotalDenials\<close>.\<close>

definition AutoMaxConsecutiveDenials :: int where "AutoMaxConsecutiveDenials = 3"
definition AutoMaxTotalDenials :: int where "AutoMaxTotalDenials = 20"

definition NewContext :: "PermissionMode \<Rightarrow> perm_context" where
  "NewContext mode =
     \<lparr>Mode = (if mode = ModeOther [] then ModeDefault else mode),
      WorkingDirectories = Some Map.empty,
      AllowRules = Some Map.empty, DenyRules = Some Map.empty, AskRules = Some Map.empty,
      DenialState = \<lparr>ConsecutiveDenials = 0, TotalDenials = 0\<rparr>\<rparr>"

text \<open>A nil map becomes an empty one; every key keeps its rules.\<close>

definition init_map :: "('k \<rightharpoonup> 'v) option \<Rightarrow> ('k \<rightharpoonup> 'v) option" where
  "init_map m = (case m of None \<Rightarrow> Some Map.empty | Some f \<Rightarrow> Some f)"

definition ensureMaps :: "perm_context \<Rightarrow> perm_context" where
  "ensureMaps c = c\<lparr>WorkingDirectories := init_map (WorkingDirectories c),
     AllowRules := init_map (AllowRules c), DenyRules := init_map (DenyRules c),
     AskRules := init_map (AskRules c)\<rparr>"

definition cloneRuleMap :: "rule_map \<Rightarrow> rule_map" where
  "cloneRuleMap m = Some (\<lambda>key. nmap_get m key)"

text \<open>\<open>cloneWorkingDirectories\<close> and the engine's shallow \<open>cloneAnyMap\<close> keep nil maps nil.\<close>

definition cloneWorkingDirectories :: "(string \<rightharpoonup> workdir) option \<Rightarrow> (string \<rightharpoonup> workdir) option" where
  "cloneWorkingDirectories m = map_option (\<lambda>f key. f key) m"

definition cloneAnyMap :: "gmap option \<Rightarrow> gmap option" where
  "cloneAnyMap m = map_option (map (\<lambda>(key, v). (key, v))) m"

definition context_Clone :: "perm_context \<Rightarrow> perm_context" where
  "context_Clone c =
     ensureMaps \<lparr>Mode = (if Mode c = ModeOther [] then ModeDefault else Mode c),
      WorkingDirectories = Some (\<lambda>key. nmap_get (WorkingDirectories c) key),
      AllowRules = cloneRuleMap (AllowRules c), DenyRules = cloneRuleMap (DenyRules c),
      AskRules = cloneRuleMap (AskRules c), DenialState = DenialState c\<rparr>"

text \<open>The tool surface the engine sees (interfaces \<open>Tool\<close> and \<open>InputReadOnlyTool\<close>).\<close>

record tool =
  ToolNameOf :: string
  IsReadOnly :: bool
  IsReadOnlyInput :: "(gmap \<Rightarrow> bool) option"
  CheckPermissions :: "gmap \<Rightarrow> perm_context \<Rightarrow> error + decision option"
  MatchRule :: "string \<Rightarrow> gmap \<Rightarrow> bool"
  GenerateSuggestions :: "gmap \<Rightarrow> rule list"
  ToolDescription :: "string option"

record ClassifierRequest =
  ReqToolName :: string
  ReqToolDescription :: string
  ReqToolReadOnly :: bool
  ReqInput :: "gmap option"
  ReqAction :: string
  ReqTranscript :: string
  ReqWorkingDirectories :: "(string \<rightharpoonup> workdir) option"
  ReqAllowRules :: rule_map
  ReqDenyRules :: rule_map
  ReqAskRules :: rule_map
  ReqDenialState :: AutoDenialState

type_synonym classifier = "ClassifierRequest \<Rightarrow> error + decision option"

record engine =
  Context :: perm_context
  AutoClassifier :: "classifier option"
  AutoTranscript :: string

section \<open>Engine operations\<close>

text \<open>
  \<open>NewEngine\<close> with the two options as arguments: \<open>WithAutoPermissionClassifier\<close> and
  \<open>WithAutoPermissionTranscript\<close>.
\<close>

definition NewEngine :: "perm_context option \<Rightarrow> classifier option \<Rightarrow> string \<Rightarrow> engine" where
  "NewEngine ctx cl transcript =
     \<lparr>Context = ensureMaps (case ctx of None \<Rightarrow> NewContext ModeDefault | Some c \<Rightarrow> c),
      AutoClassifier = cl, AutoTranscript = transcript\<rparr>"

definition append_rule :: "rule_map \<Rightarrow> rule \<Rightarrow> rule_map go" where
  "append_rule m r = nmap_put m (ToolName r) (nmap_list m (ToolName r) @ [r])"

definition AddRule :: "engine \<Rightarrow> rule \<Rightarrow> engine go" where
  "AddRule e r =
     (let c = ensureMaps (Context e)
      in case RuleBehavior r of
           BehaviorAllow \<Rightarrow> go_bind (append_rule (AllowRules c) r)
                              (\<lambda>m. Ret (e\<lparr>Context := c\<lparr>AllowRules := m\<rparr>\<rparr>))
         | BehaviorDeny \<Rightarrow> go_bind (append_rule (DenyRules c) r)
                             (\<lambda>m. Ret (e\<lparr>Context := c\<lparr>DenyRules := m\<rparr>\<rparr>))
         | BehaviorAsk \<Rightarrow> go_bind (append_rule (AskRules c) r)
                            (\<lambda>m. Ret (e\<lparr>Context := c\<lparr>AskRules := m\<rparr>\<rparr>))
         | _ \<Rightarrow> Ret (e\<lparr>Context := c\<rparr>))"

definition recordAutoDenial :: "engine \<Rightarrow> engine" where
  "recordAutoDenial e =
     (let c = Context e; s = DenialState c
      in e\<lparr>Context := c\<lparr>DenialState :=
           \<lparr>ConsecutiveDenials = ConsecutiveDenials s + 1, TotalDenials = TotalDenials s + 1\<rparr>\<rparr>\<rparr>)"

definition resetAutoDenials :: "engine \<Rightarrow> engine" where
  "resetAutoDenials e =
     (let c = Context e
      in if Mode c \<noteq> ModeAuto then e
         else e\<lparr>Context := c\<lparr>DenialState := (DenialState c)\<lparr>ConsecutiveDenials := 0\<rparr>\<rparr>\<rparr>)"

definition shouldFallbackToAsk :: "engine \<Rightarrow> bool" where
  "shouldFallbackToAsk e =
     (let s = DenialState (Context e)
      in ConsecutiveDenials s \<ge> AutoMaxConsecutiveDenials \<or> TotalDenials s \<ge> AutoMaxTotalDenials)"

definition mk_decision :: "Behavior \<Rightarrow> string \<Rightarrow> string \<Rightarrow> decision" where
  "mk_decision b msg reason =
     \<lparr>DecBehavior = b, DecMessage = msg, DecisionReason = reason,
      UpdatedInput = None, SuggestedRules = []\<rparr>"

fun rule_decision :: "tool \<Rightarrow> rule \<Rightarrow> Behavior \<Rightarrow> decision option" where
  "rule_decision t r BehaviorDeny =
     Some (mk_decision BehaviorDeny (''Permission to use '' @ ToolNameOf t @ '' has been denied'')
       (''Rule: '' @ RuleContent r))"
| "rule_decision t r BehaviorAsk =
     Some (mk_decision BehaviorAsk (''Permission required for '' @ ToolNameOf t)
       (''Rule: '' @ RuleContent r))"
| "rule_decision t r BehaviorAllow =
     Some (mk_decision BehaviorAllow (''Permission granted for '' @ ToolNameOf t) [])"
| "rule_decision t r _ = None"

definition rule_applies :: "tool \<Rightarrow> gmap \<Rightarrow> rule \<Rightarrow> bool" where
  "rule_applies t input r \<longleftrightarrow> RuleContent r = [] \<or> MatchRule t (RuleContent r) input"

text \<open>The loop of \<open>checkRules\<close>: a matching rule returns unless the switch has no case for it.\<close>

fun checkRules_loop :: "tool \<Rightarrow> gmap \<Rightarrow> Behavior \<Rightarrow> rule list \<Rightarrow> decision option" where
  "checkRules_loop t input b [] = None"
| "checkRules_loop t input b (r # rs) =
     (if rule_applies t input r
      then (case rule_decision t r b of
              None \<Rightarrow> checkRules_loop t input b rs
            | Some d \<Rightarrow> Some d)
      else checkRules_loop t input b rs)"

definition checkRules :: "tool \<Rightarrow> gmap \<Rightarrow> rule_map \<Rightarrow> Behavior \<Rightarrow> decision option" where
  "checkRules t input rules b = checkRules_loop t input b (nmap_list rules (ToolNameOf t))"

definition isReadOnlyInvocation :: "tool \<Rightarrow> gmap \<Rightarrow> bool" where
  "isReadOnlyInvocation t input =
     (case IsReadOnlyInput t of
        Some f \<Rightarrow> if f input then True else IsReadOnly t
      | None \<Rightarrow> IsReadOnly t)"

definition checkReadOnlyFastPath :: "tool \<Rightarrow> gmap \<Rightarrow> decision option" where
  "checkReadOnlyFastPath t input =
     (if \<not> isReadOnlyInvocation t input then None
      else Some (mk_decision BehaviorAllow
        (''Permission granted for '' @ ToolNameOf t @ '' (read-only invocation)'')
        ''Read-only operations are auto-allowed''))"

definition defaultDecisionAsk :: "engine \<Rightarrow> string \<Rightarrow> decision" where
  "defaultDecisionAsk e name =
     (if Mode (Context e) = ModeDontAsk
      then mk_decision BehaviorDeny
        (''Permission denied for '' @ name @ '' (dont_ask mode - user not available)'')
        ''User is not available to answer permission prompts''
      else mk_decision BehaviorAsk (''Permission required for '' @ name)
        (''Mode: '' @ mode_text (Mode (Context e))))"

text \<open>
  \<open>formatClassifierAction\<close>: \<open>marshal\<close> is \<open>encoding/json.Marshal\<close> on the dynamic value,
  \<open>None\<close> for its error. Only the classifier reads the text.
\<close>

definition formatClassifierAction :: "(gval \<Rightarrow> string option) \<Rightarrow> string \<Rightarrow> gmap \<Rightarrow> string" where
  "formatClassifierAction marshal name input =
     (case marshal (VMap [(''tool_name'', VStr name), (''input'', VMap input)]) of
        None \<Rightarrow> name @ ''('' @ Sprint (VMap input) @ '')''
      | Some data \<Rightarrow> data)"

definition toolDescription :: "tool \<Rightarrow> string" where
  "toolDescription t = (case ToolDescription t of None \<Rightarrow> [] | Some d \<Rightarrow> d)"

definition classifierRequest ::
    "(gval \<Rightarrow> string option) \<Rightarrow> engine \<Rightarrow> tool \<Rightarrow> gmap \<Rightarrow> ClassifierRequest" where
  "classifierRequest marshal e t input =
     \<lparr>ReqToolName = ToolNameOf t, ReqToolDescription = toolDescription t,
      ReqToolReadOnly = isReadOnlyInvocation t input, ReqInput = cloneAnyMap (Some input),
      ReqAction = formatClassifierAction marshal (ToolNameOf t) input,
      ReqTranscript = AutoTranscript e,
      ReqWorkingDirectories = cloneWorkingDirectories (WorkingDirectories (Context e)),
      ReqAllowRules = cloneRuleMap (AllowRules (Context e)),
      ReqDenyRules = cloneRuleMap (DenyRules (Context e)),
      ReqAskRules = cloneRuleMap (AskRules (Context e)),
      ReqDenialState = DenialState (Context e)\<rparr>"

definition default_text :: "string \<Rightarrow> string \<Rightarrow> string" where
  "default_text s d = (if s = [] then d else s)"

definition default_input :: "gmap option \<Rightarrow> gmap \<Rightarrow> gmap option" where
  "default_input u input = (case u of None \<Rightarrow> Some input | Some m \<Rightarrow> Some m)"

definition resolveAutoClassifierDecision ::
    "engine \<Rightarrow> tool \<Rightarrow> gmap \<Rightarrow> decision \<Rightarrow> decision \<Rightarrow> decision \<times> engine" where
  "resolveAutoClassifierDecision e t input ask d =
     (case DecBehavior d of
        BehaviorAllow \<Rightarrow>
          (d\<lparr>DecMessage := default_text (DecMessage d)
               (''Permission granted for '' @ ToolNameOf t @ '' (auto classifier)''),
             DecisionReason := default_text (DecisionReason d)
               ''Auto classifier allowed the operation'',
             UpdatedInput := default_input (UpdatedInput d) input\<rparr>, resetAutoDenials e)
      | BehaviorDeny \<Rightarrow>
          (let e' = recordAutoDenial e
           in if shouldFallbackToAsk e'
              then (ask\<lparr>DecisionReason := ''Auto classifier denial threshold reached''\<rparr>, e')
              else (d\<lparr>DecMessage := default_text (DecMessage d)
                       (''Permission denied for '' @ ToolNameOf t @ '' (auto classifier)''),
                     DecisionReason := default_text (DecisionReason d)
                       ''Auto classifier denied the operation''\<rparr>, e'))
      | BehaviorAsk \<Rightarrow> (ask, e)
      | b \<Rightarrow> (mk_decision BehaviorDeny
                (''Permission denied for '' @ ToolNameOf t
                  @ '' (auto classifier returned invalid behavior)'')
                (''Invalid auto classifier behavior: '' @ behavior_text b), e))"

definition checkAcceptEditsFastPath ::
    "engine \<Rightarrow> tool \<Rightarrow> gmap \<Rightarrow> (error + decision option) \<times> engine" where
  "checkAcceptEditsFastPath e t input =
     (let accept = (context_Clone (Context e))\<lparr>Mode := ModeAcceptEdits\<rparr>
      in case CheckPermissions t input accept of
           Inl err \<Rightarrow> (Inl err, e)
         | Inr None \<Rightarrow> (Inr None, e)
         | Inr (Some d) \<Rightarrow>
             (case DecBehavior d of
                BehaviorPassthrough \<Rightarrow> (Inr None, e)
              | BehaviorAsk \<Rightarrow> (Inr None, e)
              | BehaviorAllow \<Rightarrow>
                  (Inr (Some (d\<lparr>DecMessage := default_text (DecMessage d)
                      (''Permission granted for '' @ ToolNameOf t
                        @ '' (auto mode accept-edits fast path)''),
                     DecisionReason := default_text (DecisionReason d)
                      ''Accept edits mode allowed the operation before classifier escalation'',
                     UpdatedInput := default_input (UpdatedInput d) input\<rparr>)), resetAutoDenials e)
              | _ \<Rightarrow> (Inr (Some d), e)))"

definition resolveAutoPermission ::
    "(gval \<Rightarrow> string option) \<Rightarrow> engine \<Rightarrow> tool \<Rightarrow> gmap \<Rightarrow> decision
      \<Rightarrow> (error + decision) \<times> engine" where
  "resolveAutoPermission marshal e t input ask =
     (case AutoClassifier e of
        None \<Rightarrow> (Inr ask, e)
      | Some classify \<Rightarrow>
          if Mode (Context e) \<noteq> ModeAuto then (Inr ask, e)
          else (case checkAcceptEditsFastPath e t input of
                  (Inl err, e1) \<Rightarrow> (Inl err, e1)
                | (Inr (Some d), e1) \<Rightarrow> (Inr d, e1)
                | (Inr None, e1) \<Rightarrow>
                    (case classify (classifierRequest marshal e1 t input) of
                       Inl err \<Rightarrow>
                         (Inr (mk_decision BehaviorDeny
                            (''Permission denied for '' @ ToolNameOf t
                              @ '' (auto classifier failed)'') (error_text err)), e1)
                     | Inr None \<Rightarrow>
                         (Inr (mk_decision BehaviorDeny
                            (''Permission denied for '' @ ToolNameOf t
                              @ '' (auto classifier returned no decision)'')
                            ''Auto classifier returned nil decision''), e1)
                     | Inr (Some d) \<Rightarrow>
                         (let (d', e2) = resolveAutoClassifierDecision e1 t input ask d
                          in (Inr d', e2)))))"

text \<open>The whole of \<open>CheckPermission\<close>, in the order of the code.\<close>

definition CheckPermission ::
    "(gval \<Rightarrow> string option) \<Rightarrow> engine \<Rightarrow> tool option \<Rightarrow> gmap option
      \<Rightarrow> (error + decision) \<times> engine" where
  "CheckPermission marshal e tool_opt input_opt =
     (case tool_opt of
        None \<Rightarrow> (Inl (Err ''permission: nil tool''), e)
      | Some t \<Rightarrow>
        (let input = (case input_opt of None \<Rightarrow> [] | Some m \<Rightarrow> m)
         in case checkRules t input (DenyRules (Context e)) BehaviorDeny of
            Some d \<Rightarrow> (Inr d, e)
          | None \<Rightarrow>
        (case checkRules t input (AskRules (Context e)) BehaviorAsk of
            Some d \<Rightarrow> (Inr (d\<lparr>SuggestedRules := GenerateSuggestions t input\<rparr>), e)
          | None \<Rightarrow>
        (case checkReadOnlyFastPath t input of
            Some d \<Rightarrow> (Inr d, resetAutoDenials e)
          | None \<Rightarrow>
        if Mode (Context e) = ModeExplore
        then (Inr (mk_decision BehaviorDeny
               (''Permission denied for '' @ ToolNameOf t @ '' (explore mode is read-only)'')
               ''Explore mode does not allow modifications''), e)
        else
        (case CheckPermissions t input (Context e) of
            Inl err \<Rightarrow> (Inl err, e)
          | Inr td \<Rightarrow>
        (if td \<noteq> None \<and> DecBehavior (the td) \<noteq> BehaviorPassthrough
         then (if DecBehavior (the td) = BehaviorAsk
               then resolveAutoPermission marshal e t input
                      ((the td)\<lparr>SuggestedRules := GenerateSuggestions t input\<rparr>)
               else if DecBehavior (the td) = BehaviorAllow
               then (Inr (the td), resetAutoDenials e)
               else (Inr (the td), e))
         else
        (case checkRules t input (AllowRules (Context e)) BehaviorAllow of
            Some d \<Rightarrow> (Inr (d\<lparr>UpdatedInput := Some input\<rparr>), resetAutoDenials e)
          | None \<Rightarrow>
        if Mode (Context e) = ModeBypass
        then (Inr (mk_decision BehaviorAllow
               (''Permission granted for '' @ ToolNameOf t @ '' (bypass mode)'')
               ''Bypass mode allows all operations''), e)
        else
        (let d = defaultDecisionAsk e (ToolNameOf t)
         in if DecBehavior d = BehaviorAsk
            then resolveAutoPermission marshal e t input
                   (d\<lparr>SuggestedRules := GenerateSuggestions t input\<rparr>)
            else (Inr d, e)))))))))"


section \<open>Lemmas\<close>

text \<open>Does a rule list (for the tool's name) have a rule that applies to this input?\<close>

definition some_rule :: "tool \<Rightarrow> gmap \<Rightarrow> rule_map \<Rightarrow> bool" where
  "some_rule t input rules \<longleftrightarrow> list_ex (rule_applies t input) (nmap_list rules (ToolNameOf t))"

definition input_of :: "gmap option \<Rightarrow> gmap" where
  "input_of i = (case i of None \<Rightarrow> [] | Some m \<Rightarrow> m)"

definition verdict :: "error + decision option \<Rightarrow> Behavior option" where
  "verdict r = (case r of Inr (Some d) \<Rightarrow> Some (DecBehavior d) | _ \<Rightarrow> None)"

lemma verdict_simps [simp]:
  "verdict (Inl err) = None" "verdict (Inr None) = None"
  "verdict (Inr (Some d)) = Some (DecBehavior d)"
  by (simp_all add: verdict_def)

lemma mk_decision_sel [simp, go_simps]:
  "DecBehavior (mk_decision b m r) = b" "DecMessage (mk_decision b m r) = m"
  "DecisionReason (mk_decision b m r) = r" "UpdatedInput (mk_decision b m r) = None"
  by (simp_all add: mk_decision_def)

lemma checkRules_loop_behavior: "checkRules_loop t i b rs = Some d \<Longrightarrow> DecBehavior d = b"
  by (induction rs) (auto split: if_splits option.splits elim!: rule_decision.elims)

lemma checkRules_behavior: "checkRules t i rules b = Some d \<Longrightarrow> DecBehavior d = b"
  by (simp add: checkRules_def checkRules_loop_behavior)

lemma checkRules_some_rule: "checkRules t i rules b = Some d \<Longrightarrow> some_rule t i rules"
proof -
  have "checkRules_loop t i b rs = Some d \<Longrightarrow> list_ex (rule_applies t i) rs" for rs
    by (induction rs) (auto split: if_splits)
  then show "checkRules t i rules b = Some d \<Longrightarrow> some_rule t i rules"
    by (simp add: checkRules_def some_rule_def)
qed

lemma checkRules_loop_None:
  "b \<in> {BehaviorDeny, BehaviorAsk, BehaviorAllow} \<Longrightarrow>
   checkRules_loop t i b rs = None \<longleftrightarrow> \<not> list_ex (rule_applies t i) rs"
  by (induction rs) auto

lemma checkRules_None:
  "b \<in> {BehaviorDeny, BehaviorAsk, BehaviorAllow} \<Longrightarrow>
   checkRules t i rules b = None \<longleftrightarrow> \<not> some_rule t i rules"
  by (simp add: checkRules_def some_rule_def checkRules_loop_None)

lemma checkRules_Some:
  "b \<in> {BehaviorDeny, BehaviorAsk, BehaviorAllow} \<Longrightarrow> some_rule t i rules \<Longrightarrow>
   \<exists>d. checkRules t i rules b = Some d \<and> DecBehavior d = b"
  by (metis checkRules_None checkRules_behavior not_None_eq)

text \<open>The counters are the only part of the context an operation writes.\<close>

definition same_rules :: "engine \<Rightarrow> engine \<Rightarrow> bool" where
  "same_rules e e' \<longleftrightarrow> (\<exists>s. e' = e\<lparr>Context := (Context e)\<lparr>DenialState := s\<rparr>\<rparr>)"

lemma same_rules_refl [simp]: "same_rules e e"
proof -
  have "e = e\<lparr>Context := (Context e)\<lparr>DenialState := DenialState (Context e)\<rparr>\<rparr>" by simp
  then show ?thesis unfolding same_rules_def by blast
qed

lemma same_rules_denial_ops [simp]:
  "same_rules e (resetAutoDenials e)" "same_rules e (recordAutoDenial e)"
  by (auto simp: resetAutoDenials_def recordAutoDenial_def same_rules_def Let_def
      intro: same_rules_refl [unfolded same_rules_def])

lemma denial_ops_sel [simp, go_simps]:
  "Mode (Context (resetAutoDenials e)) = Mode (Context e)"
  "Mode (Context (recordAutoDenial e)) = Mode (Context e)"
  "TotalDenials (DenialState (Context (resetAutoDenials e)))
     = TotalDenials (DenialState (Context e))"
  "TotalDenials (DenialState (Context (recordAutoDenial e)))
     = TotalDenials (DenialState (Context e)) + 1"
  "ConsecutiveDenials (DenialState (Context (recordAutoDenial e)))
     = ConsecutiveDenials (DenialState (Context e)) + 1"
  by (simp_all add: resetAutoDenials_def recordAutoDenial_def Let_def)

lemma resolveAutoClassifierDecision_allow:
  assumes "resolveAutoClassifierDecision e t i ask d = (d', e')"
    and "DecBehavior ask = BehaviorAsk" and "DecBehavior d' = BehaviorAllow"
  shows "DecBehavior d = BehaviorAllow"
  using assms
  by (cases "DecBehavior d") (auto simp: resolveAutoClassifierDecision_def Let_def split: if_splits)

lemma resolveAutoClassifierDecision_same:
  "resolveAutoClassifierDecision e t i ask d = (d', e') \<Longrightarrow> same_rules e e'"
  by (cases "DecBehavior d") (auto simp: resolveAutoClassifierDecision_def Let_def split: if_splits)

lemma checkAcceptEditsFastPath_cases:
  assumes "checkAcceptEditsFastPath e t i = (r, e')"
  shows "same_rules e e'
    \<and> TotalDenials (DenialState (Context e')) = TotalDenials (DenialState (Context e))
    \<and> (r = Inr None \<longrightarrow> e' = e)
    \<and> (\<forall>d. r = Inr (Some d) \<longrightarrow> verdict (CheckPermissions t i
             ((context_Clone (Context e))\<lparr>Mode := ModeAcceptEdits\<rparr>)) = Some (DecBehavior d))"
  using assms
  by (auto simp: checkAcceptEditsFastPath_def Let_def
      split: sum.splits option.splits Behavior.splits)


text \<open>How the auto path of an ask decision can end in an allow.\<close>

definition auto_allows :: "(gval \<Rightarrow> string option) \<Rightarrow> engine \<Rightarrow> tool \<Rightarrow> gmap \<Rightarrow> bool" where
  "auto_allows marshal e t input \<longleftrightarrow>
     Mode (Context e) = ModeAuto \<and>
     (case AutoClassifier e of
        None \<Rightarrow> False
      | Some classify \<Rightarrow>
          verdict (CheckPermissions t input ((context_Clone (Context e))\<lparr>Mode := ModeAcceptEdits\<rparr>))
            = Some BehaviorAllow
          \<or> verdict (classify (classifierRequest marshal e t input)) = Some BehaviorAllow)"

lemma resolveAutoPermission_allow:
  assumes "resolveAutoPermission marshal e t i ask = (Inr d, e')"
    and "DecBehavior ask = BehaviorAsk" and "DecBehavior d = BehaviorAllow"
  shows "auto_allows marshal e t i"
proof (cases "AutoClassifier e")
  case None
  with assms show ?thesis by (simp add: resolveAutoPermission_def)
next
  case (Some classify)
  show ?thesis
  proof (cases "Mode (Context e) = ModeAuto")
    case False
    with assms Some show ?thesis by (simp add: resolveAutoPermission_def)
  next
    case True
    obtain r e1 where fp: "checkAcceptEditsFastPath e t i = (r, e1)"
      by (cases "checkAcceptEditsFastPath e t i")
    note fast = checkAcceptEditsFastPath_cases [OF fp]
    show ?thesis
    proof (cases "\<exists>d'. r = Inr (Some d')")
      case True
      with assms(1) Some fp \<open>Mode (Context e) = ModeAuto\<close> have "r = Inr (Some d)"
        by (auto simp: resolveAutoPermission_def)
      with fast assms(3) Some \<open>Mode (Context e) = ModeAuto\<close> show ?thesis
        by (simp add: auto_allows_def)
    next
      case False
      with assms(1) Some fp \<open>Mode (Context e) = ModeAuto\<close> have "r = Inr None"
        by (auto simp: resolveAutoPermission_def split: sum.splits option.splits)
      with fast have "e1 = e" by simp
      with assms Some fp \<open>Mode (Context e) = ModeAuto\<close> \<open>r = Inr None\<close> obtain d0 where
        "classify (classifierRequest marshal e t i) = Inr (Some d0)"
        "resolveAutoClassifierDecision e t i ask d0 = (d, e')"
        by (auto simp: resolveAutoPermission_def Let_def split: sum.splits option.splits prod.splits)
      with assms resolveAutoClassifierDecision_allow Some \<open>Mode (Context e) = ModeAuto\<close>
      show ?thesis by (auto simp: auto_allows_def)
    qed
  qed
qed

lemma resolveAutoPermission_same:
  "resolveAutoPermission marshal e t i ask = (r, e') \<Longrightarrow> same_rules e e'"
  using checkAcceptEditsFastPath_cases [of e t i]
  by (auto simp: resolveAutoPermission_def Let_def dest: resolveAutoClassifierDecision_same
      split: option.splits if_splits prod.splits sum.splits)

text \<open>
  The branches of \<open>CheckPermission\<close> after the deny, ask and read-only checks have let the call
  through: the outcome of the tool's own check decides the rest.
\<close>

definition after_rules ::
    "(gval \<Rightarrow> string option) \<Rightarrow> engine \<Rightarrow> tool \<Rightarrow> gmap \<Rightarrow> (error + decision) \<times> engine" where
  "after_rules marshal e t input =
     (case CheckPermissions t input (Context e) of
        Inl err \<Rightarrow> (Inl err, e)
      | Inr td \<Rightarrow>
          (if td \<noteq> None \<and> DecBehavior (the td) \<noteq> BehaviorPassthrough
           then (if DecBehavior (the td) = BehaviorAsk
                 then resolveAutoPermission marshal e t input
                        ((the td)\<lparr>SuggestedRules := GenerateSuggestions t input\<rparr>)
                 else if DecBehavior (the td) = BehaviorAllow
                 then (Inr (the td), resetAutoDenials e)
                 else (Inr (the td), e))
           else (case checkRules t input (AllowRules (Context e)) BehaviorAllow of
                   Some d \<Rightarrow> (Inr (d\<lparr>UpdatedInput := Some input\<rparr>), resetAutoDenials e)
                 | None \<Rightarrow>
                     if Mode (Context e) = ModeBypass
                     then (Inr (mk_decision BehaviorAllow
                            (''Permission granted for '' @ ToolNameOf t @ '' (bypass mode)'')
                            ''Bypass mode allows all operations''), e)
                     else (let d = defaultDecisionAsk e (ToolNameOf t)
                           in if DecBehavior d = BehaviorAsk
                              then resolveAutoPermission marshal e t input
                                     (d\<lparr>SuggestedRules := GenerateSuggestions t input\<rparr>)
                              else (Inr d, e)))))"

lemma CheckPermission_stages:
  "CheckPermission marshal e (Some t) inp =
     (case checkRules t (input_of inp) (DenyRules (Context e)) BehaviorDeny of
        Some d \<Rightarrow> (Inr d, e)
      | None \<Rightarrow>
     (case checkRules t (input_of inp) (AskRules (Context e)) BehaviorAsk of
        Some d \<Rightarrow> (Inr (d\<lparr>SuggestedRules := GenerateSuggestions t (input_of inp)\<rparr>), e)
      | None \<Rightarrow>
     (case checkReadOnlyFastPath t (input_of inp) of
        Some d \<Rightarrow> (Inr d, resetAutoDenials e)
      | None \<Rightarrow>
     if Mode (Context e) = ModeExplore
     then (Inr (mk_decision BehaviorDeny
            (''Permission denied for '' @ ToolNameOf t @ '' (explore mode is read-only)'')
            ''Explore mode does not allow modifications''), e)
     else after_rules marshal e t (input_of inp))))"
  by (simp only: CheckPermission_def after_rules_def input_of_def Let_def option.case)

lemma defaultDecisionAsk_behavior [simp]:
  "DecBehavior (defaultDecisionAsk e n) =
     (if Mode (Context e) = ModeDontAsk then BehaviorDeny else BehaviorAsk)"
  by (simp add: defaultDecisionAsk_def)

text \<open>What \<open>after_rules\<close> needs to answer allow.\<close>

lemma after_rules_allow:
  assumes "after_rules marshal e t i = (Inr d, e')" and "DecBehavior d = BehaviorAllow"
  shows "verdict (CheckPermissions t i (Context e)) = Some BehaviorAllow
    \<or> (verdict (CheckPermissions t i (Context e)) \<in> {None, Some BehaviorPassthrough}
        \<and> (some_rule t i (AllowRules (Context e)) \<or> Mode (Context e) = ModeBypass))
    \<or> auto_allows marshal e t i"
proof (cases "CheckPermissions t i (Context e)")
  case (Inl err)
  with assms show ?thesis by (simp add: after_rules_def)
next
  case (Inr td)
  show ?thesis
  proof (cases "td \<noteq> None \<and> DecBehavior (the td) \<noteq> BehaviorPassthrough")
    case True
    with Inr assms show ?thesis
      by (auto simp: after_rules_def split: if_splits dest: resolveAutoPermission_allow)
  next
    case False
    then have pass: "verdict (CheckPermissions t i (Context e)) \<in> {None, Some BehaviorPassthrough}"
      using Inr by (cases td) auto
    show ?thesis
    proof (cases "some_rule t i (AllowRules (Context e)) \<or> Mode (Context e) = ModeBypass")
      case True
      with pass show ?thesis by blast
    next
      case False
      then have "checkRules t i (AllowRules (Context e)) BehaviorAllow = None"
        by (simp add: checkRules_None)
      with False Inr \<open>\<not> (td \<noteq> None \<and> _)\<close> assms show ?thesis
        by (auto simp: after_rules_def Let_def split: if_splits dest: resolveAutoPermission_allow)
    qed
  qed
qed

text \<open>When the denial counters move.\<close>

definition denial_recorded :: "engine \<Rightarrow> engine \<Rightarrow> bool" where
  "denial_recorded e e' \<longleftrightarrow>
     TotalDenials (DenialState (Context e')) = TotalDenials (DenialState (Context e)) + 1"

definition denial_answer :: "int \<Rightarrow> int \<Rightarrow> Behavior" where
  "denial_answer c n =
     (if c + 1 \<ge> AutoMaxConsecutiveDenials \<or> n + 1 \<ge> AutoMaxTotalDenials
      then BehaviorAsk else BehaviorDeny)"

definition answer :: "error + decision \<Rightarrow> Behavior option" where
  "answer r = (case r of Inl _ \<Rightarrow> None | Inr d \<Rightarrow> Some (DecBehavior d))"

lemma answer_Inr [simp]: "answer (Inr d) = Some (DecBehavior d)"
  by (simp add: answer_def)

abbreviation denials_in_row :: "engine \<Rightarrow> int" where
  "denials_in_row e \<equiv> ConsecutiveDenials (DenialState (Context e))"

abbreviation denials_total :: "engine \<Rightarrow> int" where
  "denials_total e \<equiv> TotalDenials (DenialState (Context e))"

lemma not_denial_recorded [simp]:
  "\<not> denial_recorded e e" "\<not> denial_recorded e (resetAutoDenials e)"
  by (simp_all add: denial_recorded_def)

lemma resolveAutoClassifierDecision_denial:
  assumes "resolveAutoClassifierDecision e t i ask d = (d', e')"
    and "DecBehavior ask = BehaviorAsk" and "denial_recorded e e'"
  shows "denials_in_row e' = denials_in_row e + 1
    \<and> DecBehavior d' = denial_answer (denials_in_row e) (denials_total e)"
  using assms
  by (cases "DecBehavior d")
     (auto simp: resolveAutoClassifierDecision_def Let_def shouldFallbackToAsk_def
        denial_answer_def split: if_splits)

lemma resolveAutoPermission_denial:
  assumes "resolveAutoPermission marshal e t i ask = (r, e')"
    and "DecBehavior ask = BehaviorAsk" and "denial_recorded e e'"
  shows "denials_in_row e' = denials_in_row e + 1
    \<and> answer r = Some (denial_answer (denials_in_row e) (denials_total e))"
proof -
  obtain r1 e1 where fp: "checkAcceptEditsFastPath e t i = (r1, e1)"
    by (cases "checkAcceptEditsFastPath e t i")
  note fast = checkAcceptEditsFastPath_cases [OF fp]
  from assms fp obtain classify where c: "AutoClassifier e = Some classify"
    and m: "Mode (Context e) = ModeAuto"
    by (auto simp: resolveAutoPermission_def split: option.splits if_splits)
  have r1: "r1 = Inr None"
    using assms c m fp fast
    by (auto simp: resolveAutoPermission_def denial_recorded_def split: sum.splits option.splits)
  with fast have "e1 = e" by simp
  with assms c m fp r1 obtain d0 d' where
    "resolveAutoClassifierDecision e t i ask d0 = (d', e')" "r = Inr d'"
    by (auto simp: resolveAutoPermission_def Let_def split: sum.splits option.splits prod.splits)
  with resolveAutoClassifierDecision_denial assms(2,3) show ?thesis by auto
qed

lemma after_rules_denial:
  assumes "after_rules marshal e t i = (r, e')" and "denial_recorded e e'"
  shows "denials_in_row e' = denials_in_row e + 1
    \<and> answer r = Some (denial_answer (denials_in_row e) (denials_total e))"
  using assms
  by (auto simp: after_rules_def Let_def dest: resolveAutoPermission_denial
      split: sum.splits if_splits option.splits)

lemma CheckPermission_denial:
  assumes "CheckPermission marshal e t inp = (r, e')" and "denial_recorded e e'"
  shows "denials_in_row e' = denials_in_row e + 1
    \<and> answer r = Some (denial_answer (denials_in_row e) (denials_total e))"
proof (cases t)
  case None
  with assms show ?thesis by (simp add: CheckPermission_def)
next
  case (Some t')
  with assms show ?thesis
    by (auto simp: CheckPermission_stages dest: after_rules_denial split: option.splits if_splits)
qed

text \<open>A sequence of calls on one engine.\<close>

fun run_calls ::
    "(gval \<Rightarrow> string option) \<Rightarrow> engine \<Rightarrow> (tool option \<times> gmap option) list
      \<Rightarrow> (error + decision) list \<times> engine" where
  "run_calls marshal e [] = ([], e)"
| "run_calls marshal e ((t, inp) # calls) =
     (let (r, e1) = CheckPermission marshal e t inp;
          (rs, e2) = run_calls marshal e1 calls
      in (r # rs, e2))"

fun all_denied ::
    "(gval \<Rightarrow> string option) \<Rightarrow> engine \<Rightarrow> (tool option \<times> gmap option) list \<Rightarrow> bool" where
  "all_denied marshal e [] = True"
| "all_denied marshal e ((t, inp) # calls) =
     (let e1 = snd (CheckPermission marshal e t inp)
      in denial_recorded e e1 \<and> all_denied marshal e1 calls)"

lemma after_rules_same: "after_rules marshal e t i = (r, e') \<Longrightarrow> same_rules e e'"
  by (auto simp: after_rules_def Let_def dest: resolveAutoPermission_same
      split: sum.splits if_splits option.splits)

lemma CheckPermission_same:
  assumes "CheckPermission marshal e t inp = (r, e')"
  shows "same_rules e e'"
proof (cases t)
  case None
  with assms show ?thesis by (simp add: CheckPermission_def)
next
  case (Some t')
  with assms show ?thesis
    by (auto simp: CheckPermission_stages dest: after_rules_same split: option.splits if_splits)
qed

lemma run_calls_same: "run_calls marshal e calls = (rs, e') \<Longrightarrow> same_rules e e'"
proof (induction calls arbitrary: e rs)
  case Nil
  then show ?case by simp
next
  case (Cons c calls)
  obtain t inp where c: "c = (t, inp)" by (cases c)
  from Cons.prems c obtain r e1 rs' where "CheckPermission marshal e t inp = (r, e1)"
    and "run_calls marshal e1 calls = (rs', e')"
    by (auto simp: Let_def split: prod.splits)
  with Cons.IH CheckPermission_same have "same_rules e e1" "same_rules e1 e'" by blast+
  then show ?case by (auto simp: same_rules_def)
qed

lemma same_rules_sel:
  "same_rules e e' \<Longrightarrow> DenyRules (Context e') = DenyRules (Context e)
    \<and> AskRules (Context e') = AskRules (Context e)
    \<and> AllowRules (Context e') = AllowRules (Context e) \<and> Mode (Context e') = Mode (Context e)"
  by (auto simp: same_rules_def)

text \<open>A clone answers every rule lookup as the original does, and its maps are initialised.\<close>

lemma context_Clone_lookup [simp]:
  "nmap_list (AllowRules (context_Clone c)) k = nmap_list (AllowRules c) k"
  "nmap_list (DenyRules (context_Clone c)) k = nmap_list (DenyRules c) k"
  "nmap_list (AskRules (context_Clone c)) k = nmap_list (AskRules c) k"
  "nmap_get (WorkingDirectories (context_Clone c)) k = nmap_get (WorkingDirectories c) k"
  "DenialState (context_Clone c) = DenialState c"
  by (simp_all add: context_Clone_def ensureMaps_def cloneRuleMap_def init_map_def nmap_list_def)

text \<open>A tool and engines the witnesses run on.\<close>

definition demo_tool :: tool where
  "demo_tool = \<lparr>ToolNameOf = ''Write'', IsReadOnly = False, IsReadOnlyInput = None,
     CheckPermissions = (\<lambda>_ _. Inr None), MatchRule = (\<lambda>content input. content = ''x''),
     GenerateSuggestions = (\<lambda>_. []), ToolDescription = None\<rparr>"

definition demo_engine :: "PermissionMode \<Rightarrow> engine" where
  "demo_engine mode = NewEngine (Some (NewContext mode))
     (Some (\<lambda>_. Inr (Some (mk_decision BehaviorDeny [] [])))) []"

lemmas demo_simps = demo_tool_def demo_engine_def NewEngine_def NewContext_def ensureMaps_def
  init_map_def some_rule_def rule_applies_def input_of_def

section \<open>Properties\<close>

lemma deny_dominates:
  assumes "some_rule t (input_of inp) (DenyRules (Context e))"
  shows "\<exists>d. CheckPermission marshal e (Some t) inp = (Inr d, e) \<and> DecBehavior d = BehaviorDeny"
  using checkRules_Some [OF _ assms, of BehaviorDeny] by (auto simp: CheckPermission_stages)

text \<open>C1: a deny rule that applies decides the call in every mode: the answer is deny, whatever
  the ask and allow rules, the tool's own check, its read-only status or the classifier say, and
  the engine's counters do not change.\<close>

theorem deny_rule_dominates:
  assumes "some_rule t (input_of inp) (DenyRules (Context e))"
  shows "\<exists>d. CheckPermission marshal e (Some t) inp = (Inr d, e) \<and> DecBehavior d = BehaviorDeny"
  using assms by (rule deny_dominates)

theorem deny_rule_dominates_witness:
  "\<exists>e d. some_rule demo_tool (input_of None) (DenyRules (Context e))
    \<and> CheckPermission (\<lambda>_. None) e (Some demo_tool) None = (Inr d, e)
    \<and> DecBehavior d = BehaviorDeny"
proof -
  let ?e = "demo_engine ModeBypass\<lparr>Context := (NewContext ModeBypass)
     \<lparr>DenyRules := Some [''Write'' \<mapsto> [\<lparr>ToolName = ''Write'', RuleContent = [],
        RuleBehavior = BehaviorDeny, RuleSource = []\<rparr>]]\<rparr>\<rparr>"
  have "some_rule demo_tool (input_of None) (DenyRules (Context ?e))"
    by (simp add: demo_simps)
  with deny_rule_dominates [OF this, of "\<lambda>_. None"] show ?thesis by blast
qed

text \<open>C2: every allow answer has a cause the code names: no deny rule and no ask rule applies,
  and the invocation is read-only, or the mode is not explore and the tool's own check allowed it,
  or the tool's check passed and an allow rule applies or the mode is bypass, or the mode is auto
  and either the tool allows the call under accept-edits or the configured classifier allowed it.\<close>

theorem allow_has_cause:
  assumes "CheckPermission marshal e (Some t) inp = (Inr d, e')"
    and "DecBehavior d = BehaviorAllow"
  shows "\<not> some_rule t (input_of inp) (DenyRules (Context e))
    \<and> \<not> some_rule t (input_of inp) (AskRules (Context e))
    \<and> (isReadOnlyInvocation t (input_of inp)
       \<or> Mode (Context e) \<noteq> ModeExplore
         \<and> (verdict (CheckPermissions t (input_of inp) (Context e)) = Some BehaviorAllow
            \<or> verdict (CheckPermissions t (input_of inp) (Context e))
                \<in> {None, Some BehaviorPassthrough}
              \<and> (some_rule t (input_of inp) (AllowRules (Context e))
                 \<or> Mode (Context e) = ModeBypass)
            \<or> auto_allows marshal e t (input_of inp)))"
proof -
  let ?i = "input_of inp"
  have deny: "\<not> some_rule t ?i (DenyRules (Context e))"
    using assms checkRules_Some [of BehaviorDeny t ?i "DenyRules (Context e)"]
    by (fastforce simp: CheckPermission_stages)
  then have dn: "checkRules t ?i (DenyRules (Context e)) BehaviorDeny = None"
    by (simp add: checkRules_None)
  have ask: "\<not> some_rule t ?i (AskRules (Context e))"
    using assms dn checkRules_Some [of BehaviorAsk t ?i "AskRules (Context e)"]
    by (fastforce simp: CheckPermission_stages)
  then have an: "checkRules t ?i (AskRules (Context e)) BehaviorAsk = None"
    by (simp add: checkRules_None)
  show ?thesis
  proof (cases "isReadOnlyInvocation t ?i")
    case True
    with deny ask show ?thesis by simp
  next
    case False
    with dn an assms have "Mode (Context e) \<noteq> ModeExplore"
      and "after_rules marshal e t ?i = (Inr d, e')"
      by (auto simp: CheckPermission_stages checkReadOnlyFastPath_def split: if_splits)
    with after_rules_allow [of marshal e t ?i d e'] assms(2) deny ask show ?thesis by blast
  qed
qed


theorem allow_has_cause_witness:
  "\<exists>e d e'. CheckPermission (\<lambda>_. None) e (Some demo_tool) None = (Inr d, e')
    \<and> DecBehavior d = BehaviorAllow \<and> Mode (Context e) = ModeBypass
    \<and> \<not> some_rule demo_tool (input_of None) (AskRules (Context e))"
proof -
  let ?e = "demo_engine ModeBypass"
  obtain d e' where r: "CheckPermission (\<lambda>_. None) ?e (Some demo_tool) None = (Inr d, e')"
      and b: "DecBehavior d = BehaviorAllow"
    by (simp add: CheckPermission_def checkRules_def checkReadOnlyFastPath_def
        isReadOnlyInvocation_def demo_simps)
  moreover have "Mode (Context ?e) = ModeBypass" by (simp add: demo_simps)
  ultimately show ?thesis using allow_has_cause [OF r b] by blast
qed

text \<open>C19: explore mode never lets a mutating call through: whatever the rules, the tool's own
  check and the classifier answer, an allowed call in explore mode is read-only, and every call
  that is not read-only and meets no ask rule is denied without consulting the tool.\<close>

theorem explore_mode_is_read_only:
  assumes "Mode (Context e) = ModeExplore"
    and "CheckPermission marshal e (Some t) inp = (r, e')"
  shows "(answer r = Some BehaviorAllow \<longrightarrow> isReadOnlyInvocation t (input_of inp))
    \<and> (\<not> isReadOnlyInvocation t (input_of inp)
        \<longrightarrow> \<not> some_rule t (input_of inp) (AskRules (Context e))
        \<longrightarrow> answer r = Some BehaviorDeny \<and> e' = e)"
  using assms
  by (auto simp: CheckPermission_stages checkReadOnlyFastPath_def checkRules_None
      dest: checkRules_behavior checkRules_some_rule split: option.splits if_splits)

theorem explore_mode_is_read_only_witness:
  "\<exists>r e'. CheckPermission (\<lambda>_. None) (demo_engine ModeExplore) (Some demo_tool) None = (r, e')
    \<and> answer r = Some BehaviorDeny"
proof -
  let ?e = "demo_engine ModeExplore"
  have m: "Mode (Context ?e) = ModeExplore" by (simp add: demo_simps)
  obtain r e' where r: "CheckPermission (\<lambda>_. None) ?e (Some demo_tool) None = (r, e')"
    by (cases "CheckPermission (\<lambda>_. None) ?e (Some demo_tool) None")
  have "\<not> isReadOnlyInvocation demo_tool (input_of None)"
    by (simp add: isReadOnlyInvocation_def demo_simps)
  moreover have "\<not> some_rule demo_tool (input_of None) (AskRules (Context ?e))"
    by (simp add: demo_simps)
  ultimately have "answer r = Some BehaviorDeny"
    using explore_mode_is_read_only [OF m r] by blast
  with r show ?thesis by blast
qed

text \<open>C18: in a sequence of calls in which the classifier's denial is recorded each time, the
  answers are deny until the consecutive or the total threshold is reached and ask from then on:
  starting from fresh counters the first two answers are deny and every later one is ask.\<close>

theorem repeated_denials_fall_back_to_ask:
  assumes "all_denied marshal e calls"
  shows "map answer (fst (run_calls marshal e calls))
    = map (\<lambda>k. Some (denial_answer (denials_in_row e + int k) (denials_total e + int k))) [0..<length calls]"
  using assms
proof (induction calls arbitrary: e)
  case Nil
  then show ?case by simp
next
  case (Cons c calls)
  obtain t inp where c: "c = (t, inp)" by (cases c)
  obtain r e1 where step: "CheckPermission marshal e t inp = (r, e1)"
    by (cases "CheckPermission marshal e t inp")
  obtain rs e2 where rest: "run_calls marshal e1 calls = (rs, e2)"
    by (cases "run_calls marshal e1 calls")
  from Cons.prems c step have den: "denial_recorded e e1" and "all_denied marshal e1 calls"
    by (simp_all add: Let_def)
  with Cons.IH rest have "map answer rs
      = map (\<lambda>k. Some (denial_answer (denials_in_row e1 + int k) (denials_total e1 + int k))) [0..<length calls]"
    by fastforce
  also have "\<dots> = map (\<lambda>k. Some (denial_answer (denials_in_row e + int (Suc k)) (denials_total e + int (Suc k))))
      [0..<length calls]"
    using CheckPermission_denial [OF step den] den by (simp add: denial_recorded_def add.assoc)
  finally have tail: "map answer rs = \<dots>" .
  show ?case
    using tail CheckPermission_denial [OF step den]
    by (simp add: c step rest upt_conv_Cons map_Suc_upt [symmetric] o_def del: upt_Suc)
qed

theorem repeated_denials_fall_back_to_ask_witness:
  "map answer (fst (run_calls (\<lambda>_. None) (demo_engine ModeAuto)
      (replicate 4 (Some demo_tool, None))))
    = [Some BehaviorDeny, Some BehaviorDeny, Some BehaviorAsk, Some BehaviorAsk]"
proof -
  have "all_denied (\<lambda>_. None) (demo_engine ModeAuto) (replicate 4 (Some demo_tool, None))"
    by code_simp
  note repeated_denials_fall_back_to_ask [OF this]
  then show ?thesis by (simp add: demo_simps denial_answer_def AutoMaxConsecutiveDenials_def
        AutoMaxTotalDenials_def upt_rec)
qed


text \<open>C27: a deny rule added with \<open>AddRule\<close> is in force for good: the call does not panic (the
  maps are initialised first), and after any further sequence of permission checks on the engine,
  with any tools and inputs, the inputs the rule matches are denied for its tool.\<close>

theorem added_deny_rule_stays_in_force:
  assumes "RuleBehavior r = BehaviorDeny" and "ToolNameOf t = ToolName r"
    and "rule_applies t (input_of inp) r"
  shows "\<exists>e1. AddRule e r = Ret e1
    \<and> (\<exists>d. fst (CheckPermission marshal (snd (run_calls marshal e1 calls)) (Some t) inp) = Inr d
          \<and> DecBehavior d = BehaviorDeny)"
proof -
  define c where "c = ensureMaps (Context e)"
  obtain f where f: "DenyRules c = Some f"
    by (cases "DenyRules (Context e)") (simp_all add: c_def ensureMaps_def init_map_def)
  let ?m = "Some (f(ToolName r \<mapsto> nmap_list (DenyRules c) (ToolName r) @ [r]))"
  let ?e1 = "e\<lparr>Context := c\<lparr>DenyRules := ?m\<rparr>\<rparr>"
  have add: "AddRule e r = Ret ?e1"
    using assms(1) f by (simp add: AddRule_def append_rule_def Let_def c_def [symmetric])
  obtain rs e2 where run: "run_calls marshal ?e1 calls = (rs, e2)"
    by (cases "run_calls marshal ?e1 calls")
  have "DenyRules (Context e2) = ?m"
    using same_rules_sel [OF run_calls_same [OF run]] by simp
  then have "some_rule t (input_of inp) (DenyRules (Context e2))"
    using assms(2,3) by (simp add: some_rule_def)
  from deny_dominates [OF this, of marshal] obtain d
    where "CheckPermission marshal e2 (Some t) inp = (Inr d, e2)" "DecBehavior d = BehaviorDeny"
    by blast
  with run have "\<exists>d. fst (CheckPermission marshal (snd (run_calls marshal ?e1 calls)) (Some t) inp) = Inr d
      \<and> DecBehavior d = BehaviorDeny" by simp
  with add show ?thesis by blast
qed

theorem added_deny_rule_stays_in_force_witness:
  "\<exists>r e1. RuleBehavior r = BehaviorDeny \<and> RuleContent r = ''x''
    \<and> AddRule (demo_engine ModeBypass) r = Ret e1
    \<and> (\<exists>d. fst (CheckPermission (\<lambda>_. None)
               (snd (run_calls (\<lambda>_. None) e1 [(Some demo_tool, None)])) (Some demo_tool) None) = Inr d
          \<and> DecBehavior d = BehaviorDeny)"
proof -
  let ?r = "\<lparr>ToolName = ''Write'', RuleContent = ''x'', RuleBehavior = BehaviorDeny, RuleSource = []\<rparr>"
  have "RuleBehavior ?r = BehaviorDeny" "ToolNameOf demo_tool = ToolName ?r"
    "rule_applies demo_tool (input_of None) ?r"
    by (simp_all add: demo_simps)
  from added_deny_rule_stays_in_force [OF this, of "demo_engine ModeBypass" "\<lambda>_. None"
      "[(Some demo_tool, None)]"]
  obtain e1 where "AddRule (demo_engine ModeBypass) ?r = Ret e1"
    and "\<exists>d. fst (CheckPermission (\<lambda>_. None)
           (snd (run_calls (\<lambda>_. None) e1 [(Some demo_tool, None)])) (Some demo_tool) None) = Inr d
      \<and> DecBehavior d = BehaviorDeny" by blast
  then show ?thesis by (intro exI [of _ ?r] exI [of _ e1]) simp
qed

text \<open>in dont_ask mode the engine's own default never asks: an ask answer there comes from an
  ask rule that applies or from a tool whose own check asked. (Both do ask: the mode turns only
  the default ask into a denial.)\<close>

theorem dont_ask_asks_only_for_rules_and_tools:
  assumes "Mode (Context e) = ModeDontAsk"
    and "CheckPermission marshal e (Some t) inp = (r, e')"
    and "answer r = Some BehaviorAsk"
  shows "some_rule t (input_of inp) (AskRules (Context e))
    \<or> verdict (CheckPermissions t (input_of inp) (Context e)) = Some BehaviorAsk"
  using assms
  by (auto simp: CheckPermission_stages checkReadOnlyFastPath_def after_rules_def Let_def
      resolveAutoPermission_def answer_def
      dest: checkRules_behavior checkRules_some_rule
      split: option.splits if_splits sum.splits)

theorem dont_ask_asks_only_for_rules_and_tools_witness:
  "\<exists>t r e'. CheckPermission (\<lambda>_. None) (demo_engine ModeDontAsk) (Some t) None = (r, e')
    \<and> answer r = Some BehaviorAsk
    \<and> verdict (CheckPermissions t (input_of None) (Context (demo_engine ModeDontAsk)))
        = Some BehaviorAsk"
proof -
  let ?t = "demo_tool\<lparr>CheckPermissions := \<lambda>_ _. Inr (Some (mk_decision BehaviorAsk [] []))\<rparr>"
  let ?e = "demo_engine ModeDontAsk"
  have m: "Mode (Context ?e) = ModeDontAsk" by (simp add: demo_simps)
  obtain r e' where r: "CheckPermission (\<lambda>_. None) ?e (Some ?t) None = (r, e')"
      and a: "answer r = Some BehaviorAsk"
    by (simp add: CheckPermission_stages checkRules_def checkReadOnlyFastPath_def after_rules_def
        isReadOnlyInvocation_def resolveAutoPermission_def demo_simps)
  from dont_ask_asks_only_for_rules_and_tools [OF m r a]
  have "verdict (CheckPermissions ?t (input_of None) (Context ?e)) = Some BehaviorAsk"
    by (simp add: demo_simps)
  with r a show ?thesis by blast
qed

end
