(* ===== verification/Message.thy ===== *)
theory Message
  imports Permission
begin

text \<open>
  Messages and their content blocks: \<open>pkg/message\<close> (\<open>types.go\<close>, \<open>block.go\<close>,
  \<open>message.go\<close>). A content block is a datatype with one constructor per Go struct; its
  constant \<open>Type\<close> field is the constructor. A list element is an option, because a
  \<open>ContentBlockList\<close> may hold nil interfaces; the block lists nested in hints and tool outputs
  are options of lists, because the code tells a nil list from an empty one there. Calling a
  method on a nil interface is a panic.
\<close>

section \<open>Blocks\<close>

datatype data_source =
    Base64Source (base64_data: string) (base64_media: string)
  | URLSource (url_url: string) (url_media: string)

fun SourceType :: "data_source \<Rightarrow> string" where
  "SourceType (Base64Source d m) = ''base64''"
| "SourceType (URLSource u m) = ''url''"

datatype ToolCallState =
    ToolCallPending | ToolCallAsking | ToolCallAllowed | ToolCallSubmitted | ToolCallFinished
  | ToolCallOther string

datatype ToolResultState =
    ToolResultSuccess | ToolResultError | ToolResultInterrupted | ToolResultDenied
  | ToolResultRunning | ToolResultOther string

text \<open>
  Fields, in order: text, id; thinking, id, extra; hint text, hint blocks, id, source; id, name,
  input, state, suggested rules, extra; id, name, raw output, output blocks, state, metadata;
  id, source, name.
\<close>

datatype block =
    TextBlock string string
  | ThinkingBlock string string "gmap option"
  | HintBlock string "block option list option" string "string option"
  | ToolCallBlock string string string ToolCallState "rule list" "gmap option"
  | ToolResultBlock string string string "block option list option" ToolResultState "gmap option"
  | DataBlock string "data_source option" "string option"

type_synonym blocks = "block option list"

fun BlockType :: "block \<Rightarrow> string" where
  "BlockType (TextBlock t i) = ''text''"
| "BlockType (ThinkingBlock t i x) = ''thinking''"
| "BlockType (HintBlock h bs i src) = ''hint''"
| "BlockType (ToolCallBlock i n inp st rs x) = ''tool_call''"
| "BlockType (ToolResultBlock i n raw bs st md) = ''tool_result''"
| "BlockType (DataBlock i src n) = ''data''"

fun BlockID :: "block \<Rightarrow> string" where
  "BlockID (TextBlock t i) = i"
| "BlockID (ThinkingBlock t i x) = i"
| "BlockID (HintBlock h bs i src) = i"
| "BlockID (ToolCallBlock i n inp st rs x) = i"
| "BlockID (ToolResultBlock i n raw bs st md) = i"
| "BlockID (DataBlock i src n) = i"

text \<open>
  The \<open>Clone\<close> methods. \<open>ContentBlockList.Clone\<close> keeps nil elements;
  \<open>ToolResultOutput.Clone\<close> calls \<open>Clone\<close> on every element and panics on a nil one.
\<close>

fun clone_block :: "block \<Rightarrow> block go"
  and clone_list :: "blocks \<Rightarrow> blocks go"
  and clone_output :: "blocks \<Rightarrow> blocks go" where
  "clone_block (TextBlock t i) = Ret (TextBlock t i)"
| "clone_block (ThinkingBlock t i x) = Ret (ThinkingBlock t i (CloneAnyMap x))"
| "clone_block (HintBlock h None i src) = Ret (HintBlock h None i src)"
| "clone_block (HintBlock h (Some bs) i src) =
     go_bind (clone_list bs) (\<lambda>bs'. Ret (HintBlock h (Some bs') i src))"
| "clone_block (ToolCallBlock i n inp st rs x) = Ret (ToolCallBlock i n inp st rs (CloneAnyMap x))"
| "clone_block (ToolResultBlock i n raw None st md) =
     Ret (ToolResultBlock i n raw None st (CloneAnyMap md))"
| "clone_block (ToolResultBlock i n raw (Some bs) st md) =
     go_bind (clone_output bs) (\<lambda>bs'. Ret (ToolResultBlock i n raw (Some bs') st (CloneAnyMap md)))"
| "clone_block (DataBlock i src n) = Ret (DataBlock i src n)"
| "clone_list [] = Ret []"
| "clone_list (None # bs) = go_bind (clone_list bs) (\<lambda>bs'. Ret (None # bs'))"
| "clone_list (Some b # bs) =
     go_bind (clone_block b) (\<lambda>b'. go_bind (clone_list bs) (\<lambda>bs'. Ret (Some b' # bs')))"
| "clone_output [] = Ret []"
| "clone_output (None # bs) = Panic"
| "clone_output (Some b # bs) =
     go_bind (clone_block b) (\<lambda>b'. go_bind (clone_output bs) (\<lambda>bs'. Ret (Some b' # bs')))"

text \<open>\<open>cloneContent\<close> of \<open>message.go\<close> copies like the tool output: a nil element panics.\<close>

definition cloneContent :: "blocks \<Rightarrow> blocks go" where
  "cloneContent bs = clone_output bs"

section \<open>Block lists\<close>

definition block_matches :: "string \<Rightarrow> string \<Rightarrow> block option \<Rightarrow> bool" where
  "block_matches typ i bo =
     (case bo of None \<Rightarrow> False | Some b \<Rightarrow> BlockType b = typ \<and> BlockID b = i)"

definition FindBlock :: "blocks \<Rightarrow> string \<Rightarrow> string \<Rightarrow> block option" where
  "FindBlock bs typ i = (case find (block_matches typ i) bs of None \<Rightarrow> None | Some bo \<Rightarrow> bo)"

fun has_type :: "string list \<Rightarrow> block option \<Rightarrow> bool" where
  "has_type types None = False"
| "has_type types (Some b) = list_ex (\<lambda>typ. BlockType b = typ) types"

definition HasContentBlocks :: "blocks \<Rightarrow> string list \<Rightarrow> bool" where
  "HasContentBlocks bs types =
     (if types = [] then 0 < length bs else list_ex (has_type types) bs)"

definition GetContentBlocks :: "blocks \<Rightarrow> string list \<Rightarrow> blocks" where
  "GetContentBlocks bs types = (if types = [] then bs else filter (has_type types) bs)"

text \<open>\<open>GetTextContent\<close>: the loop with the builder and the \<open>found\<close> flag.\<close>

fun text_loop :: "string \<Rightarrow> blocks \<Rightarrow> string \<Rightarrow> bool \<Rightarrow> string option" where
  "text_loop sep [] builder found = (if found then Some builder else None)"
| "text_loop sep (Some (TextBlock t i) # bs) builder found =
     text_loop sep bs ((if found then builder @ sep else builder) @ t) True"
| "text_loop sep (_ # bs) builder found = text_loop sep bs builder found"

definition GetTextContent :: "blocks \<Rightarrow> string list \<Rightarrow> string option" where
  "GetTextContent bs separator =
     text_loop (case separator of [] \<Rightarrow> [CHR 0x0A] | s # _ \<Rightarrow> s) bs [] False"

section \<open>Constructors\<close>

text \<open>
  Options are functions on the block under construction. The rest of the code calls the
  constructors of text, thinking, tool-call and data blocks without options: \<open>NewTextBlock\<close>,
  \<open>NewThinkingBlock\<close>, \<open>NewToolCallBlock\<close> and \<open>NewDataBlock\<close> are these calls, and the
  \<open>...With\<close> definitions the constructors with their option lists.
\<close>

type_synonym block_option = "block \<Rightarrow> block"

fun WithBlockID :: "string \<Rightarrow> block_option" where
  "WithBlockID j (TextBlock t i) = TextBlock t j"
| "WithBlockID j b = b"

fun WithThinkingBlockID :: "string \<Rightarrow> block_option" where
  "WithThinkingBlockID j (ThinkingBlock t i x) = ThinkingBlock t j x"
| "WithThinkingBlockID j b = b"

fun WithDataBlockID :: "string \<Rightarrow> block_option" where
  "WithDataBlockID j (DataBlock i src n) = DataBlock j src n"
| "WithDataBlockID j b = b"

fun WithDataBlockName :: "string \<Rightarrow> block_option" where
  "WithDataBlockName nm (DataBlock i src n) = DataBlock i src (Some nm)"
| "WithDataBlockName nm b = b"

definition put_extra :: "string \<Rightarrow> gval \<Rightarrow> gmap option \<Rightarrow> gmap option" where
  "put_extra key val x = Some (AList.update key val (case x of None \<Rightarrow> [] | Some m \<Rightarrow> m))"

fun WithExtra :: "string \<Rightarrow> gval \<Rightarrow> block_option" where
  "WithExtra key val (ThinkingBlock t i x) = ThinkingBlock t i (put_extra key val x)"
| "WithExtra key val b = b"

fun WithToolCallState :: "ToolCallState \<Rightarrow> block_option" where
  "WithToolCallState st' (ToolCallBlock i n inp st rs x) = ToolCallBlock i n inp st' rs x"
| "WithToolCallState st' b = b"

fun WithSuggestedRules :: "rule list \<Rightarrow> block_option" where
  "WithSuggestedRules rs' (ToolCallBlock i n inp st rs x) = ToolCallBlock i n inp st rs' x"
| "WithSuggestedRules rs' b = b"

fun WithToolCallExtra :: "string \<Rightarrow> gval \<Rightarrow> block_option" where
  "WithToolCallExtra key val (ToolCallBlock i n inp st rs x) =
     ToolCallBlock i n inp st rs (put_extra key val x)"
| "WithToolCallExtra key val b = b"

definition NewTextBlockWith :: "env \<Rightarrow> string \<Rightarrow> block_option list \<Rightarrow> block \<times> env" where
  "NewTextBlockWith w t opts = (let (i, w') = newID w in (fold (\<lambda>opt b. opt b) opts (TextBlock t i), w'))"

definition NewThinkingBlockWith :: "env \<Rightarrow> string \<Rightarrow> block_option list \<Rightarrow> block \<times> env" where
  "NewThinkingBlockWith w t opts =
     (let (i, w') = newID w in (fold (\<lambda>opt b. opt b) opts (ThinkingBlock t i None), w'))"

definition NewToolCallBlockWith :: "string \<Rightarrow> string \<Rightarrow> string \<Rightarrow> block_option list \<Rightarrow> block" where
  "NewToolCallBlockWith i n inp opts =
     fold (\<lambda>opt b. opt b) opts (ToolCallBlock i n inp ToolCallPending [] None)"

definition NewDataBlockWith :: "env \<Rightarrow> data_source option \<Rightarrow> block_option list \<Rightarrow> block \<times> env" where
  "NewDataBlockWith w src opts =
     (let (i, w') = newID w in (fold (\<lambda>opt b. opt b) opts (DataBlock i src None), w'))"

definition NewTextBlock :: "env \<Rightarrow> string \<Rightarrow> block \<times> env" where
  "NewTextBlock w t = (let (i, w') = newID w in (TextBlock t i, w'))"

definition NewThinkingBlock :: "env \<Rightarrow> string \<Rightarrow> block \<times> env" where
  "NewThinkingBlock w t = (let (i, w') = newID w in (ThinkingBlock t i None, w'))"

text \<open>
  The argument of \<open>NewHintBlock\<close> by the cases of its type switch: nil, a string, a block list
  (of either Go type), one text or data block, or any other value, which is printed.
\<close>

datatype hint_arg =
    HintNil | HintText string | HintList "blocks option" | HintOne block | HintOther gval

definition normalizeHintContent :: "hint_arg \<Rightarrow> (string \<times> blocks option) go" where
  "normalizeHintContent h =
     (case h of
        HintNil \<Rightarrow> Ret ([], None)
      | HintText s \<Rightarrow> Ret (s, None)
      | HintList None \<Rightarrow> Ret ([], None)
      | HintList (Some bs) \<Rightarrow> go_bind (clone_list bs) (\<lambda>bs'. Ret ([], Some bs'))
      | HintOne b \<Rightarrow> go_bind (clone_block b) (\<lambda>b'. Ret ([], Some [Some b']))
      | HintOther v \<Rightarrow> Ret (Sprint v, None))"

text \<open>
  The options are the changes \<open>WithHintBlockID\<close> and \<open>WithHintSource\<close> make; an option that is
  not given is \<open>None\<close>. \<open>newID\<close> is called even when an ID is given.
\<close>

definition NewHintBlock ::
    "env \<Rightarrow> hint_arg \<Rightarrow> string option \<Rightarrow> string option \<Rightarrow> (block \<times> env) go" where
  "NewHintBlock w hint id_opt source_opt =
     go_bind (normalizeHintContent hint) (\<lambda>(t, bs).
       let (i, w') = newID w
       in Ret (HintBlock t bs (case id_opt of None \<Rightarrow> i | Some j \<Rightarrow> j) source_opt, w'))"

definition NewToolCallBlock :: "string \<Rightarrow> string \<Rightarrow> string \<Rightarrow> block" where
  "NewToolCallBlock i n inp = ToolCallBlock i n inp ToolCallPending [] None"

definition NewToolResultBlock ::
    "string \<Rightarrow> string \<Rightarrow> string \<Rightarrow> blocks option \<Rightarrow> ToolResultState list \<Rightarrow> block" where
  "NewToolResultBlock i n raw bs state =
     ToolResultBlock i n raw bs
       (case state of [] \<Rightarrow> ToolResultRunning
        | s # _ \<Rightarrow> if s = ToolResultOther [] then ToolResultRunning else s)
       (Some [])"

definition NewDataBlock :: "env \<Rightarrow> data_source option \<Rightarrow> block \<times> env" where
  "NewDataBlock w src = (let (i, w') = newID w in (DataBlock i src None, w'))"

section \<open>Messages\<close>

datatype Role = RoleUser | RoleAssistant | RoleSystem | RoleOther string

fun role_text :: "Role \<Rightarrow> string" where
  "role_text RoleUser = ''user''"
| "role_text RoleAssistant = ''assistant''"
| "role_text RoleSystem = ''system''"
| "role_text (RoleOther s) = s"

record usage =
  InputTokens :: int
  OutputTokens :: int

record message =
  MsgName :: string
  Content :: blocks
  MsgRole :: Role
  MsgID :: string
  Metadata :: "gmap option"
  CreatedAt :: string
  FinishedAt :: "string option"
  Usage :: "usage option"

type_synonym message_option = "message \<Rightarrow> message"

definition WithMessageID :: "string \<Rightarrow> message_option" where
  "WithMessageID i m = m\<lparr>MsgID := i\<rparr>"

definition WithMessageMetadata :: "gmap option \<Rightarrow> message_option" where
  "WithMessageMetadata md m = m\<lparr>Metadata := CloneAnyMap md\<rparr>"

definition WithMessageCreatedAt :: "string \<Rightarrow> message_option" where
  "WithMessageCreatedAt t m = m\<lparr>CreatedAt := t\<rparr>"

definition WithMessageFinishedAt :: "string \<Rightarrow> message_option" where
  "WithMessageFinishedAt t m = m\<lparr>FinishedAt := Some t\<rparr>"

definition WithMessageUsage :: "usage \<Rightarrow> message_option" where
  "WithMessageUsage u m = m\<lparr>Usage := Some u\<rparr>"

text \<open>
  \<open>Validate\<close>: the block types a role may carry. The loops call \<open>BlockType\<close> on every element
  of a user or system message, so a nil element panics there and not in an assistant message.
\<close>

fun validate_blocks :: "string list \<Rightarrow> string \<Rightarrow> blocks \<Rightarrow> error option go" where
  "validate_blocks types msg [] = Ret None"
| "validate_blocks types msg (None # bs) = Panic"
| "validate_blocks types msg (Some b # bs) =
     (if BlockType b \<in> set types then validate_blocks types msg bs
      else Ret (Some (Err (msg @ BlockType b))))"

definition Validate :: "message \<Rightarrow> error option go" where
  "Validate m =
     (case MsgRole m of
        RoleUser \<Rightarrow> validate_blocks [''text'', ''data'']
          ''message: user message can only contain text or data blocks, got '' (Content m)
      | RoleSystem \<Rightarrow> validate_blocks [''text'']
          ''message: system message can only contain text blocks, got '' (Content m)
      | RoleAssistant \<Rightarrow> Ret None
      | RoleOther r \<Rightarrow> Ret (Some (Err (''message: unsupported role '' @ go_quote r))))"

definition NewMessage ::
    "env \<Rightarrow> string \<Rightarrow> Role \<Rightarrow> blocks \<Rightarrow> message_option list \<Rightarrow> ((error + message) \<times> env) go" where
  "NewMessage w name role content opts =
     go_bind (cloneContent content) (\<lambda>content'.
       let (i, w1) = newID w; (t, w2) = nowISO w1;
           m0 = \<lparr>MsgName = name, Content = content', MsgRole = role, MsgID = i,
                 Metadata = Some [], CreatedAt = t, FinishedAt = None, Usage = None\<rparr>;
           m1 = fold (\<lambda>opt m. opt m) opts m0;
           (m2, w3) = (if MsgID m1 = [] then let (j, w') = newID w2 in (m1\<lparr>MsgID := j\<rparr>, w')
                       else (m1, w2));
           (m3, w4) = (if CreatedAt m2 = [] then let (u, w') = nowISO w3 in (m2\<lparr>CreatedAt := u\<rparr>, w')
                       else (m2, w3));
           m4 = (case Metadata m3 of None \<Rightarrow> m3\<lparr>Metadata := Some []\<rparr> | Some _ \<Rightarrow> m3)
       in go_bind (Validate m4) (\<lambda>err.
            case err of Some e \<Rightarrow> Ret (Inl e, w4) | None \<Rightarrow> Ret (Inr m4, w4)))"

text \<open>The \<open>any\<close> argument of the role constructors, by the cases of \<open>toBlocks\<close>.\<close>

datatype content_arg =
    ContentNil | ContentText string | ContentBlocks blocks | ContentOther gval

definition toBlocks :: "env \<Rightarrow> content_arg \<Rightarrow> (error + blocks) \<times> env" where
  "toBlocks w c =
     (case c of
        ContentNil \<Rightarrow> (Inr [], w)
      | ContentText s \<Rightarrow> (let (b, w') = NewTextBlock w s in (Inr [Some b], w'))
      | ContentBlocks bs \<Rightarrow> (Inr bs, w)
      | ContentOther v \<Rightarrow> (Inl (Err ''message: unsupported content type''), w))"

definition role_message ::
    "Role \<Rightarrow> env \<Rightarrow> string \<Rightarrow> content_arg \<Rightarrow> message_option list \<Rightarrow> ((error + message) \<times> env) go" where
  "role_message role w name content opts =
     (case toBlocks w content of
        (Inl e, w') \<Rightarrow> Ret (Inl e, w')
      | (Inr bs, w') \<Rightarrow> NewMessage w' name role bs opts)"

definition finish_now :: "error + message \<Rightarrow> error + message" where
  "finish_now r =
     (case r of Inl e \<Rightarrow> Inl e
      | Inr m \<Rightarrow> Inr (if FinishedAt m = None then m\<lparr>FinishedAt := Some (CreatedAt m)\<rparr> else m))"

definition NewUserMessage ::
    "env \<Rightarrow> string \<Rightarrow> content_arg \<Rightarrow> message_option list \<Rightarrow> ((error + message) \<times> env) go" where
  "NewUserMessage w name content opts =
     go_bind (role_message RoleUser w name content opts) (\<lambda>(r, w'). Ret (finish_now r, w'))"

definition NewAssistantMessage ::
    "env \<Rightarrow> string \<Rightarrow> content_arg \<Rightarrow> message_option list \<Rightarrow> ((error + message) \<times> env) go" where
  "NewAssistantMessage w name content opts = role_message RoleAssistant w name content opts"

definition NewSystemMessage ::
    "env \<Rightarrow> string \<Rightarrow> content_arg \<Rightarrow> message_option list \<Rightarrow> ((error + message) \<times> env) go" where
  "NewSystemMessage w name content opts =
     go_bind (role_message RoleSystem w name content opts) (\<lambda>(r, w'). Ret (finish_now r, w'))"

definition message_Clone :: "message \<Rightarrow> message go" where
  "message_Clone m =
     go_bind (cloneContent (Content m)) (\<lambda>bs.
       Ret (m\<lparr>Metadata := CloneAnyMap (Metadata m), Content := bs\<rparr>))"


section \<open>Lemmas\<close>

text \<open>A copy that does not panic equals the original.\<close>

lemma clone_identity:
  "clone_block b = Ret b' \<Longrightarrow> b' = b"
  "clone_list bs = Ret bs' \<Longrightarrow> bs' = bs"
  "clone_output bs = Ret bs' \<Longrightarrow> bs' = bs"
  by (induction b and bs and bs arbitrary: b' and bs' and bs'
        rule: clone_block_clone_list_clone_output.induct)
     (fastforce simp: go_bind_eq_Ret)+

definition copyable :: "block \<Rightarrow> bool" where
  "copyable b \<longleftrightarrow> clone_block b \<noteq> Panic"

lemma copyable_clone: "copyable b \<Longrightarrow> clone_block b = Ret b"
  by (cases "clone_block b") (simp_all add: copyable_def clone_identity)

lemma clone_output_Ret_iff:
  "clone_output bs = Ret bs' \<longleftrightarrow> bs' = bs \<and> list_all (\<lambda>bo. \<exists>b. bo = Some b \<and> copyable b) bs"
proof (induction bs arbitrary: bs')
  case Nil
  then show ?case by auto
next
  case (Cons bo bs)
  show ?case
  proof (cases bo)
    case None
    then show ?thesis by simp
  next
    case (Some b)
    show ?thesis
    proof (cases "clone_block b")
      case Panic
      with Some show ?thesis by (simp add: copyable_def)
    next
      case (Ret b')
      with clone_identity(1) have "b' = b" by blast
      with Ret Some Cons.IH show ?thesis by (auto simp: go_bind_eq_Ret copyable_def)
    qed
  qed
qed

lemma FindBlock_Some:
  "FindBlock bs typ i = Some b \<Longrightarrow> Some b \<in> set bs \<and> BlockType b = typ \<and> BlockID b = i"
  by (auto simp: FindBlock_def block_matches_def split: option.splits dest!: find_SomeD)

lemma FindBlock_None:
  "FindBlock bs typ i = None \<longleftrightarrow> find (block_matches typ i) bs = None"
  by (auto simp: FindBlock_def block_matches_def split: option.splits dest!: find_SomeD)

lemma HasContentBlocks_iff:
  "HasContentBlocks bs types \<longleftrightarrow> GetContentBlocks bs types \<noteq> []"
  by (auto simp: HasContentBlocks_def GetContentBlocks_def filter_empty_conv list_ex_iff)

text \<open>The texts of the text blocks, in order; \<open>GetTextContent\<close> joins them.\<close>

fun texts :: "blocks \<Rightarrow> string list" where
  "texts [] = []"
| "texts (Some (TextBlock t i) # bs) = t # texts bs"
| "texts (_ # bs) = texts bs"

lemma strings_Join_Cons: "strings_Join (x # xs) sep = (if xs = [] then x else x @ sep @ strings_Join xs sep)"
  by (cases xs) simp_all

lemma text_loop_texts:
  "text_loop sep bs acc found =
     (if found then Some (if texts bs = [] then acc else acc @ sep @ strings_Join (texts bs) sep)
      else if texts bs = [] then None else Some (acc @ strings_Join (texts bs) sep))"
  by (induction sep bs acc found rule: text_loop.induct) (auto simp: strings_Join_Cons)

lemma validate_blocks_None:
  "validate_blocks types msg bs = Ret None \<longleftrightarrow>
     list_all (\<lambda>bo. \<exists>b. bo = Some b \<and> BlockType b \<in> set types) bs"
  by (induction types msg bs rule: validate_blocks.induct) auto

text \<open>The roles' block discipline, as a predicate on messages.\<close>

definition role_blocks_ok :: "message \<Rightarrow> bool" where
  "role_blocks_ok m =
     (case MsgRole m of
        RoleUser \<Rightarrow> list_all (\<lambda>bo. \<exists>b. bo = Some b \<and> BlockType b \<in> {''text'', ''data''}) (Content m)
      | RoleSystem \<Rightarrow> list_all (\<lambda>bo. \<exists>b. bo = Some b \<and> BlockType b = ''text'') (Content m)
      | RoleAssistant \<Rightarrow> True
      | RoleOther r \<Rightarrow> False)"

lemma Validate_None: "Validate m = Ret None \<longleftrightarrow> role_blocks_ok m"
  by (cases "MsgRole m") (simp_all add: Validate_def role_blocks_ok_def validate_blocks_None)

lemma NewMessage_ok:
  assumes "NewMessage w name role content opts = Ret (Inr m, w')"
  shows "role_blocks_ok m" and "Metadata m \<noteq> None"
  using assms
  by (auto simp: NewMessage_def go_bind_eq_Ret Let_def newID_def nowISO_def Validate_None [symmetric]
      split: if_splits option.splits prod.splits)

lemma finish_now_Inr:
  "finish_now r = Inr m \<longleftrightarrow>
     (\<exists>x. r = Inr x \<and> m = (if FinishedAt x = None then x\<lparr>FinishedAt := Some (CreatedAt x)\<rparr> else x))"
  by (cases r) (auto simp: finish_now_def)

lemma role_blocks_ok_finish:
  "role_blocks_ok (x\<lparr>FinishedAt := t\<rparr>) = role_blocks_ok x"
  by (simp add: role_blocks_ok_def split: Role.split)

lemma role_message_ok:
  "role_message role w name c opts = Ret (Inr m, w') \<Longrightarrow> role_blocks_ok m \<and> Metadata m \<noteq> None"
  by (auto simp: role_message_def split: prod.splits sum.splits dest: NewMessage_ok)

section \<open>Properties\<close>

text \<open>every message a constructor returns is valid for its role (user messages hold text and
  data blocks only, system messages text only), has metadata, and user and system messages are
  finished.\<close>

theorem constructed_messages_are_valid:
  assumes "NewUserMessage w name c opts = Ret (Inr m, w')
    \<or> NewSystemMessage w name c opts = Ret (Inr m, w')
    \<or> NewAssistantMessage w name c opts = Ret (Inr m, w')"
  shows "role_blocks_ok m \<and> Metadata m \<noteq> None
    \<and> (NewAssistantMessage w name c opts = Ret (Inr m, w') \<or> FinishedAt m \<noteq> None)"
proof -
  have closed: "role_blocks_ok m \<and> Metadata m \<noteq> None \<and> FinishedAt m \<noteq> None"
    if "go_bind (role_message r w name c opts) (\<lambda>(x, v). Ret (finish_now x, v)) = Ret (Inr m, w')" for r
    using that
  proof -
    from that obtain x where x: "role_message r w name c opts = Ret (Inr x, w')"
      and m: "m = (if FinishedAt x = None then x\<lparr>FinishedAt := Some (CreatedAt x)\<rparr> else x)"
      by (auto simp: go_bind_eq_Ret finish_now_Inr)
    from role_message_ok [OF x] m show ?thesis
      by (cases "FinishedAt x") (auto simp: role_blocks_ok_finish)
  qed
  show ?thesis
    using assms closed role_message_ok
    unfolding NewUserMessage_def NewSystemMessage_def NewAssistantMessage_def by blast
qed

definition demo_env :: env where
  "demo_env = \<lparr>IdAt = (\<lambda>n. ''id'' @ nat_text n), IdPos = 0, TimeAt = nat_text, TimePos = 0\<rparr>"

theorem constructed_messages_are_valid_witness:
  "\<exists>m w'. NewUserMessage demo_env ''user'' (ContentText ''hi'') [] = Ret (Inr m, w')
    \<and> role_blocks_ok m"
proof -
  obtain m w' where r: "NewUserMessage demo_env ''user'' (ContentText ''hi'') [] = Ret (Inr m, w')"
    by (simp add: NewUserMessage_def role_message_def toBlocks_def NewTextBlock_def newID_def
        nowISO_def demo_env_def NewMessage_def cloneContent_def Validate_def finish_now_def)
  with constructed_messages_are_valid [of demo_env "''user''" "ContentText ''hi''" "[]" m w']
  show ?thesis by blast
qed

text \<open>the text of a block list is the texts of its text blocks, in order, joined by the
  separator (newline when none is given), and there is none exactly when the list has no text
  block.\<close>

theorem text_content_joins_texts:
  "GetTextContent bs separator =
     (if texts bs = [] then None
      else Some (strings_Join (texts bs) (case separator of [] \<Rightarrow> [CHR 0x0A] | s # _ \<Rightarrow> s)))
   \<and> (texts bs \<noteq> []) = HasContentBlocks bs [''text'']"
proof -
  have "(texts bs \<noteq> []) = list_ex (has_type [''text'']) bs"
    by (induction bs rule: texts.induct) auto
  then show ?thesis by (auto simp: GetTextContent_def text_loop_texts HasContentBlocks_def)
qed

end
