(* ===== verification/Message_Events.thy ===== *)
theory Message_Events
  imports Message
begin

text \<open>
  Streaming events and their accumulation into a message: \<open>pkg/message/event.go\<close> and
  \<open>event_apply.go\<close>. An event is a record of the base fields and a body with one constructor per
  Go event struct (the \<open>Type\<close> field each constructor function sets is a function of it). The
  five \<open>apply...Event\<close> groups return whether they handled the event, as the code does.

  The lemmas describe one application by what it does to each block: the identities of the
  blocks, the block found under a type and an identifier, the token usage, and when the code
  panics. The properties lift these to whole event streams.
\<close>

section \<open>Events\<close>

text \<open>
  Events carry \<open>*ToolCallBlock\<close> and \<open>*ToolResultBlock\<close> pointers: the structs as records, and the
  blocks they are.
\<close>

record tool_call =
  CallID :: string
  CallName :: string
  CallInput :: string
  CallState :: ToolCallState
  CallRules :: "rule list"
  CallExtra :: "gmap option"

definition call_block :: "tool_call \<Rightarrow> block" where
  "call_block c =
     ToolCallBlock (CallID c) (CallName c) (CallInput c) (CallState c) (CallRules c) (CallExtra c)"

record tool_result =
  ResultID :: string
  ResultName :: string
  ResultRaw :: string
  ResultBlocks :: "blocks option"
  ResultState :: ToolResultState
  ResultMetadata :: "gmap option"

definition result_block :: "tool_result \<Rightarrow> block" where
  "result_block r =
     ToolResultBlock (ResultID r) (ResultName r) (ResultRaw r) (ResultBlocks r) (ResultState r)
       (ResultMetadata r)"

record confirm_result =
  Confirmed :: bool
  ConfirmToolCall :: "tool_call option"
  ConfirmRules :: "rule list"

text \<open>
  The fields of each body are those of the Go struct, in its order. Elements of \<open>ToolCalls\<close> and
  \<open>ExecutionResults\<close> may be nil.
\<close>

datatype event_body =
    ReplyStart string string Role
  | ReplyEnd string
  | ModelCallStart string
  | ModelCallEnd int int
  | TextBlockStart string
  | TextBlockDelta string string
  | TextBlockEnd string
  | DataBlockStart string string
  | DataBlockDelta string string string
  | DataBlockEnd string
  | ThinkingBlockStart string
  | ThinkingBlockDelta string string
  | ThinkingBlockEnd string
  | HintBlockEvent string "string option" string "blocks option"
  | ToolCallStart string string
  | ToolCallDelta string string
  | ToolCallEnd string
  | ToolResultStart string string
  | ToolResultTextDelta string string
  | ToolResultDataDelta string string string string string
  | ToolResultEnd string ToolResultState "gmap option"
  | ExceedMaxIters string
  | RequireUserConfirm "tool_call option list"
  | RequireExternalExecution "tool_call option list"
  | UserConfirmResult "confirm_result list"
  | ExternalExecutionResult "tool_result option list"
  | CustomEvent string "gmap option"

record event =
  EventID :: string
  EvCreatedAt :: string
  EvMetadata :: "gmap option"
  ReplyIDValue :: string
  Body :: event_body

fun GetType :: "event_body \<Rightarrow> string" where
  "GetType (ReplyStart s n r) = ''REPLY_START''"
| "GetType (ReplyEnd s) = ''REPLY_END''"
| "GetType (ModelCallStart n) = ''MODEL_CALL_START''"
| "GetType (ModelCallEnd i out) = ''MODEL_CALL_END''"
| "GetType (TextBlockStart b) = ''TEXT_BLOCK_START''"
| "GetType (TextBlockDelta b d) = ''TEXT_BLOCK_DELTA''"
| "GetType (TextBlockEnd b) = ''TEXT_BLOCK_END''"
| "GetType (DataBlockStart b t) = ''DATA_BLOCK_START''"
| "GetType (DataBlockDelta b d t) = ''DATA_BLOCK_DELTA''"
| "GetType (DataBlockEnd b) = ''DATA_BLOCK_END''"
| "GetType (ThinkingBlockStart b) = ''THINKING_BLOCK_START''"
| "GetType (ThinkingBlockDelta b d) = ''THINKING_BLOCK_DELTA''"
| "GetType (ThinkingBlockEnd b) = ''THINKING_BLOCK_END''"
| "GetType (HintBlockEvent b src h bs) = ''HINT_BLOCK''"
| "GetType (ToolCallStart i n) = ''TOOL_CALL_START''"
| "GetType (ToolCallDelta i d) = ''TOOL_CALL_DELTA''"
| "GetType (ToolCallEnd i) = ''TOOL_CALL_END''"
| "GetType (ToolResultStart i n) = ''TOOL_RESULT_START''"
| "GetType (ToolResultTextDelta i d) = ''TOOL_RESULT_TEXT_DELTA''"
| "GetType (ToolResultDataDelta i b t d u) = ''TOOL_RESULT_DATA_DELTA''"
| "GetType (ToolResultEnd i s md) = ''TOOL_RESULT_END''"
| "GetType (ExceedMaxIters n) = ''EXCEED_MAX_ITERS''"
| "GetType (RequireUserConfirm cs) = ''REQUIRE_USER_CONFIRM''"
| "GetType (RequireExternalExecution cs) = ''REQUIRE_EXTERNAL_EXECUTION''"
| "GetType (UserConfirmResult rs) = ''USER_CONFIRM_RESULT''"
| "GetType (ExternalExecutionResult rs) = ''EXTERNAL_EXECUTION_RESULT''"
| "GetType (CustomEvent n v) = ''CUSTOM''"

text \<open>\<open>ReplyID()\<close>: a custom event belongs to no reply.\<close>

definition ReplyID :: "event \<Rightarrow> string" where
  "ReplyID e = (case Body e of CustomEvent n v \<Rightarrow> [] | _ \<Rightarrow> ReplyIDValue e)"

text \<open>
  The constructor functions. \<open>newReplyEventBase\<close> draws the identifier and then the time. The
  options of the last three constructors are the values they set, \<open>None\<close> when not given.
\<close>

definition newReplyEventBase :: "env \<Rightarrow> string \<Rightarrow> event_body \<Rightarrow> event \<times> env" where
  "newReplyEventBase w replyID body =
     (let (i, w1) = newID w; (t, w2) = nowISO w1
      in (\<lparr>EventID = i, EvCreatedAt = t, EvMetadata = Some [], ReplyIDValue = replyID, Body = body\<rparr>, w2))"

definition NewReplyStartEvent :: "env \<Rightarrow> string \<Rightarrow> string \<Rightarrow> string \<Rightarrow> event \<times> env" where
  "NewReplyStartEvent w sessionID replyID name =
     newReplyEventBase w replyID (ReplyStart sessionID name RoleAssistant)"

definition NewReplyEndEvent :: "env \<Rightarrow> string \<Rightarrow> string \<Rightarrow> event \<times> env" where
  "NewReplyEndEvent w sessionID replyID =
     newReplyEventBase w replyID (ReplyEnd sessionID)"

definition NewModelCallStartEvent :: "env \<Rightarrow> string \<Rightarrow> string \<Rightarrow> event \<times> env" where
  "NewModelCallStartEvent w replyID modelName =
     newReplyEventBase w replyID (ModelCallStart modelName)"

definition NewModelCallEndEvent :: "env \<Rightarrow> string \<Rightarrow> int \<Rightarrow> int \<Rightarrow> event \<times> env" where
  "NewModelCallEndEvent w replyID inputTokens outputTokens =
     newReplyEventBase w replyID (ModelCallEnd inputTokens outputTokens)"

definition NewTextBlockStartEvent :: "env \<Rightarrow> string \<Rightarrow> string \<Rightarrow> event \<times> env" where
  "NewTextBlockStartEvent w replyID blockID =
     newReplyEventBase w replyID (TextBlockStart blockID)"

definition NewTextBlockDeltaEvent :: "env \<Rightarrow> string \<Rightarrow> string \<Rightarrow> string \<Rightarrow> event \<times> env" where
  "NewTextBlockDeltaEvent w replyID blockID delta =
     newReplyEventBase w replyID (TextBlockDelta blockID delta)"

definition NewTextBlockEndEvent :: "env \<Rightarrow> string \<Rightarrow> string \<Rightarrow> event \<times> env" where
  "NewTextBlockEndEvent w replyID blockID =
     newReplyEventBase w replyID (TextBlockEnd blockID)"

definition NewDataBlockStartEvent :: "env \<Rightarrow> string \<Rightarrow> string \<Rightarrow> string \<Rightarrow> event \<times> env" where
  "NewDataBlockStartEvent w replyID blockID mediaType =
     newReplyEventBase w replyID (DataBlockStart blockID mediaType)"

definition NewDataBlockDeltaEvent :: "env \<Rightarrow> string \<Rightarrow> string \<Rightarrow> string \<Rightarrow> string \<Rightarrow> event \<times> env" where
  "NewDataBlockDeltaEvent w replyID blockID data mediaType =
     newReplyEventBase w replyID (DataBlockDelta blockID data mediaType)"

definition NewDataBlockEndEvent :: "env \<Rightarrow> string \<Rightarrow> string \<Rightarrow> event \<times> env" where
  "NewDataBlockEndEvent w replyID blockID =
     newReplyEventBase w replyID (DataBlockEnd blockID)"

definition NewThinkingBlockStartEvent :: "env \<Rightarrow> string \<Rightarrow> string \<Rightarrow> event \<times> env" where
  "NewThinkingBlockStartEvent w replyID blockID =
     newReplyEventBase w replyID (ThinkingBlockStart blockID)"

definition NewThinkingBlockDeltaEvent :: "env \<Rightarrow> string \<Rightarrow> string \<Rightarrow> string \<Rightarrow> event \<times> env" where
  "NewThinkingBlockDeltaEvent w replyID blockID delta =
     newReplyEventBase w replyID (ThinkingBlockDelta blockID delta)"

definition NewThinkingBlockEndEvent :: "env \<Rightarrow> string \<Rightarrow> string \<Rightarrow> event \<times> env" where
  "NewThinkingBlockEndEvent w replyID blockID =
     newReplyEventBase w replyID (ThinkingBlockEnd blockID)"

definition NewToolCallStartEvent :: "env \<Rightarrow> string \<Rightarrow> string \<Rightarrow> string \<Rightarrow> event \<times> env" where
  "NewToolCallStartEvent w replyID toolCallID toolCallName =
     newReplyEventBase w replyID (ToolCallStart toolCallID toolCallName)"

definition NewToolCallDeltaEvent :: "env \<Rightarrow> string \<Rightarrow> string \<Rightarrow> string \<Rightarrow> event \<times> env" where
  "NewToolCallDeltaEvent w replyID toolCallID delta =
     newReplyEventBase w replyID (ToolCallDelta toolCallID delta)"

definition NewToolCallEndEvent :: "env \<Rightarrow> string \<Rightarrow> string \<Rightarrow> event \<times> env" where
  "NewToolCallEndEvent w replyID toolCallID =
     newReplyEventBase w replyID (ToolCallEnd toolCallID)"

definition NewToolResultStartEvent :: "env \<Rightarrow> string \<Rightarrow> string \<Rightarrow> string \<Rightarrow> event \<times> env" where
  "NewToolResultStartEvent w replyID toolCallID toolCallName =
     newReplyEventBase w replyID (ToolResultStart toolCallID toolCallName)"

definition NewToolResultTextDeltaEvent :: "env \<Rightarrow> string \<Rightarrow> string \<Rightarrow> string \<Rightarrow> event \<times> env" where
  "NewToolResultTextDeltaEvent w replyID toolCallID delta =
     newReplyEventBase w replyID (ToolResultTextDelta toolCallID delta)"

definition NewToolResultDataDeltaEvent :: "env \<Rightarrow> string \<Rightarrow> string \<Rightarrow> string \<Rightarrow> string \<Rightarrow> string \<Rightarrow> string \<Rightarrow> event \<times> env" where
  "NewToolResultDataDeltaEvent w replyID toolCallID blockID mediaType data url =
     newReplyEventBase w replyID (ToolResultDataDelta toolCallID blockID mediaType data url)"

definition NewExceedMaxItersEvent :: "env \<Rightarrow> string \<Rightarrow> string \<Rightarrow> event \<times> env" where
  "NewExceedMaxItersEvent w replyID name =
     newReplyEventBase w replyID (ExceedMaxIters name)"

definition NewRequireUserConfirmEvent :: "env \<Rightarrow> string \<Rightarrow> tool_call option list \<Rightarrow> event \<times> env" where
  "NewRequireUserConfirmEvent w replyID toolCalls =
     newReplyEventBase w replyID (RequireUserConfirm toolCalls)"

definition NewRequireExternalExecutionEvent :: "env \<Rightarrow> string \<Rightarrow> tool_call option list \<Rightarrow> event \<times> env" where
  "NewRequireExternalExecutionEvent w replyID toolCalls =
     newReplyEventBase w replyID (RequireExternalExecution toolCalls)"

definition NewUserConfirmResultEvent :: "env \<Rightarrow> string \<Rightarrow> confirm_result list \<Rightarrow> event \<times> env" where
  "NewUserConfirmResultEvent w replyID results =
     newReplyEventBase w replyID (UserConfirmResult results)"

definition NewExternalExecutionResultEvent :: "env \<Rightarrow> string \<Rightarrow> tool_result option list \<Rightarrow> event \<times> env" where
  "NewExternalExecutionResultEvent w replyID results =
     newReplyEventBase w replyID (ExternalExecutionResult results)"

definition NewHintBlockEvent ::
    "env \<Rightarrow> string \<Rightarrow> string \<Rightarrow> hint_arg \<Rightarrow> string option \<Rightarrow> (event \<times> env) go" where
  "NewHintBlockEvent w replyID blockID hint source_opt =
     go_bind (normalizeHintContent hint) (\<lambda>(t, bs).
       Ret (newReplyEventBase w replyID (HintBlockEvent blockID source_opt t bs)))"

definition NewToolResultEndEvent ::
    "env \<Rightarrow> string \<Rightarrow> string \<Rightarrow> ToolResultState \<Rightarrow> gmap option option \<Rightarrow> event \<times> env" where
  "NewToolResultEndEvent w replyID toolCallID state metadata_opt =
     newReplyEventBase w replyID (ToolResultEnd toolCallID state
       (case metadata_opt of
          None \<Rightarrow> Some []
        | Some md \<Rightarrow> (case CloneAnyMap md of None \<Rightarrow> Some [] | Some kvs \<Rightarrow> Some kvs)))"

definition NewCustomEvent :: "env \<Rightarrow> string \<Rightarrow> gmap option \<Rightarrow> event \<times> env" where
  "NewCustomEvent w name val =
     newReplyEventBase w []
       (CustomEvent name (CloneAnyMap (case val of None \<Rightarrow> Some [] | Some kvs \<Rightarrow> Some kvs)))"

section \<open>Applying an event\<close>

text \<open>Writing through the pointer \<open>FindBlock\<close> returned: the first block of that type and ID.\<close>

definition edit_block :: "string \<Rightarrow> string \<Rightarrow> (block \<Rightarrow> block) \<Rightarrow> message \<Rightarrow> message" where
  "edit_block typ i f m = m\<lparr>Content := update_first (block_matches typ i) (map_option f) (Content m)\<rparr>"

definition append_block :: "block \<Rightarrow> message \<Rightarrow> message" where
  "append_block b m = m\<lparr>Content := Content m @ [Some b]\<rparr>"

fun add_text :: "string \<Rightarrow> block \<Rightarrow> block" where
  "add_text delta (TextBlock t i) = TextBlock (t @ delta) i"
| "add_text delta b = b"

fun add_thinking :: "string \<Rightarrow> block \<Rightarrow> block" where
  "add_thinking delta (ThinkingBlock t i x) = ThinkingBlock (t @ delta) i x"
| "add_thinking delta b = b"

fun add_data :: "string \<Rightarrow> block \<Rightarrow> block" where
  "add_data d (DataBlock i (Some (Base64Source bytes mt)) n) =
     DataBlock i (Some (Base64Source (bytes @ d) mt)) n"
| "add_data d b = b"

fun add_input :: "string \<Rightarrow> block \<Rightarrow> block" where
  "add_input delta (ToolCallBlock i n inp st rs x) = ToolCallBlock i n (inp @ delta) st rs x"
| "add_input delta b = b"

fun set_call_state :: "ToolCallState \<Rightarrow> block \<Rightarrow> block" where
  "set_call_state st' (ToolCallBlock i n inp st rs x) = ToolCallBlock i n inp st' rs x"
| "set_call_state st' b = b"

fun ask_call :: "rule list \<Rightarrow> block \<Rightarrow> block" where
  "ask_call rs' (ToolCallBlock i n inp st rs x) = ToolCallBlock i n inp ToolCallAsking rs' x"
| "ask_call rs' b = b"

definition applyLifecycleEvent :: "message \<Rightarrow> event \<Rightarrow> bool \<times> message" where
  "applyLifecycleEvent m e =
     (case Body e of
        ReplyEnd s \<Rightarrow> (True, m\<lparr>FinishedAt := Some (EvCreatedAt e)\<rparr>)
      | ModelCallEnd i out \<Rightarrow>
          (True, m\<lparr>Usage := Some (case Usage m of
             None \<Rightarrow> \<lparr>InputTokens = i, OutputTokens = out\<rparr>
           | Some u \<Rightarrow> \<lparr>InputTokens = wrap64 (InputTokens u + i),
                        OutputTokens = wrap64 (OutputTokens u + out)\<rparr>)\<rparr>)
      | ReplyStart s n r \<Rightarrow> (True, m)
      | ModelCallStart n \<Rightarrow> (True, m)
      | ExceedMaxIters n \<Rightarrow> (True, m)
      | _ \<Rightarrow> (False, m))"

definition hintBlockFromEvent ::
    "env \<Rightarrow> string \<Rightarrow> string option \<Rightarrow> string \<Rightarrow> blocks option \<Rightarrow> (block \<times> env) go" where
  "hintBlockFromEvent w blockID source hint bs =
     go_bind (NewHintBlock w (case bs of Some bs' \<Rightarrow> HintList (Some bs') | None \<Rightarrow> HintText hint)
                (Some blockID) None)
       (\<lambda>(b, w'). Ret (case (source, b) of
          (Some src, HintBlock h bs' i src0) \<Rightarrow> HintBlock h bs' i (Some src)
        | _ \<Rightarrow> b, w'))"

definition applyHintBlock :: "message \<Rightarrow> block \<Rightarrow> message" where
  "applyHintBlock m hint =
     (if find (block_matches (BlockType hint) (BlockID hint)) (Content m) = None
      then append_block hint m
      else edit_block (BlockType hint) (BlockID hint) (\<lambda>b. hint) m)"

definition applyContentBlockEvent :: "env \<Rightarrow> message \<Rightarrow> event \<Rightarrow> ((bool \<times> message) \<times> env) go" where
  "applyContentBlockEvent w m e =
     (case Body e of
        TextBlockStart i \<Rightarrow> Ret ((True, append_block (TextBlock [] i) m), w)
      | TextBlockDelta i d \<Rightarrow> Ret ((True, edit_block ''text'' i (add_text d) m), w)
      | TextBlockEnd i \<Rightarrow> Ret ((True, m), w)
      | DataBlockStart i mt \<Rightarrow>
          Ret ((True, append_block (DataBlock i (Some (Base64Source [] mt)) None) m), w)
      | DataBlockDelta i d mt \<Rightarrow> Ret ((True, edit_block ''data'' i (add_data d) m), w)
      | DataBlockEnd i \<Rightarrow> Ret ((True, m), w)
      | ThinkingBlockStart i \<Rightarrow> Ret ((True, append_block (ThinkingBlock [] i None) m), w)
      | ThinkingBlockDelta i d \<Rightarrow> Ret ((True, edit_block ''thinking'' i (add_thinking d) m), w)
      | ThinkingBlockEnd i \<Rightarrow> Ret ((True, m), w)
      | HintBlockEvent i src h bs \<Rightarrow>
          go_bind (hintBlockFromEvent w i src h bs)
            (\<lambda>(hint, w'). Ret ((True, applyHintBlock m hint), w'))
      | _ \<Rightarrow> Ret ((False, m), w))"

definition applyToolCallEvent :: "message \<Rightarrow> event \<Rightarrow> bool \<times> message" where
  "applyToolCallEvent m e =
     (case Body e of
        ToolCallStart i n \<Rightarrow> (True, append_block (NewToolCallBlock i n []) m)
      | ToolCallDelta i d \<Rightarrow> (True, edit_block ''tool_call'' i (add_input d) m)
      | ToolCallEnd i \<Rightarrow> (True, m)
      | _ \<Rightarrow> (False, m))"

text \<open>
  Tool output. \<open>ensureToolResultBlocks\<close> turns a nil block list into a list, moving raw text
  into a first text block. \<open>appendToolResultText\<close> extends a trailing text block and otherwise
  appends a new one; its look at the last block panics when that element is nil.
\<close>

definition ensureToolResultBlocks :: "env \<Rightarrow> string \<Rightarrow> blocks option \<Rightarrow> (string \<times> blocks) \<times> env" where
  "ensureToolResultBlocks w raw bs =
     (case bs of
        Some bs' \<Rightarrow> ((raw, bs'), w)
      | None \<Rightarrow> if raw \<noteq> [] then let (b, w') = NewTextBlock w raw in (([], [Some b]), w')
                else ((raw, []), w))"

definition append_text_block :: "env \<Rightarrow> blocks \<Rightarrow> string \<Rightarrow> (blocks \<times> env) go" where
  "append_text_block w bs delta =
     (if bs = [] then let (b, w') = NewTextBlock w delta in Ret ([Some b], w')
      else case last bs of
        None \<Rightarrow> Panic
      | Some b \<Rightarrow>
          if BlockType b \<noteq> ''text''
          then let (b', w') = NewTextBlock w delta in Ret (bs @ [Some b'], w')
          else Ret (butlast bs @ [Some (add_text delta b)], w))"

fun appendToolResultText :: "env \<Rightarrow> block \<Rightarrow> string \<Rightarrow> (block \<times> env) go" where
  "appendToolResultText w (ToolResultBlock i n raw bs st md) delta =
     (let ((raw', bs'), w') = ensureToolResultBlocks w raw bs
      in go_bind (append_text_block w' bs' delta)
           (\<lambda>(bs'', w''). Ret (ToolResultBlock i n raw' (Some bs'') st md, w'')))"
| "appendToolResultText w b delta = Ret (b, w)"

fun appendToolResultData ::
    "env \<Rightarrow> block \<Rightarrow> string \<Rightarrow> string \<Rightarrow> string \<Rightarrow> string \<Rightarrow> block \<times> env" where
  "appendToolResultData w (ToolResultBlock i n raw bs st md) blockID mt d u =
     (let ((raw', bs'), w') = ensureToolResultBlocks w raw bs;
          src = (if d \<noteq> [] then Base64Source d mt else URLSource u mt)
      in (ToolResultBlock i n raw' (Some (bs' @ [Some (DataBlock blockID (Some src) None)])) st md, w'))"
| "appendToolResultData w b blockID mt d u = (b, w)"

fun end_result :: "ToolResultState \<Rightarrow> gmap option \<Rightarrow> block \<Rightarrow> block" where
  "end_result st' md' (ToolResultBlock i n raw bs st md) =
     ToolResultBlock i n raw bs st'
       (case md' of
          None \<Rightarrow> md
        | Some kvs \<Rightarrow> if kvs = [] then md
            else Some (gmap_merge (case md of None \<Rightarrow> [] | Some old \<Rightarrow> old)
                   (map (\<lambda>p. (fst p, CloneAny (snd p))) kvs)))"
| "end_result st' md' b = b"

definition applyToolResultEvent :: "env \<Rightarrow> message \<Rightarrow> event \<Rightarrow> ((bool \<times> message) \<times> env) go" where
  "applyToolResultEvent w m e =
     (case Body e of
        ToolResultStart i n \<Rightarrow>
          Ret ((True, append_block (NewToolResultBlock i n [] (Some []) [ToolResultRunning]) m), w)
      | ToolResultTextDelta i d \<Rightarrow>
          (case FindBlock (Content m) ''tool_result'' i of
             None \<Rightarrow> Ret ((True, m), w)
           | Some b \<Rightarrow> go_bind (appendToolResultText w b d)
               (\<lambda>(b', w'). Ret ((True, edit_block ''tool_result'' i (\<lambda>_. b') m), w')))
      | ToolResultDataDelta i bid mt d u \<Rightarrow>
          (case FindBlock (Content m) ''tool_result'' i of
             None \<Rightarrow> Ret ((True, m), w)
           | Some b \<Rightarrow> let (b', w') = appendToolResultData w b bid mt d u
               in Ret ((True, edit_block ''tool_result'' i (\<lambda>_. b') m), w'))
      | ToolResultEnd i st md \<Rightarrow>
          Ret ((True, edit_block ''tool_call'' i (set_call_state ToolCallFinished)
                        (edit_block ''tool_result'' i (end_result st md) m)), w)
      | _ \<Rightarrow> Ret ((False, m), w))"

fun requireUserConfirm :: "message \<Rightarrow> tool_call option list \<Rightarrow> message go" where
  "requireUserConfirm m [] = Ret m"
| "requireUserConfirm m (None # calls) = Panic"
| "requireUserConfirm m (Some c # calls) =
     requireUserConfirm (edit_block ''tool_call'' (CallID c) (ask_call (CallRules c)) m) calls"

fun applyUserConfirmResults :: "message \<Rightarrow> confirm_result list \<Rightarrow> message" where
  "applyUserConfirmResults m [] = m"
| "applyUserConfirmResults m (r # rs) =
     applyUserConfirmResults
       (case ConfirmToolCall r of
          None \<Rightarrow> m
        | Some c \<Rightarrow> edit_block ''tool_call'' (CallID c)
            (set_call_state (if Confirmed r then ToolCallAllowed else ToolCallFinished)) m) rs"

fun requireExternalExecution :: "message \<Rightarrow> tool_call option list \<Rightarrow> message" where
  "requireExternalExecution m [] = m"
| "requireExternalExecution m (None # calls) = requireExternalExecution m calls"
| "requireExternalExecution m (Some c # calls) =
     requireExternalExecution
       (edit_block ''tool_call'' (CallID c) (set_call_state ToolCallSubmitted) m) calls"

fun applyExternalExecutionResults :: "message \<Rightarrow> tool_result option list \<Rightarrow> message go" where
  "applyExternalExecutionResults m [] = Ret m"
| "applyExternalExecutionResults m (None # rs) = applyExternalExecutionResults m rs"
| "applyExternalExecutionResults m (Some r # rs) =
     go_bind (clone_block (result_block r)) (\<lambda>r'. applyExternalExecutionResults (append_block r' m) rs)"

definition applyPermissionEvent :: "message \<Rightarrow> event \<Rightarrow> (bool \<times> message) go" where
  "applyPermissionEvent m e =
     (case Body e of
        RequireUserConfirm calls \<Rightarrow> go_bind (requireUserConfirm m calls) (\<lambda>m'. Ret (True, m'))
      | UserConfirmResult rs \<Rightarrow> Ret (True, applyUserConfirmResults m rs)
      | RequireExternalExecution calls \<Rightarrow> Ret (True, requireExternalExecution m calls)
      | ExternalExecutionResult rs \<Rightarrow>
          go_bind (applyExternalExecutionResults m rs) (\<lambda>m'. Ret (True, m'))
      | _ \<Rightarrow> Ret (False, m))"

text \<open>Only a custom event passes every group unhandled: the error names its type.\<close>

definition ApplyEvent ::
    "env \<Rightarrow> message \<Rightarrow> event option \<Rightarrow> ((error option \<times> message) \<times> env) go" where
  "ApplyEvent w m event =
     (case event of
        None \<Rightarrow> Ret ((Some (Err ''message: nil event''), m), w)
      | Some e \<Rightarrow>
          if ReplyID e \<noteq> MsgID m then Ret ((None, m), w)
          else let (handled, m1) = applyLifecycleEvent m e in
            if handled then Ret ((None, m1), w)
            else go_bind (applyContentBlockEvent w m1 e) (\<lambda>((handled, m2), w2).
              if handled then Ret ((None, m2), w2)
              else let (handled, m3) = applyToolCallEvent m2 e in
                if handled then Ret ((None, m3), w2)
                else go_bind (applyToolResultEvent w2 m3 e) (\<lambda>((handled, m4), w4).
                  if handled then Ret ((None, m4), w4)
                  else go_bind (applyPermissionEvent m4 e) (\<lambda>(handled, m5).
                    if handled then Ret ((None, m5), w4)
                    else Ret ((Some (Err ''message: unsupported event *message.CustomEvent''), m5), w4)))))"

text \<open>A consumer applies a stream event by event; errors leave the message as it is.\<close>

fun apply_events :: "env \<Rightarrow> message \<Rightarrow> event list \<Rightarrow> (message \<times> env) go" where
  "apply_events w m [] = Ret (m, w)"
| "apply_events w m (e # es) =
     go_bind (ApplyEvent w m (Some e)) (\<lambda>((err, m'), w'). apply_events w' m' es)"

section \<open>One application\<close>

text \<open>An event of the message's reply, as one equation per body.\<close>

lemma ApplyEvent_own:
  assumes "ReplyID e = MsgID m"
  shows "ApplyEvent w m (Some e) =
    (case Body e of
       ReplyEnd s \<Rightarrow> Ret ((None, m\<lparr>FinishedAt := Some (EvCreatedAt e)\<rparr>), w)
     | ModelCallEnd i out \<Rightarrow> Ret ((None, snd (applyLifecycleEvent m e)), w)
     | TextBlockStart i \<Rightarrow> Ret ((None, append_block (TextBlock [] i) m), w)
     | TextBlockDelta i d \<Rightarrow> Ret ((None, edit_block ''text'' i (add_text d) m), w)
     | DataBlockStart i mt \<Rightarrow>
         Ret ((None, append_block (DataBlock i (Some (Base64Source [] mt)) None) m), w)
     | DataBlockDelta i d mt \<Rightarrow> Ret ((None, edit_block ''data'' i (add_data d) m), w)
     | ThinkingBlockStart i \<Rightarrow> Ret ((None, append_block (ThinkingBlock [] i None) m), w)
     | ThinkingBlockDelta i d \<Rightarrow> Ret ((None, edit_block ''thinking'' i (add_thinking d) m), w)
     | HintBlockEvent i src h bs \<Rightarrow>
         go_bind (hintBlockFromEvent w i src h bs) (\<lambda>(hint, w'). Ret ((None, applyHintBlock m hint), w'))
     | ToolCallStart i n \<Rightarrow> Ret ((None, append_block (NewToolCallBlock i n []) m), w)
     | ToolCallDelta i d \<Rightarrow> Ret ((None, edit_block ''tool_call'' i (add_input d) m), w)
     | ToolResultStart i n \<Rightarrow>
         Ret ((None, append_block (NewToolResultBlock i n [] (Some []) [ToolResultRunning]) m), w)
     | ToolResultTextDelta i d \<Rightarrow>
         go_bind (applyToolResultEvent w m e) (\<lambda>((h, m'), w'). Ret ((None, m'), w'))
     | ToolResultDataDelta i bid mt d u \<Rightarrow>
         go_bind (applyToolResultEvent w m e) (\<lambda>((h, m'), w'). Ret ((None, m'), w'))
     | ToolResultEnd i st md \<Rightarrow>
         Ret ((None, edit_block ''tool_call'' i (set_call_state ToolCallFinished)
                       (edit_block ''tool_result'' i (end_result st md) m)), w)
     | RequireUserConfirm calls \<Rightarrow> go_bind (requireUserConfirm m calls) (\<lambda>m'. Ret ((None, m'), w))
     | UserConfirmResult rs \<Rightarrow> Ret ((None, applyUserConfirmResults m rs), w)
     | RequireExternalExecution calls \<Rightarrow> Ret ((None, requireExternalExecution m calls), w)
     | ExternalExecutionResult rs \<Rightarrow>
         go_bind (applyExternalExecutionResults m rs) (\<lambda>m'. Ret ((None, m'), w))
     | CustomEvent n v \<Rightarrow>
         Ret ((Some (Err ''message: unsupported event *message.CustomEvent''), m), w)
     | _ \<Rightarrow> Ret ((None, m), w))"
  using assms
  by (cases "Body e")
     (simp_all add: ApplyEvent_def applyLifecycleEvent_def applyContentBlockEvent_def
        applyToolCallEvent_def applyToolResultEvent_def applyPermissionEvent_def go_bind_def
        split: go.split option.split prod.split)

lemma ApplyEvent_foreign: "ReplyID e \<noteq> MsgID m \<Longrightarrow> ApplyEvent w m (Some e) = Ret ((None, m), w)"
  by (simp add: ApplyEvent_def)

subsection \<open>Edits keep block identities\<close>

definition keeps_key :: "(block \<Rightarrow> block) \<Rightarrow> bool" where
  "keeps_key f \<longleftrightarrow> (\<forall>b. BlockType (f b) = BlockType b \<and> BlockID (f b) = BlockID b)"

lemma keeps_key_edits [simp]:
  "keeps_key (add_text d)" "keeps_key (add_thinking d)" "keeps_key (add_data d)"
  "keeps_key (add_input d)" "keeps_key (set_call_state st)" "keeps_key (ask_call rs)"
  "keeps_key (end_result rst md)"
proof -
  have "BlockType (add_data d b) = BlockType b \<and> BlockID (add_data d b) = BlockID b" for b
    by (cases "(d, b)" rule: add_data.cases) auto
  then show "keeps_key (add_data d)" by (simp add: keeps_key_def)
qed (auto simp: keeps_key_def, (case_tac b; simp)+)

definition block_key :: "block option \<Rightarrow> (string \<times> string) option" where
  "block_key bo = map_option (\<lambda>b. (BlockType b, BlockID b)) bo"

lemma block_matches_iff: "block_matches typ i bo \<longleftrightarrow> block_key bo = Some (typ, i)"
  by (cases bo) (auto simp: block_matches_def block_key_def)

lemma block_key_simps [simp]:
  "block_key None = None" "block_key (Some b) = Some (BlockType b, BlockID b)"
  by (simp_all add: block_key_def)

lemma edit_block_fields [simp]:
  "MsgID (edit_block typ i f m) = MsgID m" "Usage (edit_block typ i f m) = Usage m"
  "MsgID (append_block b m) = MsgID m" "Usage (append_block b m) = Usage m"
  by (simp_all add: edit_block_def append_block_def)

text \<open>What reads a message: the keys of its blocks, and the block found under a key.\<close>

definition keys :: "message \<Rightarrow> (string \<times> string) option list" where
  "keys m = map block_key (Content m)"

definition found :: "message \<Rightarrow> string \<Rightarrow> string \<Rightarrow> block option" where
  "found m typ i = FindBlock (Content m) typ i"

lemma found_find: "found m typ i = Option.bind (find (block_matches typ i) (Content m)) id"
  by (simp add: found_def FindBlock_def split: option.split)

lemma keys_edit:
  assumes "\<And>b. BlockType b = typ \<Longrightarrow> BlockID b = i \<Longrightarrow> BlockType (f b) = typ \<and> BlockID (f b) = i"
  shows "keys (edit_block typ i f m) = keys m"
proof -
  have "block_key (map_option f x) = block_key x" if "block_matches typ i x" for x
    using that assms by (cases x) (auto simp: block_matches_def)
  then show ?thesis by (simp add: keys_def edit_block_def map_update_first)
qed

lemma keys_append [simp]: "keys (append_block b m) = keys m @ [Some (BlockType b, BlockID b)]"
  by (simp add: keys_def append_block_def)

lemma find_matches_update_other:
  assumes "\<And>x. p x \<Longrightarrow> \<not> q x \<and> \<not> q (f x)"
  shows "find q (update_first p f xs) = find q xs"
  using assms by (induction xs) auto

lemma found_edit:
  assumes "\<And>b. BlockType b = typ \<Longrightarrow> BlockID b = i \<Longrightarrow> BlockType (f b) = typ \<and> BlockID (f b) = i"
  shows "found (edit_block typ i f m) typ' j =
    (if typ' = typ \<and> j = i then map_option f (found m typ' j) else found m typ' j)"
proof -
  have keep: "block_matches typ i (map_option f x)" if "block_matches typ i x" for x
    using that assms by (cases x) (auto simp: block_matches_def)
  show ?thesis
  proof (cases "typ' = typ \<and> j = i")
    case True
    then show ?thesis
      using find_update_first [of "block_matches typ i" "map_option f" "Content m", OF keep]
      by (cases "find (block_matches typ i) (Content m)")
         (auto simp: found_find edit_block_def)
  next
    case False
    then have "find (block_matches typ' j) (update_first (block_matches typ i) (map_option f) (Content m))
      = find (block_matches typ' j) (Content m)"
      using keep by (intro find_matches_update_other) (auto simp: block_matches_iff)
    with False show ?thesis by (auto simp: found_find edit_block_def)
  qed
qed

lemma found_edit_keep:
  "keeps_key f \<Longrightarrow> found (edit_block typ i f m) typ' j =
    (if typ' = typ \<and> j = i then map_option f (found m typ' j) else found m typ' j)"
  by (rule found_edit) (simp add: keeps_key_def)

lemma keys_edit_keep: "keeps_key f \<Longrightarrow> keys (edit_block typ i f m) = keys m"
  by (rule keys_edit) (simp add: keeps_key_def)

lemma found_append:
  "found (append_block b m) typ i =
     (case found m typ i of
        Some x \<Rightarrow> Some x
      | None \<Rightarrow> if BlockType b = typ \<and> BlockID b = i then Some b else None)"
proof (cases "find (block_matches typ i) (Content m)")
  case None
  then show ?thesis
    by (simp add: found_find append_block_def find_append block_matches_def)
next
  case (Some bo)
  then obtain x where "bo = Some x"
    by (cases bo) (auto simp: block_matches_def dest!: find_SomeD)
  with Some show ?thesis by (simp add: found_find append_block_def find_append)
qed

lemma found_key: "found m typ i = Some b \<Longrightarrow> BlockType b = typ \<and> BlockID b = i"
  by (simp add: found_def FindBlock_Some)

subsection \<open>Hints, tool output, and the loops over calls\<close>

lemma NewHintBlock_shape:
  assumes "NewHintBlock w h (Some i) src = Ret (b, w')"
  shows "\<exists>t bs. b = HintBlock t bs i src"
  using assms by (auto simp: NewHintBlock_def go_bind_eq_Ret newID_def Let_def)

lemma hintBlockFromEvent_shape:
  assumes "hintBlockFromEvent w i src h bs = Ret (b, w')"
  shows "\<exists>t bs'. b = HintBlock t bs' i src"
  using assms unfolding hintBlockFromEvent_def go_bind_eq_Ret
  by (auto dest!: NewHintBlock_shape split: option.splits)

lemma keys_applyHintBlock:
  "BlockType hint = ''hint'' \<Longrightarrow> prefix (keys m) (keys (applyHintBlock m hint))"
  by (auto simp: applyHintBlock_def keys_edit)

lemma found_applyHintBlock:
  "BlockType hint = ''hint'' \<Longrightarrow> typ \<noteq> ''hint'' \<Longrightarrow> found (applyHintBlock m hint) typ i = found m typ i"
  by (auto simp: applyHintBlock_def found_edit found_append split: option.split)

lemma appendToolResultText_key:
  "appendToolResultText w b d = Ret (b', w') \<Longrightarrow> BlockType b' = BlockType b \<and> BlockID b' = BlockID b"
  by (cases b) (auto simp: go_bind_eq_Ret split: prod.splits)

lemma appendToolResultData_key:
  "appendToolResultData w b bid mt d u = (b', w') \<Longrightarrow> BlockType b' = BlockType b \<and> BlockID b' = BlockID b"
  by (cases b) (auto split: prod.splits)

text \<open>A loop over calls changes the state of the call it names, nothing else.\<close>

definition same_but_calls :: "message \<Rightarrow> message \<Rightarrow> bool" where
  "same_but_calls m m' \<longleftrightarrow>
     keys m' = keys m \<and> MsgID m' = MsgID m \<and> Usage m' = Usage m
     \<and> (\<forall>typ i. typ \<noteq> ''tool_call'' \<longrightarrow> found m' typ i = found m typ i)"

lemma same_but_calls_refl [simp]: "same_but_calls m m"
  by (simp add: same_but_calls_def)

lemma same_but_calls_edit:
  "keeps_key f \<Longrightarrow> same_but_calls (edit_block ''tool_call'' i f m) m' = same_but_calls m m'"
  by (auto simp: same_but_calls_def keys_edit_keep found_edit_keep)

lemma requireUserConfirm_frame: "requireUserConfirm m cs = Ret m' \<Longrightarrow> same_but_calls m m'"
  by (induction m cs rule: requireUserConfirm.induct) (auto simp: same_but_calls_edit)

lemma applyUserConfirmResults_frame: "same_but_calls m (applyUserConfirmResults m rs)"
  by (induction m rs rule: applyUserConfirmResults.induct)
     (auto simp: same_but_calls_edit split: option.splits)

lemma requireExternalExecution_frame: "same_but_calls m (requireExternalExecution m cs)"
  by (induction m cs rule: requireExternalExecution.induct) (auto simp: same_but_calls_edit)

lemma result_block_key [simp]:
  "BlockType (result_block r) = ''tool_result''" "BlockID (result_block r) = ResultID r"
  by (simp_all add: result_block_def)

lemma applyExternalExecutionResults_frame:
  "applyExternalExecutionResults m rs = Ret m' \<Longrightarrow>
     prefix (keys m) (keys m') \<and> MsgID m' = MsgID m \<and> Usage m' = Usage m
     \<and> (\<forall>typ i. typ \<noteq> ''tool_result'' \<longrightarrow> found m' typ i = found m typ i)"
proof (induction m rs rule: applyExternalExecutionResults.induct)
  case (3 m r rs)
  from "3.prems" obtain b where b: "clone_block (result_block r) = Ret b"
    and rest: "applyExternalExecutionResults (append_block b m) rs = Ret m'"
    by (auto simp: go_bind_eq_Ret)
  have "b = result_block r" using b clone_identity(1) by blast
  with "3.IH" [OF rest] show ?case
    by (auto simp: found_append dest: append_prefixD split: option.splits)
qed auto

lemma NewToolBlocks_key [simp]:
  "BlockType (NewToolCallBlock i n inp) = ''tool_call''" "BlockID (NewToolCallBlock i n inp) = i"
  "BlockType (NewToolResultBlock i n raw bs st) = ''tool_result''"
  "BlockID (NewToolResultBlock i n raw bs st) = i"
  by (simp_all add: NewToolCallBlock_def NewToolResultBlock_def)

text \<open>Tool output events touch tool results only (an end event also finishes the call).\<close>

lemma tool_output_frame:
  assumes "applyToolResultEvent w m e = Ret ((h, m'), w')"
    and "Body e = ToolResultTextDelta i d \<or> Body e = ToolResultDataDelta i bid mt d u"
  shows "keys m' = keys m \<and> MsgID m' = MsgID m \<and> Usage m' = Usage m
    \<and> (\<forall>typ j. typ \<noteq> ''tool_result'' \<longrightarrow> found m' typ j = found m typ j)"
proof -
  have edit: ?thesis
    if "found m ''tool_result'' i = Some b" and "BlockType b' = BlockType b \<and> BlockID b' = BlockID b"
      and "m' = edit_block ''tool_result'' i (\<lambda>_. b') m" for b b'
    using that found_key [of m "''tool_result''" i b] by (auto simp: keys_edit found_edit)
  show ?thesis
  proof (cases "found m ''tool_result'' i")
    case None
    with assms show ?thesis by (auto simp: applyToolResultEvent_def found_def)
  next
    case (Some b)
    with assms have "\<exists>b' w'. m' = edit_block ''tool_result'' i (\<lambda>_. b') m
        \<and> (appendToolResultText w b d = Ret (b', w') \<or> appendToolResultData w b bid mt d u = (b', w'))"
      by (fastforce simp: applyToolResultEvent_def found_def go_bind_eq_Ret split: prod.splits)
    then obtain b' w2 where m': "m' = edit_block ''tool_result'' i (\<lambda>_. b') m"
      and "appendToolResultText w b d = Ret (b', w2) \<or> appendToolResultData w b bid mt d u = (b', w2)"
      by blast
    then have "BlockType b' = BlockType b \<and> BlockID b' = BlockID b"
      using appendToolResultText_key appendToolResultData_key by blast
    with edit [OF Some this m'] show ?thesis by blast
  qed
qed

lemma ApplyEvent_frame:
  assumes "ApplyEvent w m (Some e) = Ret ((err, m'), w')"
  shows "MsgID m' = MsgID m" and "prefix (keys m) (keys m')"
proof -
  have "MsgID m' = MsgID m \<and> prefix (keys m) (keys m')"
  proof (cases "ReplyID e = MsgID m")
    case False
    with assms show ?thesis by (simp add: ApplyEvent_foreign)
  next
    case True
    note eq = assms [unfolded ApplyEvent_own [OF True]]
    show ?thesis
    proof (cases "Body e")
      case (HintBlockEvent i src h bs)
      with eq obtain b where "hintBlockFromEvent w i src h bs = Ret (b, w')" "m' = applyHintBlock m b"
        by (auto simp: go_bind_eq_Ret)
      then show ?thesis
        by (auto dest!: hintBlockFromEvent_shape simp: keys_applyHintBlock)
           (simp add: applyHintBlock_def)
    next
      case (ModelCallEnd i out)
      with eq show ?thesis by (auto simp: applyLifecycleEvent_def keys_def)
    next
      case (ReplyEnd s)
      with eq show ?thesis by (auto simp: keys_def)
    next
      case (UserConfirmResult rs)
      with eq applyUserConfirmResults_frame [of m rs] show ?thesis
        by (auto simp: same_but_calls_def)
    next
      case (RequireExternalExecution cs)
      with eq requireExternalExecution_frame [of m cs] show ?thesis
        by (auto simp: same_but_calls_def)
    qed (use eq in \<open>auto simp: keys_edit_keep go_bind_eq_Ret same_but_calls_def
          dest!: requireUserConfirm_frame applyExternalExecutionResults_frame tool_output_frame\<close>)
  qed
  then show "MsgID m' = MsgID m" "prefix (keys m) (keys m')" by simp_all
qed

section \<open>Streams\<close>

text \<open>
  A view of a message (the text of a block, the input of a call, its state) whose change under
  one event is described by a step of its own determines its value after a whole stream: the
  fold of that step over the bodies of the message's own events. The three accumulated strings
  share one step: nothing until the block starts, then everything its deltas carry.
\<close>

definition own_bodies :: "string \<Rightarrow> event list \<Rightarrow> event_body list" where
  "own_bodies reply es = map Body (filter (\<lambda>e. ReplyID e = reply) es)"

lemma own_bodies_simps [simp]:
  "own_bodies reply [] = []"
  "own_bodies reply (e # es) =
     (if ReplyID e = reply then Body e # own_bodies reply es else own_bodies reply es)"
  by (simp_all add: own_bodies_def)

locale stream_view =
  fixes view :: "message \<Rightarrow> 'v"
    and step :: "event_body \<Rightarrow> 'v \<Rightarrow> 'v"
  assumes view_step:
    "ReplyID e = MsgID m \<Longrightarrow> ApplyEvent w m (Some e) = Ret ((err, m'), w') \<Longrightarrow>
       view m' = step (Body e) (view m)"
begin

lemma view_stream:
  "apply_events w m es = Ret (m', w') \<Longrightarrow>
     view m' = fold step (own_bodies (MsgID m) es) (view m)"
proof (induction w m es rule: apply_events.induct)
  case (1 w m)
  then show ?case by simp
next
  case (2 w m e es)
  from 2(2) obtain err m1 w1 where one: "ApplyEvent w m (Some e) = Ret ((err, m1), w1)"
    and rest: "apply_events w1 m1 es = Ret (m', w')"
    by (auto simp: go_bind_eq_Ret)
  have id: "MsgID m1 = MsgID m" using ApplyEvent_frame(1) [OF one] .
  have "view m' = fold step (own_bodies (MsgID m1) es) (view m1)"
    using "2.IH" one rest by blast
  moreover have "view m1 = (if ReplyID e = MsgID m then step (Body e) (view m) else view m)"
    using one view_step by (auto simp: ApplyEvent_foreign)
  ultimately show ?case by (simp add: id)
qed

end

definition acc_step ::
    "(event_body \<Rightarrow> bool) \<Rightarrow> (event_body \<Rightarrow> string) \<Rightarrow> event_body \<Rightarrow> string option \<Rightarrow> string option" where
  "acc_step starts delta b v =
     (case v of None \<Rightarrow> if starts b then Some [] else None | Some t \<Rightarrow> Some (t @ delta b))"

definition accumulated ::
    "(event_body \<Rightarrow> bool) \<Rightarrow> (event_body \<Rightarrow> string) \<Rightarrow> event_body list \<Rightarrow> string option" where
  "accumulated starts delta bs =
     (case dropWhile (\<lambda>b. \<not> starts b) bs of
        [] \<Rightarrow> None
      | b # rest \<Rightarrow> Some (concat (map delta rest)))"

lemma fold_acc_Some: "fold (acc_step s d) bs (Some t) = Some (t @ concat (map d bs))"
  by (induction bs arbitrary: t) (simp_all add: acc_step_def)

lemma acc_step_None: "acc_step s d b None = (if s b then Some [] else None)"
  by (simp add: acc_step_def)

lemma fold_acc: "fold (acc_step s d) bs None = accumulated s d bs"
proof (induction bs)
  case Nil
  then show ?case by (simp add: accumulated_def)
next
  case (Cons b bs)
  then show ?case by (cases "s b") (simp_all add: accumulated_def acc_step_None fold_acc_Some)
qed

text \<open>The texts of three kinds of blocks.\<close>

definition text_of :: "string \<Rightarrow> message \<Rightarrow> string option" where
  "text_of i m = (case found m ''text'' i of Some (TextBlock t j) \<Rightarrow> Some t | _ \<Rightarrow> None)"

definition thinking_of :: "string \<Rightarrow> message \<Rightarrow> string option" where
  "thinking_of i m = (case found m ''thinking'' i of Some (ThinkingBlock t j x) \<Rightarrow> Some t | _ \<Rightarrow> None)"

fun call_input :: "block \<Rightarrow> string option" where
  "call_input (ToolCallBlock j n inp st rs x) = Some inp"
| "call_input b = None"

fun call_state :: "block \<Rightarrow> ToolCallState option" where
  "call_state (ToolCallBlock j n inp st rs x) = Some st"
| "call_state b = None"

definition input_of_call :: "string \<Rightarrow> message \<Rightarrow> string option" where
  "input_of_call i m = Option.bind (found m ''tool_call'' i) call_input"

definition state_of_call :: "string \<Rightarrow> message \<Rightarrow> ToolCallState option" where
  "state_of_call i m = Option.bind (found m ''tool_call'' i) call_state"

fun text_delta :: "string \<Rightarrow> event_body \<Rightarrow> string" where
  "text_delta i (TextBlockDelta j d) = (if j = i then d else [])"
| "text_delta i b = []"

fun thinking_delta :: "string \<Rightarrow> event_body \<Rightarrow> string" where
  "thinking_delta i (ThinkingBlockDelta j d) = (if j = i then d else [])"
| "thinking_delta i b = []"

fun input_delta :: "string \<Rightarrow> event_body \<Rightarrow> string" where
  "input_delta i (ToolCallDelta j d) = (if j = i then d else [])"
| "input_delta i b = []"

fun starts_call :: "string \<Rightarrow> event_body \<Rightarrow> bool" where
  "starts_call i (ToolCallStart j n) = (j = i)"
| "starts_call i b = False"

text \<open>
  The state machine of a tool call: what one event does to the state of the call \<open>i\<close>. Every
  transition is possible from every state.
\<close>

definition names_call :: "string \<Rightarrow> tool_call option \<Rightarrow> bool" where
  "names_call i co = (case co of None \<Rightarrow> False | Some c \<Rightarrow> CallID c = i)"

definition confirm_step :: "string \<Rightarrow> confirm_result \<Rightarrow> ToolCallState option \<Rightarrow> ToolCallState option" where
  "confirm_step i r v =
     (if names_call i (ConfirmToolCall r)
      then map_option (\<lambda>_. if Confirmed r then ToolCallAllowed else ToolCallFinished) v else v)"

fun call_step :: "string \<Rightarrow> event_body \<Rightarrow> ToolCallState option \<Rightarrow> ToolCallState option" where
  "call_step i (ToolCallStart j n) v =
     (case v of None \<Rightarrow> if j = i then Some ToolCallPending else None | Some st \<Rightarrow> Some st)"
| "call_step i (ToolResultEnd j st md) v = (if j = i then map_option (\<lambda>_. ToolCallFinished) v else v)"
| "call_step i (RequireUserConfirm cs) v =
     (if list_ex (names_call i) cs then map_option (\<lambda>_. ToolCallAsking) v else v)"
| "call_step i (RequireExternalExecution cs) v =
     (if list_ex (names_call i) cs then map_option (\<lambda>_. ToolCallSubmitted) v else v)"
| "call_step i (UserConfirmResult rs) v = fold (confirm_step i) rs v"
| "call_step i b v = v"

subsection \<open>What an event does to the blocks the views read\<close>

lemma ApplyEvent_found_other:
  assumes own: "ReplyID e = MsgID m" and run: "ApplyEvent w m (Some e) = Ret ((err, m'), w')"
    and texty: "typ \<in> {''text'', ''thinking''}"
  shows "found m' typ i =
    (case Body e of
       TextBlockStart j \<Rightarrow> found (append_block (TextBlock [] j) m) typ i
     | TextBlockDelta j d \<Rightarrow> found (edit_block ''text'' j (add_text d) m) typ i
     | ThinkingBlockStart j \<Rightarrow> found (append_block (ThinkingBlock [] j None) m) typ i
     | ThinkingBlockDelta j d \<Rightarrow> found (edit_block ''thinking'' j (add_thinking d) m) typ i
     | _ \<Rightarrow> found m typ i)"
proof -
  note eq = run [unfolded ApplyEvent_own [OF own]]
  show ?thesis
  proof (cases "Body e")
    case (HintBlockEvent j src h bs)
    with eq texty show ?thesis
      by (auto simp: go_bind_eq_Ret found_applyHintBlock dest!: hintBlockFromEvent_shape)
  next
    case (ModelCallEnd j out)
    with eq show ?thesis by (auto simp: applyLifecycleEvent_def found_def)
  next
    case (ReplyEnd s)
    with eq show ?thesis by (auto simp: found_def)
  next
    case (UserConfirmResult rs)
    with eq texty applyUserConfirmResults_frame [of m rs] show ?thesis
      by (auto simp: same_but_calls_def)
  next
    case (RequireExternalExecution cs)
    with eq texty requireExternalExecution_frame [of m cs] show ?thesis
      by (auto simp: same_but_calls_def)
  next
    case (ToolResultTextDelta j d)
    with eq texty show ?thesis by (auto simp: go_bind_eq_Ret dest!: tool_output_frame)
  next
    case (ToolResultDataDelta j bid mt d u)
    with eq texty show ?thesis by (auto simp: go_bind_eq_Ret dest!: tool_output_frame)
  qed (use eq texty in \<open>auto simp: found_edit_keep found_append go_bind_eq_Ret same_but_calls_def
        dest!: requireUserConfirm_frame applyExternalExecutionResults_frame split: option.split\<close>)
qed

lemma found_text_cases:
  obtains "found m ''text'' i = None" | t where "found m ''text'' i = Some (TextBlock t i)"
proof (cases "found m ''text'' i")
  case (Some b)
  with found_key [OF Some] that(2) show thesis by (cases b) auto
qed (use that(1) in blast)

lemma found_thinking_cases:
  obtains "found m ''thinking'' i = None" | t x where "found m ''thinking'' i = Some (ThinkingBlock t i x)"
proof (cases "found m ''thinking'' i")
  case (Some b)
  with found_key [OF Some] that(2) show thesis by (cases b) auto
qed (use that(1) in blast)

text \<open>The views of a call read the found block, so an edit changes them pointwise.\<close>

lemma call_parts_edit [simp]:
  "call_state (set_call_state st b) = map_option (\<lambda>_. st) (call_state b)"
  "call_state (ask_call rs b) = map_option (\<lambda>_. ToolCallAsking) (call_state b)"
  "call_state (add_input d b) = call_state b"
  "call_input (set_call_state st b) = call_input b"
  "call_input (ask_call rs b) = call_input b"
  "call_input (add_input d b) = map_option (\<lambda>t. t @ d) (call_input b)"
  by (cases b; simp)+

lemma call_view_edit [simp]:
  "state_of_call i (edit_block ''tool_call'' j (set_call_state st) m) =
     (if i = j then map_option (\<lambda>_. st) (state_of_call i m) else state_of_call i m)"
  "state_of_call i (edit_block ''tool_call'' j (ask_call rs) m) =
     (if i = j then map_option (\<lambda>_. ToolCallAsking) (state_of_call i m) else state_of_call i m)"
  "state_of_call i (edit_block ''tool_call'' j (add_input d) m) = state_of_call i m"
  "input_of_call i (edit_block ''tool_call'' j (set_call_state st) m) = input_of_call i m"
  "input_of_call i (edit_block ''tool_call'' j (ask_call rs) m) = input_of_call i m"
  "input_of_call i (edit_block ''tool_call'' j (add_input d) m) =
     (if i = j then map_option (\<lambda>t. t @ d) (input_of_call i m) else input_of_call i m)"
  "typ \<noteq> ''tool_call'' \<Longrightarrow> keeps_key f \<Longrightarrow> state_of_call i (edit_block typ j f m) = state_of_call i m"
  "typ \<noteq> ''tool_call'' \<Longrightarrow> keeps_key f \<Longrightarrow> input_of_call i (edit_block typ j f m) = input_of_call i m"
  by (cases "found m ''tool_call'' i"; force simp: state_of_call_def input_of_call_def found_edit_keep)+

lemma call_of_found:
  "found m ''tool_call'' i = Some b \<Longrightarrow> \<exists>st inp. call_state b = Some st \<and> call_input b = Some inp"
  using found_key [of m "''tool_call''" i b] by (cases b) auto

lemma call_view_append:
  "BlockType b \<noteq> ''tool_call'' \<Longrightarrow> state_of_call i (append_block b m) = state_of_call i m"
  "BlockType b \<noteq> ''tool_call'' \<Longrightarrow> input_of_call i (append_block b m) = input_of_call i m"
  "state_of_call i (append_block (NewToolCallBlock j n []) m) =
     (case state_of_call i m of None \<Rightarrow> if j = i then Some ToolCallPending else None | Some st \<Rightarrow> Some st)"
  "input_of_call i (append_block (NewToolCallBlock j n []) m) =
     (case input_of_call i m of None \<Rightarrow> if j = i then Some [] else None | Some t \<Rightarrow> Some t)"
  by (cases "found m ''tool_call'' i";
      auto simp: state_of_call_def input_of_call_def found_append NewToolCallBlock_def
        dest: call_of_found split: option.split)+

lemma call_view_cong:
  assumes "found m' ''tool_call'' i = found m ''tool_call'' i"
  shows "state_of_call i m' = state_of_call i m" "input_of_call i m' = input_of_call i m"
  using assms by (simp_all add: state_of_call_def input_of_call_def)

lemma requireUserConfirm_call:
  "requireUserConfirm m cs = Ret m' \<Longrightarrow>
     state_of_call i m' = (if list_ex (names_call i) cs then map_option (\<lambda>_. ToolCallAsking) (state_of_call i m)
                           else state_of_call i m)
     \<and> input_of_call i m' = input_of_call i m"
  by (induction m cs rule: requireUserConfirm.induct)
     (auto simp: names_call_def option.map_comp comp_def)

lemma requireExternalExecution_call:
  "state_of_call i (requireExternalExecution m cs) =
     (if list_ex (names_call i) cs then map_option (\<lambda>_. ToolCallSubmitted) (state_of_call i m)
      else state_of_call i m)
   \<and> input_of_call i (requireExternalExecution m cs) = input_of_call i m"
  by (induction m cs rule: requireExternalExecution.induct)
     (auto simp: names_call_def option.map_comp comp_def)

lemma applyUserConfirmResults_call:
  "state_of_call i (applyUserConfirmResults m rs) = fold (confirm_step i) rs (state_of_call i m)
   \<and> input_of_call i (applyUserConfirmResults m rs) = input_of_call i m"
  by (induction m rs rule: applyUserConfirmResults.induct)
     (auto simp: confirm_step_def names_call_def split: option.split)

lemma ApplyEvent_call:
  assumes own: "ReplyID e = MsgID m" and run: "ApplyEvent w m (Some e) = Ret ((err, m'), w')"
  shows "state_of_call i m' = call_step i (Body e) (state_of_call i m)
    \<and> input_of_call i m' = acc_step (starts_call i) (input_delta i) (Body e) (input_of_call i m)"
proof -
  note eq = run [unfolded ApplyEvent_own [OF own]]
  have idle: ?thesis
    if "found m' ''tool_call'' i = found m ''tool_call'' i"
      and "call_step i (Body e) (state_of_call i m) = state_of_call i m"
      and "acc_step (starts_call i) (input_delta i) (Body e) (input_of_call i m) = input_of_call i m"
    using that(2,3) call_view_cong [OF that(1)] by simp
  note call_simps = acc_step_def call_view_append
  show ?thesis
  proof (cases "Body e")
    case (HintBlockEvent j src h bs)
    with eq have "found m' ''tool_call'' i = found m ''tool_call'' i"
      by (auto simp: go_bind_eq_Ret found_applyHintBlock dest!: hintBlockFromEvent_shape)
    with HintBlockEvent show ?thesis by (intro idle) (auto simp: acc_step_def split: option.split)
  next
    case (ModelCallEnd j out)
    with eq show ?thesis
      by (intro idle) (auto simp: applyLifecycleEvent_def found_def acc_step_def split: option.split)
  next
    case (ReplyEnd s)
    with eq show ?thesis by (intro idle) (auto simp: found_def acc_step_def split: option.split)
  next
    case (RequireUserConfirm cs)
    with eq obtain m1 where m1: "requireUserConfirm m cs = Ret m1" "m' = m1"
      by (auto simp: go_bind_eq_Ret)
    with requireUserConfirm_call [OF m1(1)] RequireUserConfirm show ?thesis
      by (auto simp: acc_step_def split: option.split)
  next
    case (ExternalExecutionResult rs)
    with eq have "found m' ''tool_call'' i = found m ''tool_call'' i"
      by (auto simp: go_bind_eq_Ret dest!: applyExternalExecutionResults_frame)
    with ExternalExecutionResult show ?thesis
      by (intro idle) (auto simp: acc_step_def split: option.split)
  next
    case (ToolResultTextDelta j d)
    with eq have "found m' ''tool_call'' i = found m ''tool_call'' i"
      by (auto simp: go_bind_eq_Ret dest!: tool_output_frame)
    with ToolResultTextDelta show ?thesis by (intro idle) (auto simp: acc_step_def split: option.split)
  next
    case (ToolResultDataDelta j bid mt d u)
    with eq have "found m' ''tool_call'' i = found m ''tool_call'' i"
      by (auto simp: go_bind_eq_Ret dest!: tool_output_frame)
    with ToolResultDataDelta show ?thesis by (intro idle) (auto simp: acc_step_def split: option.split)
  qed (use eq in \<open>auto simp: call_simps found_append found_edit_keep applyUserConfirmResults_call
         requireExternalExecution_call split: option.split\<close>)
qed

lemma ApplyEvent_text:
  assumes own: "ReplyID e = MsgID m" and run: "ApplyEvent w m (Some e) = Ret ((err, m'), w')"
  shows "text_of i m' = acc_step (\<lambda>b. b = TextBlockStart i) (text_delta i) (Body e) (text_of i m)"
proof (rule found_text_cases [of m i])
  assume "found m ''text'' i = None"
  with ApplyEvent_found_other [OF own run, of "''text''" i] show ?thesis
    by (cases "Body e") (auto simp: text_of_def acc_step_def found_append found_edit_keep)
next
  fix t assume "found m ''text'' i = Some (TextBlock t i)"
  with ApplyEvent_found_other [OF own run, of "''text''" i] show ?thesis
    by (cases "Body e") (auto simp: text_of_def acc_step_def found_append found_edit_keep)
qed

lemma ApplyEvent_thinking:
  assumes own: "ReplyID e = MsgID m" and run: "ApplyEvent w m (Some e) = Ret ((err, m'), w')"
  shows "thinking_of i m' =
    acc_step (\<lambda>b. b = ThinkingBlockStart i) (thinking_delta i) (Body e) (thinking_of i m)"
proof (rule found_thinking_cases [of m i])
  assume "found m ''thinking'' i = None"
  with ApplyEvent_found_other [OF own run, of "''thinking''" i] show ?thesis
    by (cases "Body e") (auto simp: thinking_of_def acc_step_def found_append found_edit_keep)
next
  fix t x assume "found m ''thinking'' i = Some (ThinkingBlock t i x)"
  with ApplyEvent_found_other [OF own run, of "''thinking''" i] show ?thesis
    by (cases "Body e") (auto simp: thinking_of_def acc_step_def found_append found_edit_keep)
qed

text \<open>The token usage, as the pair of its counters.\<close>

fun token_step :: "event_body \<Rightarrow> (int \<times> int) option \<Rightarrow> (int \<times> int) option" where
  "token_step (ModelCallEnd i out) None = Some (i, out)"
| "token_step (ModelCallEnd i out) (Some (a, b)) = Some (wrap64 (a + i), wrap64 (b + out))"
| "token_step body v = v"

definition tokens_of :: "message \<Rightarrow> (int \<times> int) option" where
  "tokens_of m = map_option (\<lambda>u. (InputTokens u, OutputTokens u)) (Usage m)"

lemma ApplyEvent_tokens:
  assumes own: "ReplyID e = MsgID m" and run: "ApplyEvent w m (Some e) = Ret ((err, m'), w')"
  shows "tokens_of m' = token_step (Body e) (tokens_of m)"
proof -
  note eq = run [unfolded ApplyEvent_own [OF own]]
  show ?thesis
  proof (cases "Body e")
    case (ModelCallEnd i out)
    with eq show ?thesis
      by (cases "Usage m") (auto simp: applyLifecycleEvent_def tokens_of_def)
  next
    case (HintBlockEvent j src h bs)
    with eq show ?thesis
      by (auto simp: go_bind_eq_Ret tokens_of_def applyHintBlock_def)
  next
    case (UserConfirmResult rs)
    with eq applyUserConfirmResults_frame [of m rs] show ?thesis
      by (auto simp: same_but_calls_def tokens_of_def)
  next
    case (RequireExternalExecution cs)
    with eq requireExternalExecution_frame [of m cs] show ?thesis
      by (auto simp: same_but_calls_def tokens_of_def)
  qed (use eq in \<open>auto simp: tokens_of_def go_bind_eq_Ret same_but_calls_def
        dest!: requireUserConfirm_frame applyExternalExecutionResults_frame tool_output_frame\<close>)
qed

subsection \<open>The views of the model\<close>

interpretation text_view: stream_view "text_of i"
  "acc_step (\<lambda>b. b = TextBlockStart i) (text_delta i)" for i
  by unfold_locales (rule ApplyEvent_text)

interpretation thinking_view: stream_view "thinking_of i"
  "acc_step (\<lambda>b. b = ThinkingBlockStart i) (thinking_delta i)" for i
  by unfold_locales (rule ApplyEvent_thinking)

interpretation input_view: stream_view "input_of_call i"
  "acc_step (starts_call i) (input_delta i)" for i
  by unfold_locales (simp add: ApplyEvent_call)

interpretation state_view: stream_view "state_of_call i" "call_step i" for i
  by unfold_locales (simp add: ApplyEvent_call)

interpretation token_view: stream_view tokens_of token_step
  by unfold_locales (rule ApplyEvent_tokens)

section \<open>Properties\<close>

definition sum_tokens :: "event_body list \<Rightarrow> int \<times> int" where
  "sum_tokens bs =
     (sum_list (map (\<lambda>b. case b of ModelCallEnd i out \<Rightarrow> i | _ \<Rightarrow> 0) bs),
      sum_list (map (\<lambda>b. case b of ModelCallEnd i out \<Rightarrow> out | _ \<Rightarrow> 0) bs))"

lemma fold_tokens_Some:
  "\<exists>a' b'. fold token_step bs (Some (a, b)) = Some (a', b')
     \<and> wrap64 a' = wrap64 (a + fst (sum_tokens bs)) \<and> wrap64 b' = wrap64 (b + snd (sum_tokens bs))"
proof (induction bs arbitrary: a b)
  case Nil
  then show ?case by (simp add: sum_tokens_def)
next
  case (Cons body bs)
  show ?case
  proof (cases body)
    case (ModelCallEnd i out)
    with Cons [of "wrap64 (a + i)" "wrap64 (b + out)"] show ?thesis
      by (simp add: sum_tokens_def add.assoc)
  qed (use Cons [of a b] in \<open>simp_all add: sum_tokens_def\<close>)
qed

lemma state_stays_None:
  "list_all (\<lambda>b. \<not> starts_call i b) bs \<Longrightarrow> fold (call_step i) bs None = None"
proof (induction bs)
  case (Cons b bs)
  have "call_step i b None = None"
  proof (cases b)
    case (UserConfirmResult rs)
    have "fold (confirm_step i) rs None = None" by (induction rs) (simp_all add: confirm_step_def)
    with UserConfirmResult show ?thesis by simp
  qed (use Cons.prems in auto)
  with Cons show ?case by simp
qed simp

lemma confirm_allowed:
  assumes "fold (confirm_step i) rs v = Some ToolCallAllowed" and "v \<noteq> Some ToolCallAllowed"
  shows "\<exists>r \<in> set rs. Confirmed r \<and> names_call i (ConfirmToolCall r)"
  using assms
proof (induction rs arbitrary: v)
  case (Cons r rs)
  show ?case
  proof (cases "confirm_step i r v = Some ToolCallAllowed")
    case True
    with Cons.prems(2) show ?thesis by (auto simp: confirm_step_def split: if_splits)
  next
    case False
    with Cons.IH [of "confirm_step i r v"] Cons.prems(1) show ?thesis by auto
  qed
qed simp

definition confirms :: "string \<Rightarrow> event_body \<Rightarrow> bool" where
  "confirms i b =
     (case b of
        UserConfirmResult rs \<Rightarrow> list_ex (\<lambda>r. Confirmed r \<and> names_call i (ConfirmToolCall r)) rs
      | _ \<Rightarrow> False)"

lemma call_step_allowed:
  assumes "call_step i b v = Some ToolCallAllowed" and "v \<noteq> Some ToolCallAllowed"
  shows "confirms i b"
proof (cases b)
  case (UserConfirmResult rs)
  with assms confirm_allowed [of i rs v] show ?thesis by (auto simp: confirms_def list_ex_iff)
qed (use assms in \<open>auto split: if_splits option.splits\<close>)

lemma fold_allowed:
  assumes "fold (call_step i) bs v = Some ToolCallAllowed" and "v \<noteq> Some ToolCallAllowed"
  shows "list_ex (confirms i) bs"
  using assms
proof (induction bs arbitrary: v)
  case (Cons b bs)
  then show ?case
    using call_step_allowed by (cases "call_step i b v = Some ToolCallAllowed") auto
qed simp

text \<open>C25: applying an event fails exactly for a nil event and for a custom event on a message with
  an empty id, and then leaves the message as it was; an event of another reply changes nothing.\<close>

theorem apply_event_errors:
  assumes "ApplyEvent w m event = Ret ((err, m'), w')"
  shows "(err \<noteq> None) =
      (case event of None \<Rightarrow> True | Some e \<Rightarrow> MsgID m = [] \<and> GetType (Body e) = ''CUSTOM'')
    \<and> (err \<noteq> None \<or> (\<exists>e. event = Some e \<and> ReplyID e \<noteq> MsgID m) \<longrightarrow> m' = m)"
proof (cases event)
  case None
  with assms show ?thesis by (auto simp: ApplyEvent_def)
next
  case (Some e)
  show ?thesis
  proof (cases "ReplyID e = MsgID m")
    case False
    with assms Some show ?thesis
      by (cases "Body e") (auto simp: ApplyEvent_foreign ReplyID_def)
  next
    case True
    with assms Some show ?thesis
      by (cases "Body e") (auto simp: ApplyEvent_own [OF True] ReplyID_def go_bind_eq_Ret)
  qed
qed

definition demo_message :: message where
  "demo_message = \<lparr>MsgName = ''bot'', Content = [], MsgRole = RoleAssistant, MsgID = ''r1'',
     Metadata = Some [], CreatedAt = ''0'', FinishedAt = None, Usage = None\<rparr>"

definition demo_event :: "event_body \<Rightarrow> event" where
  "demo_event b = \<lparr>EventID = ''e'', EvCreatedAt = ''1'', EvMetadata = Some [], ReplyIDValue = ''r1'', Body = b\<rparr>"

lemmas demo_stream_simps = demo_message_def demo_event_def ApplyEvent_def ReplyID_def
  applyLifecycleEvent_def applyContentBlockEvent_def applyToolCallEvent_def applyToolResultEvent_def
  applyPermissionEvent_def append_block_def edit_block_def block_matches_def NewToolCallBlock_def

theorem apply_event_errors_witness:
  "\<exists>err w'. ApplyEvent demo_env demo_message (Some (demo_event (ReplyStart [] [] RoleAssistant)))
      = Ret ((err, demo_message), w') \<and> err = None"
  using apply_event_errors
    [of demo_env demo_message "Some (demo_event (ReplyStart [] [] RoleAssistant))" None demo_message demo_env]
  by (simp add: demo_stream_simps)

text \<open>applying an event never removes, reorders or retypes a block and never changes a block's
  identifier: the types and identifiers of the message's blocks before are a prefix of those after,
  for every whole stream of events.\<close>

theorem stream_keeps_blocks:
  assumes "apply_events w m es = Ret (m', w')"
  shows "prefix (keys m) (keys m') \<and> MsgID m' = MsgID m"
  using assms
proof (induction w m es rule: apply_events.induct)
  case (2 w m e es)
  then obtain err m1 w1 where one: "ApplyEvent w m (Some e) = Ret ((err, m1), w1)"
    and rest: "apply_events w1 m1 es = Ret (m', w')"
    by (auto simp: go_bind_eq_Ret)
  from "2.IH" one rest have "prefix (keys m1) (keys m') \<and> MsgID m' = MsgID m1" by blast
  with ApplyEvent_frame [OF one] show ?case by auto
qed simp

definition demo_stream :: "event list" where
  "demo_stream = map demo_event
     [TextBlockStart ''t'', ToolCallStart ''c'' ''Bash'', TextBlockDelta ''t'' ''Hel'',
      ToolCallDelta ''c'' ''{}'', TextBlockDelta ''t'' ''lo'', ToolCallEnd ''c'',
      UserConfirmResult [\<lparr>Confirmed = True,
        ConfirmToolCall = Some \<lparr>CallID = ''c'', CallName = ''Bash'', CallInput = ''{}'',
          CallState = ToolCallAsking, CallRules = [], CallExtra = None\<rparr>,
        ConfirmRules = []\<rparr>],
      ModelCallEnd 7 5, ModelCallEnd 3 2]"

definition demo_final :: message where
  "demo_final = demo_message\<lparr>
     Content := [Some (TextBlock ''Hello'' ''t''),
                 Some (ToolCallBlock ''c'' ''Bash'' ''{}'' ToolCallAllowed [] None)],
     Usage := Some \<lparr>InputTokens = 10, OutputTokens = 7\<rparr>\<rparr>"

lemma demo_run: "apply_events demo_env demo_message demo_stream = Ret (demo_final, demo_env)"
  by (simp add: demo_stream_def demo_final_def demo_stream_simps wrap64_def)

theorem stream_keeps_blocks_witness:
  "prefix (keys demo_message) (keys demo_final) \<and> MsgID demo_final = ''r1''"
  using stream_keeps_blocks [OF demo_run] by (simp add: demo_message_def)

text \<open>C4: however the events of a reply interleave, the text of a text block (the thinking of a
  thinking block, the input of a tool call) that the message did not have at the start is the
  concatenation, in order, of the deltas that name it and follow its start event, and there is no
  such block when it was never started.\<close>

theorem streamed_content_is_concatenation:
  assumes "apply_events w m es = Ret (m', w')"
  shows "(text_of i m = None \<longrightarrow>
      text_of i m' = accumulated (\<lambda>b. b = TextBlockStart i) (text_delta i) (own_bodies (MsgID m) es))
    \<and> (thinking_of i m = None \<longrightarrow>
      thinking_of i m' = accumulated (\<lambda>b. b = ThinkingBlockStart i) (thinking_delta i) (own_bodies (MsgID m) es))
    \<and> (input_of_call i m = None \<longrightarrow>
      input_of_call i m' = accumulated (starts_call i) (input_delta i) (own_bodies (MsgID m) es))"
  using text_view.view_stream [OF assms, of i] thinking_view.view_stream [OF assms, of i]
    input_view.view_stream [OF assms, of i]
  by (simp_all add: fold_acc)

theorem streamed_content_is_concatenation_witness:
  "text_of ''t'' demo_final = Some ''Hello'' \<and> input_of_call ''c'' demo_final = Some ''{}''"
proof -
  have own: "own_bodies (MsgID demo_message) demo_stream = map Body demo_stream"
    by (simp add: demo_stream_def demo_event_def demo_message_def ReplyID_def)
  have none: "text_of ''t'' demo_message = None" "input_of_call ''c'' demo_message = None"
    by (simp_all add: text_of_def input_of_call_def found_def demo_message_def FindBlock_def)
  show ?thesis
    using streamed_content_is_concatenation [OF demo_run, of "''t''"]
      streamed_content_is_concatenation [OF demo_run, of "''c''"] none
    unfolding own by (simp add: demo_stream_def demo_event_def accumulated_def)
qed

text \<open>C3: the state of a tool call after a stream is what the call's own state machine computes from
  the stream, and a call that was not there before is in state allowed only when the stream holds a
  user confirmation of that call.\<close>

theorem allowed_call_was_confirmed:
  assumes "apply_events w m es = Ret (m', w')"
  shows "state_of_call i m' = fold (call_step i) (own_bodies (MsgID m) es) (state_of_call i m)
    \<and> (state_of_call i m \<noteq> Some ToolCallAllowed \<and> state_of_call i m' = Some ToolCallAllowed \<longrightarrow>
      list_ex (confirms i) (own_bodies (MsgID m) es))"
  using state_view.view_stream [OF assms, of i]
    fold_allowed [of i "own_bodies (MsgID m) es" "state_of_call i m"] by auto

theorem allowed_call_was_confirmed_witness:
  "list_ex (confirms ''c'') (own_bodies ''r1'' demo_stream)"
proof -
  have "state_of_call ''c'' demo_message \<noteq> Some ToolCallAllowed"
    "state_of_call ''c'' demo_final = Some ToolCallAllowed" "MsgID demo_message = ''r1''"
    by (simp_all add: state_of_call_def found_def demo_message_def demo_final_def FindBlock_def
        block_matches_def)
  with allowed_call_was_confirmed [OF demo_run, of "''c''"] show ?thesis by simp
qed

text \<open>C26: the token counters of a message are the sums of the counts of its model calls, modulo the
  64-bit wrap-around, and are absent when no call was counted.\<close>

theorem usage_is_sum_of_model_calls:
  assumes "apply_events w m es = Ret (m', w')" and "Usage m = None"
  shows "case Usage m' of
      None \<Rightarrow> list_all (\<lambda>b. GetType b \<noteq> ''MODEL_CALL_END'') (own_bodies (MsgID m) es)
    | Some u \<Rightarrow> wrap64 (InputTokens u) = wrap64 (fst (sum_tokens (own_bodies (MsgID m) es)))
        \<and> wrap64 (OutputTokens u) = wrap64 (snd (sum_tokens (own_bodies (MsgID m) es)))"
proof -
  have start: "fold token_step bs None = None \<and> list_all (\<lambda>b. GetType b \<noteq> ''MODEL_CALL_END'') bs
    \<or> (\<exists>a b. fold token_step bs None = Some (a, b) \<and> wrap64 a = wrap64 (fst (sum_tokens bs))
         \<and> wrap64 b = wrap64 (snd (sum_tokens bs)))" for bs
  proof (induction bs)
    case (Cons body bs)
    show ?case
    proof (cases body)
      case (ModelCallEnd i out)
      with fold_tokens_Some [of bs i out] show ?thesis by (auto simp: sum_tokens_def)
    qed (use Cons in \<open>auto simp: sum_tokens_def\<close>)
  qed simp
  have "tokens_of m' = fold token_step (own_bodies (MsgID m) es) None"
    using token_view.view_stream [OF assms(1)] assms(2) by (simp add: tokens_of_def)
  with start [of "own_bodies (MsgID m) es"] show ?thesis
    by (auto simp: tokens_of_def split: option.split)
qed

theorem usage_is_sum_of_model_calls_witness:
  "wrap64 10 = wrap64 (fst (sum_tokens (own_bodies ''r1'' demo_stream)))"
  using usage_is_sum_of_model_calls [OF demo_run] by (simp add: demo_message_def demo_final_def)

definition appliable :: "message \<Rightarrow> event_body \<Rightarrow> bool" where
  "appliable m body =
     (case body of
        RequireUserConfirm calls \<Rightarrow> None \<notin> set calls
      | HintBlockEvent i src h bs \<Rightarrow>
          (case bs of None \<Rightarrow> True | Some bs' \<Rightarrow> \<forall>b. Some b \<in> set bs' \<longrightarrow> copyable b)
      | ExternalExecutionResult rs \<Rightarrow> \<forall>r. Some r \<in> set rs \<longrightarrow> copyable (result_block r)
      | ToolResultTextDelta i d \<Rightarrow>
          (case FindBlock (Content m) ''tool_result'' i of
             Some (ToolResultBlock j n raw (Some bs) st md) \<Rightarrow> bs = [] \<or> last bs \<noteq> None
           | _ \<Rightarrow> True)
      | _ \<Rightarrow> True)"

lemma clone_list_Panic: "clone_list bs \<noteq> Panic \<longleftrightarrow> (\<forall>b. Some b \<in> set bs \<longrightarrow> copyable b)"
proof (induction bs)
  case (Cons bo bs)
  then show ?case
    by (cases bo; cases "clone_list bs")
       (auto simp: copyable_clone, auto simp: copyable_def go_bind_def split: go.splits)
qed simp

lemma requireUserConfirm_Panic: "requireUserConfirm m cs \<noteq> Panic \<longleftrightarrow> None \<notin> set cs"
  by (induction m cs rule: requireUserConfirm.induct) auto

lemma applyExternal_Panic:
  "applyExternalExecutionResults m rs \<noteq> Panic \<longleftrightarrow> (\<forall>r. Some r \<in> set rs \<longrightarrow> copyable (result_block r))"
proof (induction rs arbitrary: m)
  case (Cons ro rs)
  then show ?case
    by (cases ro) (auto simp: copyable_clone go_bind_def copyable_def split: go.splits)
qed simp

lemma appendToolResultText_Panic:
  "appendToolResultText w b d \<noteq> Panic \<longleftrightarrow>
     (case b of ToolResultBlock j n raw (Some bs) st md \<Rightarrow> bs = [] \<or> last bs \<noteq> None | _ \<Rightarrow> True)"
  by (cases b)
     (auto simp: ensureToolResultBlocks_def append_text_block_def NewTextBlock_def newID_def
        split: option.split)

text \<open>C24: applying an event panics exactly when it belongs to the message's reply and carries a nil
  call in a confirmation request, a hint or an external result whose nested output has a nil
  element, or extends a tool output that ends in a nil element.\<close>

theorem apply_event_panics_iff:
  "(ApplyEvent w m event = Panic) =
     (\<exists>e. event = Some e \<and> ReplyID e = MsgID m \<and> \<not> appliable m (Body e))"
proof (cases event)
  case None
  then show ?thesis by (simp add: ApplyEvent_def)
next
  case (Some e)
  have bind: "(go_bind r f = Panic) = (r = Panic)" if "\<And>x. f x \<noteq> Panic" for r f
    using that by (cases r) auto
  show ?thesis
  proof (cases "ReplyID e = MsgID m")
    case False
    with Some show ?thesis by (simp add: ApplyEvent_foreign)
  next
    case True
    show ?thesis
    proof (cases "Body e")
      case (HintBlockEvent i src h bs)
      have "(hintBlockFromEvent w i src h bs = Panic) = (\<exists>bs'. bs = Some bs' \<and> clone_list bs' = Panic)"
        by (cases bs) (auto simp: hintBlockFromEvent_def NewHintBlock_def normalizeHintContent_def
            newID_def go_bind_def split: go.split)
      with HintBlockEvent Some True clone_list_Panic show ?thesis
        by (cases bs) (auto simp: ApplyEvent_own bind appliable_def split_def)
    next
      case (ToolResultTextDelta i d)
      with Some True appendToolResultText_Panic show ?thesis
        by (cases "FindBlock (Content m) ''tool_result'' i")
           (auto simp: ApplyEvent_own bind appliable_def applyToolResultEvent_def split_def)
    next
      case (RequireUserConfirm cs)
      with Some True requireUserConfirm_Panic [of m cs] show ?thesis
        by (auto simp: ApplyEvent_own bind appliable_def)
    next
      case (ExternalExecutionResult rs)
      with Some True applyExternal_Panic [of m rs] show ?thesis
        by (auto simp: ApplyEvent_own bind appliable_def)
    next
      case (ToolResultDataDelta i bid mt d u)
      with Some True show ?thesis
        by (cases "FindBlock (Content m) ''tool_result'' i")
           (auto simp: ApplyEvent_own appliable_def applyToolResultEvent_def split_def Let_def)
    qed (use Some True in \<open>simp_all add: ApplyEvent_own appliable_def\<close>)
  qed
qed

end
