(* ===== verification/Base64.thy ===== *)
theory Base64
  imports Prelude
begin

text \<open>
  Go's \<open>encoding/base64\<close> with the standard alphabet and padding (\<open>base64.StdEncoding\<close>), which
  \<open>pkg/tool/core.go\<close> uses to join streamed binary output: encoding by groups of three bytes,
  decoding by groups of four symbols with carriage returns and line feeds skipped, unused trailing
  bits ignored, and nothing allowed after padding. The round trip is proved here.
\<close>

section \<open>Sextets\<close>

definition sextet_char :: "nat \<Rightarrow> char" where
  "sextet_char n =
     (if n < 26 then char_of (65 + n)
      else if n < 52 then char_of (97 + (n - 26))
      else if n < 62 then char_of (48 + (n - 52))
      else if n = 62 then CHR ''+'' else CHR ''/'')"

definition char_sextet :: "char \<Rightarrow> nat option" where
  "char_sextet c =
     (let n = of_char c :: nat in
      if 65 \<le> n \<and> n \<le> 90 then Some (n - 65)
      else if 97 \<le> n \<and> n \<le> 122 then Some (n - 97 + 26)
      else if 48 \<le> n \<and> n \<le> 57 then Some (n - 48 + 52)
      else if n = 43 then Some 62
      else if n = 47 then Some 63
      else None)"

lemma char_sextet_char: "n < 64 \<Longrightarrow> char_sextet (sextet_char n) = Some n"
  by (auto simp: sextet_char_def char_sextet_def Let_def)

lemma char_sextet_lt: "char_sextet c = Some n \<Longrightarrow> n < 64"
  by (auto simp: char_sextet_def Let_def split: if_splits)

lemma char_sextet_pad [simp]: "char_sextet (CHR ''='') = None"
  by (simp add: char_sextet_def)

section \<open>Encoding and decoding\<close>

fun EncodeToString :: "string \<Rightarrow> string" where
  "EncodeToString [] = []"
| "EncodeToString [a] =
     (let x = of_char a :: nat
      in [sextet_char (x div 4), sextet_char (x mod 4 * 16), CHR ''='', CHR ''=''])"
| "EncodeToString [a, b] =
     (let x = of_char a :: nat; y = of_char b :: nat
      in [sextet_char (x div 4), sextet_char (x mod 4 * 16 + y div 16),
          sextet_char (y mod 16 * 4), CHR ''=''])"
| "EncodeToString (a # b # c # rest) =
     (let x = of_char a :: nat; y = of_char b :: nat; z = of_char c :: nat
      in [sextet_char (x div 4), sextet_char (x mod 4 * 16 + y div 16),
          sextet_char (y mod 16 * 4 + z div 64), sextet_char (z mod 64)] @ EncodeToString rest)"

text \<open>The three bytes of four sextets.\<close>

definition quantum :: "nat \<Rightarrow> nat \<Rightarrow> nat \<Rightarrow> nat \<Rightarrow> string" where
  "quantum p q r s =
     [char_of (p * 4 + q div 16), char_of (q mod 16 * 16 + r div 4), char_of (r mod 4 * 64 + s)]"

fun decode_quanta :: "string \<Rightarrow> string option" where
  "decode_quanta [] = Some []"
| "decode_quanta (a # b # c # d # rest) =
     (case (char_sextet a, char_sextet b) of
        (Some p, Some q) \<Rightarrow>
          (case char_sextet c of
             Some r \<Rightarrow>
               (case char_sextet d of
                  Some s \<Rightarrow> map_option (\<lambda>bytes. quantum p q r s @ bytes) (decode_quanta rest)
                | None \<Rightarrow> if d = CHR ''='' \<and> rest = [] then Some (take 2 (quantum p q r 0)) else None)
           | None \<Rightarrow> if c = CHR ''='' \<and> d = CHR ''='' \<and> rest = [] then Some (take 1 (quantum p q 0 0))
               else None)
      | _ \<Rightarrow> None)"
| "decode_quanta s = None"

definition DecodeString :: "string \<Rightarrow> string option" where
  "DecodeString s = decode_quanta (filter (\<lambda>c. c \<noteq> CHR 0x0A \<and> c \<noteq> CHR 0x0D) s)"

section \<open>Round trip\<close>

lemma sextet_char_plain:
  assumes "n < 64"
  shows "sextet_char n \<noteq> CHR 0x0A \<and> sextet_char n \<noteq> CHR 0x0D \<and> sextet_char n \<noteq> CHR ''=''"
proof -
  have "char_sextet (CHR 0x0A) = None" "char_sextet (CHR 0x0D) = None" by (simp_all add: char_sextet_def)
  with char_sextet_char [OF assms] char_sextet_pad show ?thesis by (metis option.distinct(1))
qed

lemma sextet_bounds:
  fixes x y z :: nat
  assumes "x < 256" "y < 256" "z < 256"
  shows "x div 4 < 64" "x mod 4 * 16 < 64" "y mod 16 * 4 < 64"
    "x mod 4 * 16 + y div 16 < 64" "y mod 16 * 4 + z div 64 < 64" "z mod 64 < 64"
proof -
  have "x mod 4 < 4" "y mod 16 < 16" by simp_all
  moreover have "y div 16 < 16" "z div 64 < 4" "x div 4 < 64" using assms by auto
  ultimately show "x div 4 < 64" "x mod 4 * 16 < 64" "y mod 16 * 4 < 64"
    "x mod 4 * 16 + y div 16 < 64" "y mod 16 * 4 + z div 64 < 64" "z mod 64 < 64" by simp_all
qed

lemma digit_split:
  fixes a b k :: nat
  assumes "b < k"
  shows "(a * k + b) div k = a" "(a * k + b) mod k = b"
  using assms by simp_all

lemma quantum_sextets:
  fixes x y z :: nat
  assumes "x < 256" "y < 256" "z < 256"
  shows "quantum (x div 4) (x mod 4 * 16 + y div 16) (y mod 16 * 4 + z div 64) (z mod 64)
    = [char_of x, char_of y, char_of z]"
proof -
  have "y div 16 < 16" "z div 64 < 4" using assms by auto
  then show ?thesis by (simp add: quantum_def digit_split)
qed

text \<open>Decoding what was encoded gives the bytes back, and nothing of the encoding is skipped.\<close>

lemma decode_encode: "decode_quanta (EncodeToString s) = Some s"
proof (induction s rule: EncodeToString.induct)
  case (2 a)
  show ?case
    using sextet_bounds [of "of_char a" 0 0] quantum_sextets [of "of_char a" 0 0]
    by (simp add: char_sextet_char Let_def)
next
  case (3 a b)
  show ?case
    using sextet_bounds [of "of_char a" "of_char b" 0] quantum_sextets [of "of_char a" "of_char b" 0]
    by (simp add: char_sextet_char Let_def numeral_2_eq_2)
next
  case (4 a b c rest)
  then show ?case
    using sextet_bounds [of "of_char a" "of_char b" "of_char c"]
      quantum_sextets [of "of_char a" "of_char b" "of_char c"]
    by (simp add: char_sextet_char Let_def)
qed simp

lemma encode_plain: "c \<in> set (EncodeToString s) \<Longrightarrow> c \<noteq> CHR 0x0A \<and> c \<noteq> CHR 0x0D"
proof (induction s rule: EncodeToString.induct)
  case (2 a)
  then show ?case
    using sextet_bounds [of "of_char a" 0 0] sextet_char_plain [of "of_char a mod 4 * 16"]
    by (auto simp: Let_def dest: sextet_char_plain)
next
  case (3 a b)
  then show ?case
    using sextet_bounds [of "of_char a" "of_char b" 0] sextet_char_plain [of "of_char b mod 16 * 4"]
    by (auto simp: Let_def dest: sextet_char_plain)
next
  case (4 a b d rest)
  then show ?case
    using sextet_bounds [of "of_char a" "of_char b" "of_char d"]
      sextet_char_plain [of "of_char d mod 64"]
    by (auto simp: Let_def dest: sextet_char_plain)
qed simp

lemma DecodeString_EncodeToString [simp, go_simps]: "DecodeString (EncodeToString s) = Some s"
proof -
  have "filter (\<lambda>c. c \<noteq> CHR 0x0A \<and> c \<noteq> CHR 0x0D) (EncodeToString s) = EncodeToString s"
    using encode_plain by (simp add: filter_id_conv)
  then show ?thesis by (simp add: DecodeString_def decode_encode)
qed

end
