(* ===== verification/Tool_Response.thy ===== *)
theory Tool_Response
  imports Message Base64
begin

text \<open>
  Tool chunks and the response they accumulate into: \<open>pkg/tool/core.go\<close>. A tool streams
  \<open>ToolChunk\<close>s; \<open>ToolResponse.AppendChunk\<close> merges their blocks by block identifier, joins
  adjacent text blocks, and keeps the worst state. The properties say what a streamed text or
  base64 output comes out as, and how the final state arises.
\<close>

section \<open>Chunks and responses\<close>

record tool_chunk =
  ChunkContent :: blocks
  ChunkState :: ToolResultState
  ChunkIsLast :: bool
  ChunkMetadata :: "gmap option"
  ChunkID :: string

type_synonym chunk_option = "tool_chunk \<Rightarrow> tool_chunk"

definition WithToolChunkID :: "string \<Rightarrow> chunk_option" where
  "WithToolChunkID i c = c\<lparr>ChunkID := i\<rparr>"

definition WithToolChunkState :: "ToolResultState \<Rightarrow> chunk_option" where
  "WithToolChunkState st c = c\<lparr>ChunkState := st\<rparr>"

definition WithToolChunkIsLast :: "bool \<Rightarrow> chunk_option" where
  "WithToolChunkIsLast b c = c\<lparr>ChunkIsLast := b\<rparr>"

definition WithToolChunkMetadata :: "gmap option \<Rightarrow> chunk_option" where
  "WithToolChunkMetadata md c = c\<lparr>ChunkMetadata := CloneAnyMap md\<rparr>"

definition NewToolChunk :: "env \<Rightarrow> blocks \<Rightarrow> chunk_option list \<Rightarrow> (tool_chunk \<times> env) go" where
  "NewToolChunk w content opts =
     go_bind (clone_list content) (\<lambda>content'.
       let (i, w1) = newID w;
           c0 = \<lparr>ChunkContent = content', ChunkState = ToolResultRunning, ChunkIsLast = True,
                 ChunkMetadata = Some [], ChunkID = i\<rparr>;
           c1 = fold (\<lambda>opt c. opt c) opts c0;
           (c2, w2) = (if ChunkID c1 = [] then let (j, w') = newID w1 in (c1\<lparr>ChunkID := j\<rparr>, w')
                       else (c1, w1));
           c3 = (if ChunkState c2 = ToolResultOther [] then c2\<lparr>ChunkState := ToolResultRunning\<rparr> else c2);
           c4 = (case ChunkMetadata c3 of None \<Rightarrow> c3\<lparr>ChunkMetadata := Some []\<rparr> | Some _ \<Rightarrow> c3)
       in Ret (c4, w2))"

record tool_response =
  RespContent :: blocks
  RespState :: ToolResultState
  RespMetadata :: "gmap option"
  RespID :: string

text \<open>The options of \<open>NewToolResponse\<close> are the identifiers \<open>WithToolResponseID\<close> sets.\<close>

definition WithToolResponseID :: "string \<Rightarrow> tool_response \<Rightarrow> tool_response" where
  "WithToolResponseID i r = r\<lparr>RespID := i\<rparr>"

definition NewToolResponse :: "env \<Rightarrow> (tool_response \<Rightarrow> tool_response) list \<Rightarrow> tool_response \<times> env" where
  "NewToolResponse w opts =
     (let (i, w1) = newID w;
          r = fold (\<lambda>opt r. opt r) opts
                \<lparr>RespContent = [], RespState = ToolResultSuccess, RespMetadata = Some [], RespID = i\<rparr>
      in if RespID r = [] then let (j, w2) = newID w1 in (r\<lparr>RespID := j\<rparr>, w2) else (r, w1))"

section \<open>Accumulation\<close>

fun stateRank :: "ToolResultState \<Rightarrow> nat" where
  "stateRank ToolResultError = 4"
| "stateRank ToolResultInterrupted = 3"
| "stateRank ToolResultDenied = 2"
| "stateRank ToolResultSuccess = 1"
| "stateRank _ = 0"

definition mergeBase64Data :: "string \<Rightarrow> string \<Rightarrow> string" where
  "mergeBase64Data target chunk =
     (case (DecodeString target, DecodeString chunk) of
        (Some t, Some c) \<Rightarrow> EncodeToString (t @ c)
      | _ \<Rightarrow> target @ chunk)"

fun set_block_id :: "string \<Rightarrow> block \<Rightarrow> block" where
  "set_block_id j (TextBlock t i) = TextBlock t j"
| "set_block_id j (ThinkingBlock t i x) = ThinkingBlock t j x"
| "set_block_id j (HintBlock h bs i src) = HintBlock h bs j src"
| "set_block_id j (ToolCallBlock i n inp st rs x) = ToolCallBlock j n inp st rs x"
| "set_block_id j (ToolResultBlock i n raw bs st md) = ToolResultBlock j n raw bs st md"
| "set_block_id j (DataBlock i src n) = DataBlock j src n"

definition assignNewBlockID :: "env \<Rightarrow> block \<Rightarrow> block \<times> env" where
  "assignNewBlockID w b = (let (i, w') = newID w in (set_block_id i b, w'))"

text \<open>A block that cannot be joined to its target is appended under a new identifier.\<close>

definition append_copy :: "env \<Rightarrow> tool_response \<Rightarrow> block \<Rightarrow> ((error option \<times> tool_response) \<times> env) go" where
  "append_copy w r b =
     go_bind (clone_block b) (\<lambda>copied.
       let (b', w') = assignNewBlockID w copied
       in Ret ((None, r\<lparr>RespContent := RespContent r @ [Some b']\<rparr>), w'))"

definition appendContentBlock ::
    "env \<Rightarrow> tool_response \<Rightarrow> nat \<Rightarrow> block \<Rightarrow> ((error option \<times> tool_response) \<times> env) go" where
  "appendContentBlock w r index chunkBlock =
     (case RespContent r ! index of
        Some (TextBlock t i) \<Rightarrow>
          (case chunkBlock of
             TextBlock t' i' \<Rightarrow>
               Ret ((None, r\<lparr>RespContent := (RespContent r)[index := Some (TextBlock (t @ t') i)]\<rparr>), w)
           | _ \<Rightarrow> append_copy w r chunkBlock)
      | Some (DataBlock i src name) \<Rightarrow>
          (case chunkBlock of
             DataBlock i' src' name' \<Rightarrow>
               (case src of
                  Some (Base64Source d mt) \<Rightarrow>
                    (case src' of
                       Some (Base64Source d' mt') \<Rightarrow>
                         Ret ((None, r\<lparr>RespContent := (RespContent r)[index := Some (DataBlock i
                            (Some (Base64Source (mergeBase64Data d d') (if mt' \<noteq> [] then mt' else mt)))
                            (case name' of None \<Rightarrow> name | Some n \<Rightarrow> Some n))]\<rparr>), w)
                     | _ \<Rightarrow> Ret ((Some (Err (''agentscope: cannot append data block with different source type id ''
                              @ go_quote i)), r), w))
                | _ \<Rightarrow> Ret ((Some (Err (''agentscope: cannot append data block with non-base64 source id ''
                         @ go_quote i)), r), w))
           | _ \<Rightarrow> append_copy w r chunkBlock)
      | _ \<Rightarrow> append_copy w r chunkBlock)"

text \<open>\<open>currentIDs\<close>: the last index of each non-empty block identifier.\<close>

fun current_ids :: "nat \<Rightarrow> blocks \<Rightarrow> (string \<rightharpoonup> nat) \<Rightarrow> (string \<rightharpoonup> nat)" where
  "current_ids index [] ids = ids"
| "current_ids index (None # bs) ids = current_ids (Suc index) bs ids"
| "current_ids index (Some b # bs) ids =
     current_ids (Suc index) bs (if BlockID b = [] then ids else ids(BlockID b \<mapsto> index))"

fun append_blocks ::
    "env \<Rightarrow> tool_response \<Rightarrow> (string \<rightharpoonup> nat) \<Rightarrow> blocks \<Rightarrow> ((error option \<times> tool_response) \<times> env) go" where
  "append_blocks w r ids [] = Ret ((None, r), w)"
| "append_blocks w r ids (None # bs) = append_blocks w r ids bs"
| "append_blocks w r ids (Some b # bs) =
     (case ids (BlockID b) of
        Some index \<Rightarrow>
          if BlockID b \<noteq> []
          then go_bind (appendContentBlock w r index b) (\<lambda>((err, r'), w').
                 case err of Some e \<Rightarrow> Ret ((Some e, r'), w') | None \<Rightarrow> append_blocks w' r' ids bs)
          else go_bind (clone_block b) (\<lambda>b'.
                 let r' = r\<lparr>RespContent := RespContent r @ [Some b']\<rparr>
                 in append_blocks w r' (ids(BlockID b \<mapsto> length (RespContent r))) bs)
      | None \<Rightarrow> go_bind (clone_block b) (\<lambda>b'.
                 let r' = r\<lparr>RespContent := RespContent r @ [Some b']\<rparr>
                 in append_blocks w r' (ids(BlockID b \<mapsto> length (RespContent r))) bs))"

text \<open>\<open>mergeConsecutiveTextBlocks\<close>: the loop over the blocks with the list merged so far.\<close>

fun merge_loop :: "blocks \<Rightarrow> blocks \<Rightarrow> blocks" where
  "merge_loop merged [] = merged"
| "merge_loop merged (b # bs) =
     (case b of
        Some (TextBlock t i) \<Rightarrow>
          if merged = [] then merge_loop (merged @ [b]) bs
          else (case last merged of
                  Some (TextBlock t0 i0) \<Rightarrow> merge_loop (butlast merged @ [Some (TextBlock (t0 @ t) i0)]) bs
                | _ \<Rightarrow> merge_loop (merged @ [b]) bs)
      | _ \<Rightarrow> merge_loop (merged @ [b]) bs)"

definition mergeConsecutiveTextBlocks :: "blocks \<Rightarrow> blocks" where
  "mergeConsecutiveTextBlocks bs = (if length bs < 2 then bs else merge_loop [] bs)"

definition AppendChunk ::
    "env \<Rightarrow> tool_response option \<Rightarrow> tool_chunk option \<Rightarrow> ((error option \<times> tool_response option) \<times> env) go" where
  "AppendChunk w response chunk =
     (case response of
        None \<Rightarrow> Ret ((Some (Err ''agentscope: nil tool response''), None), w)
      | Some r \<Rightarrow>
          (case chunk of
             None \<Rightarrow> Ret ((None, Some r), w)
           | Some c \<Rightarrow>
               go_bind (append_blocks w r (current_ids 0 (RespContent r) Map.empty) (ChunkContent c))
                 (\<lambda>((err, r1), w1).
                    case err of
                      Some e \<Rightarrow> Ret ((Some e, Some r1), w1)
                    | None \<Rightarrow>
                        let r2 = (if stateRank (RespState r1) < stateRank (ChunkState c)
                                  then r1\<lparr>RespState := ChunkState c\<rparr> else r1);
                            md = (case RespMetadata r2 of None \<Rightarrow> [] | Some kvs \<Rightarrow> kvs);
                            new = (case ChunkMetadata c of None \<Rightarrow> [] | Some kvs \<Rightarrow> kvs);
                            r3 = r2\<lparr>RespMetadata :=
                              Some (gmap_merge md (map (\<lambda>p. (fst p, CloneAny (snd p))) new))\<rparr>
                        in Ret ((None, Some (r3\<lparr>RespContent :=
                             mergeConsecutiveTextBlocks (RespContent r3)\<rparr>)), w1))))"

definition response_GetTextContent :: "tool_response option \<Rightarrow> string list \<Rightarrow> string option" where
  "response_GetTextContent response separator =
     (case response of None \<Rightarrow> None | Some r \<Rightarrow> GetTextContent (RespContent r) separator)"

text \<open>The loop of \<open>RunTool\<close> over the chunks of a stream: the first error ends it.\<close>

fun append_chunks :: "env \<Rightarrow> tool_response \<Rightarrow> tool_chunk list \<Rightarrow> ((error + tool_response) \<times> env) go" where
  "append_chunks w r [] = Ret (Inr r, w)"
| "append_chunks w r (c # cs) =
     go_bind (AppendChunk w (Some r) (Some c)) (\<lambda>((err, r'), w').
       case err of
         Some e \<Rightarrow> Ret (Inl e, w')
       | None \<Rightarrow> (case r' of None \<Rightarrow> Panic | Some r1 \<Rightarrow> append_chunks w' r1 cs))"

section \<open>Lemmas\<close>

definition is_text :: "block option \<Rightarrow> bool" where
  "is_text bo = (case bo of Some (TextBlock t i) \<Rightarrow> True | _ \<Rightarrow> False)"

fun no_adjacent_texts :: "blocks \<Rightarrow> bool" where
  "no_adjacent_texts (a # b # bs) = (\<not> (is_text a \<and> is_text b) \<and> no_adjacent_texts (b # bs))"
| "no_adjacent_texts bs = True"

lemma no_adjacent_snoc:
  "no_adjacent_texts (bs @ [b]) \<longleftrightarrow> no_adjacent_texts bs \<and> (bs = [] \<or> \<not> (is_text (last bs) \<and> is_text b))"
  by (induction bs rule: no_adjacent_texts.induct) auto

lemma merge_loop_adjacent:
  "no_adjacent_texts merged \<Longrightarrow> no_adjacent_texts (merge_loop merged bs)"
proof (induction merged bs rule: merge_loop.induct)
  case (2 merged b bs)
  show ?case
  proof (cases "is_text b")
    case False
    with 2 show ?thesis
      by (auto simp: is_text_def no_adjacent_snoc split: option.splits block.splits)
  next
    case True
    then obtain t i where b: "b = Some (TextBlock t i)"
      by (auto simp: is_text_def split: option.splits block.splits)
    show ?thesis
    proof (cases "merged = [] \<or> \<not> is_text (last merged)")
      case True
      with 2 b show ?thesis
        by (auto simp: is_text_def no_adjacent_snoc split: option.splits block.splits)
    next
      case False
      then obtain t0 i0 where last: "merged \<noteq> []" "last merged = Some (TextBlock t0 i0)"
        by (auto simp: is_text_def split: option.splits block.splits)
      have "no_adjacent_texts (butlast merged @ [Some (TextBlock (t0 @ t) i0)])"
        using "2.prems" last
        by (cases merged rule: rev_cases) (auto simp: no_adjacent_snoc is_text_def)
      with 2 b last show ?thesis by simp
    qed
  qed
qed simp

lemma mergeConsecutive_adjacent: "no_adjacent_texts (mergeConsecutiveTextBlocks bs)"
proof (cases "length bs < 2")
  case True
  then show ?thesis
    by (cases bs rule: no_adjacent_texts.cases) (auto simp: mergeConsecutiveTextBlocks_def)
qed (simp add: mergeConsecutiveTextBlocks_def merge_loop_adjacent)

text \<open>Merging keeps the text.\<close>

definition all_text :: "blocks \<Rightarrow> string" where
  "all_text bs = concat (texts bs)"

lemma texts_append [simp]: "texts (a @ b) = texts a @ texts b"
  by (induction a rule: texts.induct) auto

lemma all_text_simps [simp]:
  "all_text [] = []"
  "all_text (a @ b) = all_text a @ all_text b"
  "all_text [Some (TextBlock t i)] = t"
  by (simp_all add: all_text_def)

lemma all_text_merge_loop: "all_text (merge_loop merged bs) = all_text merged @ all_text bs"
proof (induction merged bs rule: merge_loop.induct)
  case (2 merged b bs)
  have split: "all_text (b # bs) = all_text [b] @ all_text bs"
    using all_text_simps(2) [of "[b]" bs] by simp
  show ?case
  proof (cases "merged \<noteq> [] \<and> is_text b \<and> is_text (last merged)")
    case True
    then obtain t i t0 i0 where b: "b = Some (TextBlock t i)" "last merged = Some (TextBlock t0 i0)"
      and ne: "merged \<noteq> []"
      by (auto simp: is_text_def split: option.splits block.splits)
    from ne b have m: "merged = butlast merged @ [Some (TextBlock t0 i0)]" by (metis append_butlast_last_id)
    have "all_text merged = all_text (butlast merged) @ t0"
      by (subst m) simp
    with 2 b ne split show ?thesis by simp
  next
    case False
    with 2 split show ?thesis
      by (auto simp: is_text_def split: option.splits block.splits)
  qed
qed simp

lemma all_text_mergeConsecutive [simp]: "all_text (mergeConsecutiveTextBlocks bs) = all_text bs"
  by (simp add: mergeConsecutiveTextBlocks_def all_text_merge_loop)

text \<open>What the rest of \<open>AppendChunk\<close> does once the blocks are in.\<close>

definition chunk_joined :: "tool_response \<Rightarrow> tool_chunk \<Rightarrow> tool_response" where
  "chunk_joined r c = r\<lparr>
     RespState := (if stateRank (RespState r) < stateRank (ChunkState c) then ChunkState c else RespState r),
     RespMetadata := Some (gmap_merge (case RespMetadata r of None \<Rightarrow> [] | Some kvs \<Rightarrow> kvs)
       (case ChunkMetadata c of None \<Rightarrow> [] | Some kvs \<Rightarrow> kvs)),
     RespContent := mergeConsecutiveTextBlocks (RespContent r)\<rparr>"

lemma chunk_joined_simps [simp]:
  "RespContent (chunk_joined r c) = mergeConsecutiveTextBlocks (RespContent r)"
  "RespID (chunk_joined r c) = RespID r"
  "stateRank (RespState (chunk_joined r c)) = max (stateRank (RespState r)) (stateRank (ChunkState c))"
  "RespState (chunk_joined r c) \<in> {RespState r, ChunkState c}"
  by (auto simp: chunk_joined_def)

lemma AppendChunk_Some:
  "AppendChunk w (Some r) (Some c) =
     go_bind (append_blocks w r (current_ids 0 (RespContent r) Map.empty) (ChunkContent c))
       (\<lambda>((err, r1), w1). case err of
          Some e \<Rightarrow> Ret ((Some e, Some r1), w1)
        | None \<Rightarrow> Ret ((None, Some (chunk_joined r1 c)), w1))"
  unfolding AppendChunk_def chunk_joined_def
  by (simp add: Let_def) (intro arg_cong2 [where f = go_bind] refl ext, auto split: option.split)

text \<open>\<open>append_blocks\<close> changes the content only.\<close>

lemma append_copy_frame:
  "append_copy w r b = Ret ((err, r'), w') \<Longrightarrow> RespState r' = RespState r \<and> RespID r' = RespID r"
  by (auto simp: append_copy_def go_bind_eq_Ret assignNewBlockID_def newID_def)

lemma appendContentBlock_frame:
  "appendContentBlock w r index b = Ret ((err, r'), w') \<Longrightarrow>
     RespState r' = RespState r \<and> RespID r' = RespID r"
  unfolding appendContentBlock_def
  by (auto split: option.splits block.splits data_source.splits dest: append_copy_frame)

lemma append_blocks_frame:
  "append_blocks w r ids bs = Ret ((err, r'), w') \<Longrightarrow> RespState r' = RespState r \<and> RespID r' = RespID r"
proof (induction w r ids bs arbitrary: err r' w' rule: append_blocks.induct)
  case (3 w r ids b bs)
  show ?case
  proof (cases "ids (BlockID b)")
    case None
    with 3 show ?thesis by (fastforce simp: go_bind_eq_Ret Let_def)
  next
    case (Some index)
    show ?thesis
    proof (cases "BlockID b = []")
      case True
      with 3 Some show ?thesis by (fastforce simp: go_bind_eq_Ret Let_def)
    next
      case False
      with 3 Some obtain err1 r1 w1 where one: "appendContentBlock w r index b = Ret ((err1, r1), w1)"
        and rest: "(case err1 of Some e \<Rightarrow> Ret ((Some e, r1), w1) | None \<Rightarrow> append_blocks w1 r1 ids bs)
          = Ret ((err, r'), w')"
        by (auto simp: go_bind_eq_Ret)
      have IH: "append_blocks w1 r1 ids bs = Ret ((err, r'), w') \<Longrightarrow>
          RespState r' = RespState r1 \<and> RespID r' = RespID r1" if "err1 = None"
        using "3.IH"(2) Some False one that by fastforce
      from rest IH appendContentBlock_frame [OF one] show ?thesis by (cases err1) auto
    qed
  qed
qed auto

section \<open>Properties\<close>

lemma append_chunks_worst:
  "append_chunks w r cs = Ret (Inr r', w') \<Longrightarrow>
     stateRank (RespState r') = fold max (map (\<lambda>x. stateRank (ChunkState x)) cs) (stateRank (RespState r))
     \<and> RespState r' \<in> insert (RespState r) (set (map ChunkState cs)) \<and> RespID r' = RespID r
     \<and> (cs \<noteq> [] \<longrightarrow> no_adjacent_texts (RespContent r'))"
proof (induction w r cs rule: append_chunks.induct)
  case (2 w r c cs)
  from "2.prems" obtain r1 w2
    where blocks: "append_blocks w r (current_ids 0 (RespContent r) Map.empty) (ChunkContent c) = Ret ((None, r1), w2)"
      and step: "AppendChunk w (Some r) (Some c) = Ret ((None, Some (chunk_joined r1 c)), w2)"
      and rest: "append_chunks w2 (chunk_joined r1 c) cs = Ret (Inr r', w')"
    by (auto simp: AppendChunk_Some go_bind_eq_Ret split: option.splits prod.splits)
  define r2 where "r2 = chunk_joined r1 c"
  have r2_state: "stateRank (RespState r2) = max (stateRank (RespState r)) (stateRank (ChunkState c))"
    "RespState r2 \<in> {RespState r, ChunkState c}" "RespID r2 = RespID r"
    "no_adjacent_texts (RespContent r2)"
    using append_blocks_frame [OF blocks] chunk_joined_simps(4) [of r1 c]
    by (auto simp: r2_def mergeConsecutive_adjacent)
  have IH: "stateRank (RespState r') = fold max (map (\<lambda>x. stateRank (ChunkState x)) cs) (stateRank (RespState r2))
     \<and> RespState r' \<in> insert (RespState r2) (set (map ChunkState cs)) \<and> RespID r' = RespID r2
     \<and> (cs \<noteq> [] \<longrightarrow> no_adjacent_texts (RespContent r'))"
    using "2.IH" step rest unfolding r2_def by blast
  have last: "r' = r2" if "cs = []" using rest that by (simp add: r2_def)
  show ?case using IH r2_state last by (auto simp: max.commute)
qed simp

text \<open>the state of an accumulated response is the worst of the states of its chunks and its own
  at the start, in the order success, denied, interrupted, error, and no two neighbouring blocks of
  it are text blocks.\<close>

theorem response_state_is_worst:
  assumes "append_chunks w r cs = Ret (Inr r', w')"
  shows "stateRank (RespState r') = fold max (map (\<lambda>x. stateRank (ChunkState x)) cs) (stateRank (RespState r))
     \<and> RespState r' \<in> insert (RespState r) (set (map ChunkState cs))
     \<and> (cs \<noteq> [] \<longrightarrow> no_adjacent_texts (RespContent r'))"
  using append_chunks_worst [OF assms] by simp

definition demo_text_chunk :: "string \<Rightarrow> string \<Rightarrow> ToolResultState \<Rightarrow> tool_chunk" where
  "demo_text_chunk i t st =
     \<lparr>ChunkContent = [Some (TextBlock t i)], ChunkState = st, ChunkIsLast = False,
      ChunkMetadata = Some [], ChunkID = ''c''\<rparr>"

definition demo_response :: tool_response where
  "demo_response = \<lparr>RespContent = [], RespState = ToolResultSuccess, RespMetadata = Some [], RespID = ''call''\<rparr>"

lemmas chunk_eval_simps = AppendChunk_def current_ids.simps append_blocks.simps appendContentBlock_def
  mergeConsecutiveTextBlocks_def gmap_merge_def

theorem response_state_is_worst_witness:
  "\<exists>r' w'. append_chunks demo_env demo_response
      [demo_text_chunk ''a'' ''x'' ToolResultError, demo_text_chunk ''b'' ''y'' ToolResultSuccess] = Ret (Inr r', w')
    \<and> stateRank (RespState r') = 4"
proof -
  let ?cs = "[demo_text_chunk ''a'' ''x'' ToolResultError, demo_text_chunk ''b'' ''y'' ToolResultSuccess]"
  obtain r' w' where run: "append_chunks demo_env demo_response ?cs = Ret (Inr r', w')"
    by (simp add: demo_text_chunk_def demo_response_def chunk_eval_simps)
  from response_state_is_worst [OF run] have "stateRank (RespState r') = 4"
    by (simp add: demo_text_chunk_def demo_response_def)
  with run show ?thesis by blast
qed

definition chunk_text :: "tool_chunk \<Rightarrow> string option" where
  "chunk_text c = (case ChunkContent c of [Some (TextBlock t i)] \<Rightarrow> Some t | _ \<Rightarrow> None)"

lemma chunk_textD: "chunk_text c = Some t \<Longrightarrow> \<exists>i. ChunkContent c = [Some (TextBlock t i)]"
  by (auto simp: chunk_text_def split: list.splits option.splits block.splits)

lemma text_chunk_step:
  assumes "chunk_text c = Some t" and "RespContent r = [Some (TextBlock t0 i0)]"
  shows "\<exists>r'. AppendChunk w (Some r) (Some c) = Ret ((None, Some r'), w)
    \<and> RespContent r' = [Some (TextBlock (t0 @ t) i0)]"
proof -
  from chunk_textD [OF assms(1)] obtain i where c: "ChunkContent c = [Some (TextBlock t i)]" by blast
  show ?thesis
    by (cases "i = []"; cases "i = i0")
       (auto simp: AppendChunk_Some c assms(2) appendContentBlock_def mergeConsecutiveTextBlocks_def)
qed

lemma text_stream:
  assumes "list_all (\<lambda>c. chunk_text c \<noteq> None) cs" and "RespContent r = [Some (TextBlock t0 i0)]"
  shows "\<exists>r' w'. append_chunks w r cs = Ret (Inr r', w')
    \<and> RespContent r' = [Some (TextBlock (t0 @ concat (map (the \<circ> chunk_text) cs)) i0)]"
  using assms
proof (induction cs arbitrary: r t0 w)
  case (Cons c cs)
  then obtain t where t: "chunk_text c = Some t" by auto
  from text_chunk_step [OF t Cons.prems(2)] obtain r1
    where r1: "AppendChunk w (Some r) (Some c) = Ret ((None, Some r1), w)"
      "RespContent r1 = [Some (TextBlock (t0 @ t) i0)]" by blast
  have "list_all (\<lambda>c. chunk_text c \<noteq> None) cs" using Cons.prems(1) by simp
  from Cons.IH [OF this r1(2), of w] r1(1) t show ?case by auto
qed simp

text \<open>C29: a tool that streams its text in chunks of one text block each, under whatever
  identifiers, always yields a response, and its content is a single text block with the
  concatenation of the streamed texts.\<close>

theorem streamed_text_output:
  assumes "list_all (\<lambda>c. chunk_text c \<noteq> None) cs" and "cs \<noteq> []" and "RespContent r = []"
  shows "\<exists>r' w' i. append_chunks w r cs = Ret (Inr r', w')
    \<and> RespContent r' = [Some (TextBlock (concat (map (the \<circ> chunk_text) cs)) i)]"
proof -
  from assms(2) obtain c cs' where cs: "cs = c # cs'" by (cases cs) auto
  with assms(1) obtain t where t: "chunk_text c = Some t" by auto
  from chunk_textD [OF t] obtain i where c: "ChunkContent c = [Some (TextBlock t i)]" by blast
  obtain r1 where r1: "AppendChunk w (Some r) (Some c) = Ret ((None, Some r1), w)"
      "RespContent r1 = [Some (TextBlock t i)]"
    by (simp add: AppendChunk_Some c assms(3) mergeConsecutiveTextBlocks_def)
  have "list_all (\<lambda>c. chunk_text c \<noteq> None) cs'" using assms(1) cs by simp
  from text_stream [OF this r1(2), of w] r1(1) t show ?thesis
    by (fastforce simp: cs)
qed

theorem streamed_text_output_witness:
  "\<exists>r' w' i. append_chunks demo_env demo_response
      [demo_text_chunk ''a'' ''Hel'' ToolResultRunning, demo_text_chunk ''b'' ''lo'' ToolResultSuccess] = Ret (Inr r', w')
    \<and> RespContent r' = [Some (TextBlock ''Hello'' i)]"
  using streamed_text_output
    [of "[demo_text_chunk ''a'' ''Hel'' ToolResultRunning, demo_text_chunk ''b'' ''lo'' ToolResultSuccess]"
        demo_response demo_env]
  by (simp add: demo_text_chunk_def demo_response_def chunk_text_def)

definition data_chunk :: "string \<Rightarrow> string \<Rightarrow> string \<Rightarrow> tool_chunk \<Rightarrow> bool" where
  "data_chunk i mt bytes c \<longleftrightarrow>
     ChunkContent c = [Some (DataBlock i (Some (Base64Source (EncodeToString bytes) mt)) None)]"

lemma data_chunk_step:
  assumes "data_chunk i mt bytes c" and "i \<noteq> []"
    and "RespContent r = [Some (DataBlock i (Some (Base64Source (EncodeToString b0) mt)) None)]"
  shows "\<exists>r'. AppendChunk w (Some r) (Some c) = Ret ((None, Some r'), w)
    \<and> RespContent r' = [Some (DataBlock i (Some (Base64Source (EncodeToString (b0 @ bytes)) mt)) None)]"
  using assms
  by (auto simp: AppendChunk_Some data_chunk_def appendContentBlock_def mergeBase64Data_def
      mergeConsecutiveTextBlocks_def)

lemma data_stream:
  assumes "list_all2 (data_chunk i mt) bss cs" and "i \<noteq> []"
    and "RespContent r = [Some (DataBlock i (Some (Base64Source (EncodeToString b0) mt)) None)]"
  shows "\<exists>r' w'. append_chunks w r cs = Ret (Inr r', w')
    \<and> RespContent r' = [Some (DataBlock i (Some (Base64Source (EncodeToString (b0 @ concat bss)) mt)) None)]"
  using assms
proof (induction bss cs arbitrary: r b0 w rule: list_all2_induct)
  case (Cons bytes bss c cs)
  from data_chunk_step [OF Cons.hyps(1) \<open>i \<noteq> []\<close> Cons.prems(2)] obtain r1
    where r1: "AppendChunk w (Some r) (Some c) = Ret ((None, Some r1), w)"
      "RespContent r1 = [Some (DataBlock i (Some (Base64Source (EncodeToString (b0 @ bytes)) mt)) None)]"
    by blast
  from Cons.IH [OF \<open>i \<noteq> []\<close> r1(2), of w] r1(1) show ?case by fastforce
qed simp

text \<open>C30: a tool that streams one base64 data block in chunks under one identifier, each chunk the
  encoding of some bytes, yields one data block that holds the encoding of all the bytes in order
  (the encodings are joined as bytes, not as text).\<close>

theorem streamed_data_output:
  assumes "list_all2 (data_chunk i mt) bss cs" and "cs \<noteq> []" and "i \<noteq> []" and "RespContent r = []"
  shows "\<exists>r' w'. append_chunks w r cs = Ret (Inr r', w')
    \<and> RespContent r' = [Some (DataBlock i (Some (Base64Source (EncodeToString (concat bss)) mt)) None)]"
proof -
  from assms(1,2) obtain bytes bss' c cs' where cs: "bss = bytes # bss'" "cs = c # cs'"
    and c: "data_chunk i mt bytes c" and rest: "list_all2 (data_chunk i mt) bss' cs'"
    by (cases cs) (auto simp: list_all2_Cons2)
  obtain r1 where r1: "AppendChunk w (Some r) (Some c) = Ret ((None, Some r1), w)"
      "RespContent r1 = [Some (DataBlock i (Some (Base64Source (EncodeToString bytes) mt)) None)]"
    using c by (simp add: AppendChunk_Some data_chunk_def assms(4) mergeConsecutiveTextBlocks_def)
  from data_stream [OF rest assms(3) r1(2), of w] r1(1) show ?thesis
    by (fastforce simp: cs)
qed

definition demo_data_chunk :: "string \<Rightarrow> tool_chunk" where
  "demo_data_chunk bytes =
     \<lparr>ChunkContent = [Some (DataBlock ''img'' (Some (Base64Source (EncodeToString bytes) ''image/png'')) None)],
      ChunkState = ToolResultRunning, ChunkIsLast = False, ChunkMetadata = Some [], ChunkID = ''c''\<rparr>"

theorem streamed_data_output_witness:
  "\<exists>r' w'. append_chunks demo_env demo_response [demo_data_chunk ''ab'', demo_data_chunk ''cde''] = Ret (Inr r', w')
    \<and> RespContent r' = [Some (DataBlock ''img'' (Some (Base64Source (EncodeToString ''abcde'') ''image/png'')) None)]"
  using streamed_data_output [of "''img''" "''image/png''" "[''ab'', ''cde'']"
      "[demo_data_chunk ''ab'', demo_data_chunk ''cde'']" demo_response demo_env]
  by (simp add: data_chunk_def demo_data_chunk_def demo_response_def)

end
