(* ===== verification/Tasks.thy ===== *)
theory Tasks
  imports Tool_Response
begin

text \<open>
  The task list of an agent and the four tools that manage it: \<open>pkg/state/task.go\<close> and
  \<open>pkg/tool/task\<close> (\<open>base.go\<close>, \<open>helpers.go\<close>, \<open>create.go\<close>, \<open>get.go\<close>, \<open>list.go\<close>,
  \<open>update.go\<close>). The tools read and write the task context of an \<open>AgentState\<close>: of that state
  the model keeps the one pointer they use. A nil and an empty slice of tasks or identifiers are
  not told apart, as the code never does. The texts of \<open>descriptions.go\<close> and the JSON schemas
  are not modelled: a tool's description is an argument.
\<close>

section \<open>Tasks and the task context\<close>

datatype TaskState = TaskPending | TaskInProgress | TaskCompleted | TaskOther string

fun task_state_text :: "TaskState \<Rightarrow> string" where
  "task_state_text TaskPending = ''pending''"
| "task_state_text TaskInProgress = ''in_progress''"
| "task_state_text TaskCompleted = ''completed''"
| "task_state_text (TaskOther s) = s"

text \<open>The conversion \<open>TaskState(status)\<close> of a string.\<close>

definition TaskState_of :: "string \<Rightarrow> TaskState" where
  "TaskState_of s =
     (if s = ''pending'' then TaskPending
      else if s = ''in_progress'' then TaskInProgress
      else if s = ''completed'' then TaskCompleted
      else TaskOther s)"

definition isValidTaskState :: "TaskState \<Rightarrow> bool" where
  "isValidTaskState st = (case st of TaskOther s \<Rightarrow> False | _ \<Rightarrow> True)"

record task =
  TaskID :: string
  Subject :: string
  Description :: string
  TaskMetadata :: "gmap option"
  TaskCreatedAt :: string
  StateOf :: TaskState
  Owner :: "string option"
  Blocks :: "string list"
  BlockedBy :: "string list"

definition NewTask :: "env \<Rightarrow> string \<Rightarrow> string \<Rightarrow> gmap option \<Rightarrow> task \<times> env" where
  "NewTask w subject description metadata =
     (let (t, w1) = nowISO w; (i, w2) = newID w1
      in (\<lparr>TaskID = i, Subject = subject, Description = description,
           TaskMetadata = CloneAnyMap metadata, TaskCreatedAt = t, StateOf = TaskPending,
           Owner = None, Blocks = [], BlockedBy = []\<rparr>, w2))"

definition task_Validate :: "task \<Rightarrow> error option" where
  "task_Validate t =
     (if Subject t = [] then Some (Err ''agentscope: task subject is empty'')
      else if TaskID t = [] then Some (Err ''agentscope: task id is empty'')
      else if \<not> isValidTaskState (StateOf t)
      then Some (Err (''agentscope: invalid task state '' @ go_quote (task_state_text (StateOf t))))
      else None)"

definition task_Clone :: "task \<Rightarrow> task" where
  "task_Clone t = t\<lparr>TaskMetadata := CloneAnyMap (TaskMetadata t)\<rparr>"

lemma task_Clone_id [simp]: "task_Clone t = t"
  by (simp add: task_Clone_def)

definition AddTask :: "task list \<Rightarrow> task \<Rightarrow> task list" where
  "AddTask ts t = ts @ [task_Clone t]"

definition GetTask :: "task list option \<Rightarrow> string \<Rightarrow> task option" where
  "GetTask c i = (case c of None \<Rightarrow> None | Some ts \<Rightarrow> find (\<lambda>t. TaskID t = i) ts)"

definition UpdateTaskState :: "task list \<Rightarrow> string \<Rightarrow> TaskState \<Rightarrow> error option \<times> task list" where
  "UpdateTaskState ts i st =
     (if \<not> isValidTaskState st
      then (Some (Err (''agentscope: invalid task state '' @ go_quote (task_state_text st))), ts)
      else case GetTask (Some ts) i of
        None \<Rightarrow> (Some (Err (''agentscope: task '' @ go_quote i @ '' not found'')), ts)
      | Some t \<Rightarrow> (None, update_first (\<lambda>t. TaskID t = i) (\<lambda>t. t\<lparr>StateOf := st\<rparr>) ts))"

definition TaskContext_Clone :: "task list option \<Rightarrow> task list option" where
  "TaskContext_Clone c = map_option (map task_Clone) c"

section \<open>The tools' helpers\<close>

text \<open>The agent state: nil, or its task context pointer, which may be nil.\<close>

type_synonym agent_tasks = "task list option option"

definition successText :: "env \<Rightarrow> string \<Rightarrow> (tool_chunk \<times> env) go" where
  "successText w t =
     (let (b, w') = NewTextBlock w t in NewToolChunk w' [Some b] [WithToolChunkState ToolResultSuccess])"

definition errorText :: "env \<Rightarrow> string \<Rightarrow> (tool_chunk \<times> env) go" where
  "errorText w t =
     (let (b, w') = NewTextBlock w t in NewToolChunk w' [Some b] [WithToolChunkState ToolResultError])"

text \<open>
  \<open>taskContextOrError\<close>, in continuation form: the handler gets the task list, after the nil
  state was refused and a nil context replaced by a new one.
\<close>

definition with_task_context ::
    "env \<Rightarrow> string \<Rightarrow> agent_tasks \<Rightarrow> (task list \<Rightarrow> ((tool_chunk \<times> agent_tasks) \<times> env) go)
      \<Rightarrow> ((tool_chunk \<times> agent_tasks) \<times> env) go" where
  "with_task_context w toolName st handler =
     (case st of
        None \<Rightarrow> go_bind (errorText w (''Error: '' @ toolName @ '' requires AgentState to be provided.''))
                  (\<lambda>(c, w'). Ret ((c, None), w'))
      | Some tc \<Rightarrow> handler (case tc of None \<Rightarrow> [] | Some ts \<Rightarrow> ts))"

definition stringValue :: "gmap option \<Rightarrow> string \<Rightarrow> string" where
  "stringValue input key =
     (case input of
        None \<Rightarrow> []
      | Some m \<Rightarrow>
          (case map_of m key of
             None \<Rightarrow> []
           | Some VNil \<Rightarrow> []
           | Some (VStr s) \<Rightarrow> s
           | Some v \<Rightarrow> Sprint v))"

definition optionalString :: "gmap option \<Rightarrow> string \<Rightarrow> string option" where
  "optionalString input key =
     (case input of
        None \<Rightarrow> None
      | Some m \<Rightarrow>
          (case map_of m key of
             None \<Rightarrow> None
           | Some VNil \<Rightarrow> None
           | Some (VStr s) \<Rightarrow> Some s
           | Some v \<Rightarrow> Some (Sprint v)))"

definition optionalMetadata :: "gmap option \<Rightarrow> string \<Rightarrow> gmap option" where
  "optionalMetadata input key =
     (case input of
        None \<Rightarrow> None
      | Some m \<Rightarrow> (case map_of m key of Some (VMap md) \<Rightarrow> CloneAnyMap (Some md) | _ \<Rightarrow> None))"

text \<open>\<open>metadataValue\<close> drops the flag of \<open>optionalMetadata\<close>: a missing map is nil.\<close>

definition metadataValue :: "gmap option \<Rightarrow> string \<Rightarrow> gmap option" where
  "metadataValue input key = optionalMetadata input key"

definition stringSliceValue :: "gmap option \<Rightarrow> string \<Rightarrow> string list" where
  "stringSliceValue input key =
     (case input of
        None \<Rightarrow> []
      | Some m \<Rightarrow>
          (case map_of m key of
             Some (VStrs ss) \<Rightarrow> ss
           | Some (VList vs) \<Rightarrow> map Sprint (filter (\<lambda>v. v \<noteq> VNil) vs)
           | _ \<Rightarrow> []))"

fun index_from :: "nat \<Rightarrow> task list \<Rightarrow> string \<Rightarrow> nat option" where
  "index_from k [] i = None"
| "index_from k (t # ts) i = (if TaskID t = i then Some k else index_from (Suc k) ts i)"

text \<open>\<open>taskIndex\<close>: the index of the first task with the identifier (\<open>-1\<close> is \<open>None\<close>).\<close>

definition taskIndex :: "task list \<Rightarrow> string \<Rightarrow> nat option" where
  "taskIndex ts i = index_from 0 ts i"

definition prefixedIDs :: "string list \<Rightarrow> string" where
  "prefixedIDs ids = strings_Join (map (\<lambda>i. ''#'' @ i) ids) '', ''"

section \<open>Create, get, list\<close>

definition TaskCreate_Execute ::
    "env \<Rightarrow> gmap option \<Rightarrow> agent_tasks \<Rightarrow> ((tool_chunk \<times> agent_tasks) \<times> env) go" where
  "TaskCreate_Execute w input st =
     with_task_context w ''TaskCreate'' st (\<lambda>ts.
       let subject = TrimSpace (stringValue input ''subject'') in
       if subject = []
       then go_bind (errorText w ''CreateTaskError: subject is required'')
              (\<lambda>(c, w'). Ret ((c, Some (Some ts)), w'))
       else
         let (t, w1) = NewTask w subject (stringValue input ''description'')
                         (metadataValue input ''metadata'');
             ts' = AddTask ts t
         in go_bind (successText w1 (''Task '' @ TaskID t @ '' created successfully: '' @ Subject t))
              (\<lambda>(c, w'). Ret ((c, Some (Some ts')), w')))"

definition task_lines :: "task \<Rightarrow> string list" where
  "task_lines t =
     [''Task #'' @ TaskID t @ '': '' @ Subject t,
      ''Status: '' @ task_state_text (StateOf t),
      ''Description: '' @ Description t]
     @ (case Owner t of Some own \<Rightarrow> if own \<noteq> [] then [''Owner: '' @ own] else [] | None \<Rightarrow> [])
     @ (if BlockedBy t \<noteq> [] then [''Blocked by: '' @ prefixedIDs (BlockedBy t)] else [])
     @ (if Blocks t \<noteq> [] then [''Blocks: '' @ prefixedIDs (Blocks t)] else [])
     @ (case TaskMetadata t of
          Some md \<Rightarrow> if md \<noteq> [] then [''Metadata: '' @ Sprint (VMap md)] else []
        | None \<Rightarrow> [])"

definition TaskGet_Execute ::
    "env \<Rightarrow> gmap option \<Rightarrow> agent_tasks \<Rightarrow> ((tool_chunk \<times> agent_tasks) \<times> env) go" where
  "TaskGet_Execute w input st =
     with_task_context w ''TaskGet'' st (\<lambda>ts.
       go_bind
         (case GetTask (Some ts) (TrimSpace (stringValue input ''task_id'')) of
            None \<Rightarrow> errorText w ''Task not found''
          | Some t \<Rightarrow> successText w (strings_Join (task_lines t) [CHR 0x0A]))
         (\<lambda>(c, w'). Ret ((c, Some (Some ts)), w')))"

definition list_line :: "task \<Rightarrow> string" where
  "list_line t =
     (let owner = (case Owner t of Some own \<Rightarrow> if own \<noteq> [] then ''('' @ own @ '')'' else [] | None \<Rightarrow> []);
          blocked = (if BlockedBy t \<noteq> []
                     then ''[blocked by '' @ strings_Join (BlockedBy t) '', '' @ '']'' else [])
      in ''#'' @ TaskID t @ '' ['' @ task_state_text (StateOf t) @ ''] '' @ Subject t @ owner @ blocked)"

definition TaskList_Execute ::
    "env \<Rightarrow> gmap option \<Rightarrow> agent_tasks \<Rightarrow> ((tool_chunk \<times> agent_tasks) \<times> env) go" where
  "TaskList_Execute w input st =
     with_task_context w ''TaskList'' st (\<lambda>ts.
       go_bind
         (if ts = [] then successText w ''No tasks available.''
          else successText w (strings_Join (map list_line ts) [CHR 0x0A]))
         (\<lambda>(c, w'). Ret ((c, Some (Some ts)), w')))"

section \<open>Update\<close>

text \<open>
  The tool works through pointers into the slice of tasks; the model passes the list and the index.
  \<open>link\<close> and \<open>unlink\<close> are the bodies of the loops of \<open>updateBlockRelation\<close> and \<open>deleteTask\<close>.
\<close>

definition link :: "string \<Rightarrow> string \<Rightarrow> task \<Rightarrow> task" where
  "link blockID blockedByID t =
     (let t1 = (if TaskID t = blockID \<and> blockedByID \<notin> set (Blocks t)
                then t\<lparr>Blocks := Blocks t @ [blockedByID]\<rparr> else t)
      in if TaskID t1 = blockedByID \<and> blockID \<notin> set (BlockedBy t1)
         then t1\<lparr>BlockedBy := BlockedBy t1 @ [blockID]\<rparr> else t1)"

definition updateBlockRelation :: "task list \<Rightarrow> string \<Rightarrow> string \<Rightarrow> task list" where
  "updateBlockRelation ts blockID blockedByID = map (link blockID blockedByID) ts"

definition removeString :: "string list \<Rightarrow> string \<Rightarrow> string list" where
  "removeString xs target = filter (\<lambda>x. x \<noteq> target) xs"

definition unlink :: "string \<Rightarrow> task \<Rightarrow> task" where
  "unlink deletedID t =
     t\<lparr>Blocks := removeString (Blocks t) deletedID, BlockedBy := removeString (BlockedBy t) deletedID\<rparr>"

definition deleteTask :: "task list \<Rightarrow> nat \<Rightarrow> task list" where
  "deleteTask ts index =
     (let deletedID = TaskID (ts ! index)
      in map (unlink deletedID) (take index ts @ drop (Suc index) ts))"

definition existingTaskIDs :: "task list \<Rightarrow> string list" where
  "existingTaskIDs ts = map TaskID ts"

fun relation_loop :: "string list \<Rightarrow> string list \<Rightarrow> string list \<Rightarrow> string list" where
  "relation_loop already existing [] = []"
| "relation_loop already existing (c # cs) =
     (let i = TrimSpace c in
      if i = [] \<or> i \<in> set already \<or> i \<notin> set existing then relation_loop already existing cs
      else i # relation_loop (i # already) existing cs)"

definition newRelationIDs :: "string list \<Rightarrow> string list \<Rightarrow> string list \<Rightarrow> string list" where
  "newRelationIDs candidates current existing = relation_loop current existing candidates"

definition updateTaskTextFields :: "task \<Rightarrow> gmap option \<Rightarrow> string list \<times> task" where
  "updateTaskTextFields t input =
     (let (f1, t1) = (case optionalString input ''subject'' of
                        Some s \<Rightarrow> if s \<noteq> [] then ([''subject''], t\<lparr>Subject := s\<rparr>) else ([], t)
                      | None \<Rightarrow> ([], t));
          (f2, t2) = (case optionalString input ''description'' of
                        Some d \<Rightarrow> ([''description''], t1\<lparr>Description := d\<rparr>)
                      | None \<Rightarrow> ([], t1))
      in (f1 @ f2, t2))"

definition updateTaskRelations ::
    "task list \<Rightarrow> string \<Rightarrow> nat \<Rightarrow> gmap option \<Rightarrow> string list \<times> task list" where
  "updateTaskRelations ts taskID index input =
     (let existing = existingTaskIDs ts;
          newBlocks = newRelationIDs (stringSliceValue input ''add_blocks'') (Blocks (ts ! index)) existing;
          ts1 = fold (\<lambda>b ts. updateBlockRelation ts taskID b) newBlocks ts;
          newBlockedBy = newRelationIDs (stringSliceValue input ''add_blocked_by'')
                           (BlockedBy (ts1 ! index)) existing;
          ts2 = fold (\<lambda>b ts. updateBlockRelation ts b taskID) newBlockedBy ts1
      in ((if newBlocks \<noteq> [] then [''add_blocks''] else [])
            @ (if newBlockedBy \<noteq> [] then [''add_blocked_by''] else []), ts2))"

record status_outcome =
  StatusUpdated :: bool
  StatusDeleted :: bool
  StatusError :: string

definition updateTaskStatus ::
    "task list \<Rightarrow> nat \<Rightarrow> string \<Rightarrow> gmap option \<Rightarrow> status_outcome \<times> task list" where
  "updateTaskStatus ts index taskID input =
     (case optionalString input ''status'' of
        None \<Rightarrow> (\<lparr>StatusUpdated = False, StatusDeleted = False, StatusError = []\<rparr>, ts)
      | Some status \<Rightarrow>
          if status = [] then (\<lparr>StatusUpdated = False, StatusDeleted = False, StatusError = []\<rparr>, ts)
          else if status = ''deleted''
          then (\<lparr>StatusUpdated = False, StatusDeleted = True, StatusError = []\<rparr>, deleteTask ts index)
          else case UpdateTaskState ts taskID (TaskState_of status) of
            (Some e, ts') \<Rightarrow>
              (\<lparr>StatusUpdated = False, StatusDeleted = False,
                StatusError = ''TaskUpdateError: invalid task status '' @ go_quote status\<rparr>, ts')
          | (None, ts') \<Rightarrow>
              (\<lparr>StatusUpdated = True, StatusDeleted = False, StatusError = []\<rparr>, ts'))"

definition updateTaskOwner :: "task \<Rightarrow> gmap option \<Rightarrow> string list \<times> task" where
  "updateTaskOwner t input =
     (case optionalString input ''owner'' of
        None \<Rightarrow> ([], t)
      | Some own \<Rightarrow> ([''owner''], t\<lparr>Owner := Some own\<rparr>))"

definition put_metadata :: "string \<times> gval \<Rightarrow> gmap \<Rightarrow> gmap" where
  "put_metadata p md =
     (if snd p = VNil then AList.delete (fst p) md else AList.update (fst p) (CloneAny (snd p)) md)"

definition updateTaskMetadata :: "task \<Rightarrow> gmap option \<Rightarrow> string list \<times> task" where
  "updateTaskMetadata t input =
     (case optionalMetadata input ''metadata'' of
        None \<Rightarrow> ([], t)
      | Some md \<Rightarrow>
          if md = [] then ([], t)
          else ([''metadata''], t\<lparr>TaskMetadata :=
                 Some (fold put_metadata md (case TaskMetadata t of None \<Rightarrow> [] | Some old \<Rightarrow> old))\<rparr>))"

record update_outcome =
  UpdatedFields :: "string list"
  Deleted :: bool
  ErrorText :: string

definition applyTaskUpdates ::
    "task list \<Rightarrow> nat \<Rightarrow> string \<Rightarrow> gmap option \<Rightarrow> update_outcome \<times> task list" where
  "applyTaskUpdates ts index taskID input =
     (let (f1, t1) = updateTaskTextFields (ts ! index) input;
          ts1 = ts[index := t1];
          (f2, ts2) = updateTaskRelations ts1 taskID index input;
          (status, ts3) = updateTaskStatus ts2 index taskID input
      in if StatusError status \<noteq> [] \<or> StatusDeleted status
         then (\<lparr>UpdatedFields = f1 @ f2, Deleted = StatusDeleted status, ErrorText = StatusError status\<rparr>, ts3)
         else
           let f3 = (if StatusUpdated status then [''status''] else []);
               (f4, t4) = updateTaskOwner (ts3 ! index) input;
               (f5, t5) = updateTaskMetadata t4 input
           in (\<lparr>UpdatedFields = f1 @ f2 @ f3 @ f4 @ f5, Deleted = False, ErrorText = []\<rparr>,
               ts3[index := t5]))"

definition taskUpdateMessage :: "string \<Rightarrow> string list \<Rightarrow> task \<Rightarrow> string" where
  "taskUpdateMessage taskID updatedFields t =
     (if updatedFields \<noteq> []
      then ''Update task #'' @ taskID @ '' '' @ strings_Join updatedFields '', '' @ ''.''
      else ''No updates were made to the task #'' @ taskID
        @ ''. Make sure you provided at least one field to update and the values are correct.'')
     @ (if StateOf t = TaskCompleted
        then [CHR 0x0A, CHR 0x0A] @ ''Task completed. Call TaskList now to find your next available task ''
          @ ''or see if your work unblocked others.''
        else [])"

definition TaskUpdate_Execute ::
    "env \<Rightarrow> gmap option \<Rightarrow> agent_tasks \<Rightarrow> ((tool_chunk \<times> agent_tasks) \<times> env) go" where
  "TaskUpdate_Execute w input st =
     with_task_context w ''TaskUpdate'' st (\<lambda>ts.
       let taskID = TrimSpace (stringValue input ''task_id'') in
       case taskIndex ts taskID of
         None \<Rightarrow> go_bind (errorText w (''TaskNotFoundError: The task '' @ taskID @ '' does not exist.''))
                   (\<lambda>(c, w'). Ret ((c, Some (Some ts)), w'))
       | Some index \<Rightarrow>
           (let (outcome, ts') = applyTaskUpdates ts index taskID input in
            go_bind
              (if ErrorText outcome \<noteq> [] then errorText w (ErrorText outcome)
               else if Deleted outcome then successText w (''Task '' @ taskID @ '' has been deleted.'')
               else successText w (taskUpdateMessage taskID (UpdatedFields outcome) (ts' ! index)))
              (\<lambda>(c, w'). Ret ((c, Some (Some ts')), w'))))"

section \<open>The dependency graph\<close>

text \<open>
  The invariant of the task list: identifiers are distinct; \<open>Blocks\<close> and \<open>BlockedBy\<close> hold no
  duplicates, name existing tasks only, and mirror each other.
\<close>

definition relations :: "task \<Rightarrow> string \<times> string list \<times> string list" where
  "relations t = (TaskID t, Blocks t, BlockedBy t)"

definition graph_ok :: "(string \<times> string list \<times> string list) list \<Rightarrow> bool" where
  "graph_ok g \<longleftrightarrow>
     distinct (map fst g)
     \<and> (\<forall>(i, bs, bys) \<in> set g. distinct bs \<and> distinct bys
          \<and> set bs \<subseteq> fst ` set g \<and> set bys \<subseteq> fst ` set g)
     \<and> (\<forall>(i, bs, bys) \<in> set g. \<forall>(j, cs, cys) \<in> set g. j \<in> set bs \<longleftrightarrow> i \<in> set cys)"

definition tasks_ok :: "task list \<Rightarrow> bool" where
  "tasks_ok ts \<longleftrightarrow> graph_ok (map relations ts)"

lemma tasks_ok_iff:
  "tasks_ok ts \<longleftrightarrow>
     distinct (map TaskID ts)
     \<and> (\<forall>t \<in> set ts. distinct (Blocks t) \<and> distinct (BlockedBy t)
          \<and> set (Blocks t) \<subseteq> TaskID ` set ts \<and> set (BlockedBy t) \<subseteq> TaskID ` set ts)
     \<and> (\<forall>s \<in> set ts. \<forall>t \<in> set ts. TaskID t \<in> set (Blocks s) \<longleftrightarrow> TaskID s \<in> set (BlockedBy t))"
  unfolding tasks_ok_def graph_ok_def
  by (simp add: relations_def comp_def image_image)

lemma tasks_ok_cong: "map relations ts' = map relations ts \<Longrightarrow> tasks_ok ts' = tasks_ok ts"
  by (simp add: tasks_ok_def)

lemma relations_update: "relations t' = relations (ts ! k) \<Longrightarrow> map relations (ts[k := t']) = map relations ts"
  by (cases "k < length ts") (simp_all add: map_update list_update_beyond list_update_same_conv)

lemma link_simps [simp]:
  "TaskID (link x y t) = TaskID t"
  "set (Blocks (link x y t)) = set (Blocks t) \<union> (if TaskID t = x then {y} else {})"
  "set (BlockedBy (link x y t)) = set (BlockedBy t) \<union> (if TaskID t = y then {x} else {})"
  "distinct (Blocks (link x y t)) = distinct (Blocks t)"
  "distinct (BlockedBy (link x y t)) = distinct (BlockedBy t)"
  by (auto simp: link_def Let_def)

lemma tasks_ok_link:
  assumes "tasks_ok ts" and "x \<in> TaskID ` set ts" and "y \<in> TaskID ` set ts"
  shows "tasks_ok (updateBlockRelation ts x y)"
  using assms unfolding tasks_ok_iff updateBlockRelation_def
  by (simp add: comp_def image_image)

lemma ids_link [simp]: "map TaskID (updateBlockRelation ts x y) = map TaskID ts"
  by (simp add: updateBlockRelation_def comp_def)

lemma length_link [simp]: "length (updateBlockRelation ts x y) = length ts"
  by (simp add: updateBlockRelation_def)

lemma relation_loop_subset: "set (relation_loop already existing cs) \<subseteq> set existing"
  by (induction already existing cs rule: relation_loop.induct) (auto simp: Let_def)

text \<open>The two loops of \<open>updateTaskRelations\<close> keep the invariant, the identifiers and the length.\<close>

definition same_ids :: "task list \<Rightarrow> task list \<Rightarrow> bool" where
  "same_ids ts ts' \<longleftrightarrow> map TaskID ts' = map TaskID ts \<and> (tasks_ok ts \<longrightarrow> tasks_ok ts')"

lemma same_ids_trans: "same_ids a b \<Longrightarrow> same_ids b c \<Longrightarrow> same_ids a c"
  by (simp add: same_ids_def)

lemma same_ids_relations: "map relations ts' = map relations ts \<Longrightarrow> same_ids ts ts'"
proof -
  assume rel: "map relations ts' = map relations ts"
  have ids: "map TaskID xs = map fst (map relations xs)" for xs
    by (simp add: relations_def comp_def)
  have "map TaskID ts' = map TaskID ts" by (simp only: ids rel)
  then show ?thesis using tasks_ok_cong [OF rel] by (simp add: same_ids_def)
qed

lemma link_loop:
  assumes "set ids \<subseteq> TaskID ` set ts" and "x \<in> TaskID ` set ts"
  shows "same_ids ts (fold (\<lambda>b ts. updateBlockRelation ts x b) ids ts)"
    and "same_ids ts (fold (\<lambda>b ts. updateBlockRelation ts b x) ids ts)"
proof -
  have "same_ids ts (fold (\<lambda>b ts. updateBlockRelation ts x b) ids ts)
    \<and> same_ids ts (fold (\<lambda>b ts. updateBlockRelation ts b x) ids ts)"
    using assms
  proof (induction ids arbitrary: ts)
    case Nil
    then show ?case by (simp add: same_ids_def)
  next
    case (Cons b ids)
    have one: "same_ids ts (updateBlockRelation ts x b)" "same_ids ts (updateBlockRelation ts b x)"
      using Cons.prems tasks_ok_link by (auto simp: same_ids_def)
    have img: "TaskID ` set (updateBlockRelation ts p q) = TaskID ` set ts" for p q
      by (simp add: updateBlockRelation_def image_image)
    have "same_ids (updateBlockRelation ts x b) (fold (\<lambda>b ts. updateBlockRelation ts x b) ids (updateBlockRelation ts x b))"
      and "same_ids (updateBlockRelation ts b x) (fold (\<lambda>b ts. updateBlockRelation ts b x) ids (updateBlockRelation ts b x))"
      using Cons.IH [of "updateBlockRelation ts x b"] Cons.IH [of "updateBlockRelation ts b x"] Cons.prems
      by (simp_all add: img)
    with one show ?case by (simp add: same_ids_def)
  qed
  then show "same_ids ts (fold (\<lambda>b ts. updateBlockRelation ts x b) ids ts)"
    and "same_ids ts (fold (\<lambda>b ts. updateBlockRelation ts b x) ids ts)" by simp_all
qed

lemma ids_of_same: "map TaskID ts' = map TaskID ts \<Longrightarrow> TaskID ` set ts' = TaskID ` set ts"
  by (metis list.set_map)

lemma updateTaskRelations_ok:
  assumes "updateTaskRelations ts taskID index input = (f, ts')" and "taskID \<in> TaskID ` set ts"
  shows "same_ids ts ts'"
proof -
  define new where "new = newRelationIDs (stringSliceValue input ''add_blocks'') (Blocks (ts ! index)) (existingTaskIDs ts)"
  define ts1 where "ts1 = fold (\<lambda>b ts. updateBlockRelation ts taskID b) new ts"
  define newBy where "newBy = newRelationIDs (stringSliceValue input ''add_blocked_by'')
    (BlockedBy (ts1 ! index)) (existingTaskIDs ts)"
  have sub: "set (newRelationIDs cs cur (existingTaskIDs ts)) \<subseteq> TaskID ` set ts" for cs cur
    using relation_loop_subset [of cur "existingTaskIDs ts" cs]
    by (simp add: newRelationIDs_def existingTaskIDs_def)
  have one: "same_ids ts ts1"
    unfolding ts1_def using link_loop(1) [OF _ assms(2)] sub by (simp add: new_def)
  then have img: "TaskID ` set ts1 = TaskID ` set ts"
    unfolding same_ids_def using ids_of_same by blast
  have "set newBy \<subseteq> TaskID ` set ts1" "taskID \<in> TaskID ` set ts1"
    unfolding img newBy_def using sub assms(2) by auto
  then have "same_ids ts1 (fold (\<lambda>b ts. updateBlockRelation ts b taskID) newBy ts1)"
    by (rule link_loop(2))
  moreover have "ts' = fold (\<lambda>b ts. updateBlockRelation ts b taskID) newBy ts1"
    using assms(1) by (auto simp: updateTaskRelations_def Let_def new_def ts1_def newBy_def)
  ultimately show ?thesis using one same_ids_trans by blast
qed

lemma UpdateTaskState_relations: "map relations (snd (UpdateTaskState ts i st)) = map relations ts"
  by (auto simp: UpdateTaskState_def relations_def intro!: map_update_first split: option.split)

text \<open>Deleting the task at an index removes it and every reference to it.\<close>

lemma drop_index_set:
  assumes "distinct (map TaskID ts)" and "index < length ts"
  shows "set (take index ts @ drop (Suc index) ts) = {t \<in> set ts. TaskID t \<noteq> TaskID (ts ! index)}"
proof -
  have ts: "ts = take index ts @ ts ! index # drop (Suc index) ts"
    using assms(2) by (rule id_take_nth_drop)
  have "distinct (map TaskID (take index ts @ ts ! index # drop (Suc index) ts))"
    using assms(1) ts by simp
  then have "\<forall>t \<in> set (take index ts) \<union> set (drop (Suc index) ts). TaskID t \<noteq> TaskID (ts ! index)"
    by (auto simp: image_iff)
  moreover have "set ts = set (take index ts) \<union> {ts ! index} \<union> set (drop (Suc index) ts)"
    by (subst ts) auto
  ultimately show ?thesis by auto
qed

lemma unlink_simps [simp]:
  "TaskID (unlink d t) = TaskID t"
  "set (Blocks (unlink d t)) = set (Blocks t) - {d}"
  "set (BlockedBy (unlink d t)) = set (BlockedBy t) - {d}"
  "distinct (Blocks t) \<Longrightarrow> distinct (Blocks (unlink d t))"
  "distinct (BlockedBy t) \<Longrightarrow> distinct (BlockedBy (unlink d t))"
  by (auto simp: unlink_def removeString_def)

lemma deleteTask_ok:
  assumes "tasks_ok ts" and "index < length ts"
  shows "tasks_ok (deleteTask ts index)"
    and "TaskID ` set (deleteTask ts index) = TaskID ` set ts - {TaskID (ts ! index)}"
    and "\<forall>t \<in> set (deleteTask ts index).
           TaskID (ts ! index) \<notin> set (Blocks t) \<and> TaskID (ts ! index) \<notin> set (BlockedBy t)"
proof -
  define d where "d = TaskID (ts ! index)"
  define rest where "rest = take index ts @ drop (Suc index) ts"
  have dist: "distinct (map TaskID ts)" using assms(1) by (simp add: tasks_ok_iff)
  have rest: "set rest = {t \<in> set ts. TaskID t \<noteq> d}"
    using drop_index_set [OF dist assms(2)] by (simp add: rest_def d_def)
  have del: "deleteTask ts index = map (unlink d) rest"
    by (simp add: deleteTask_def rest_def d_def Let_def)
  have "distinct (map TaskID (take index ts @ ts ! index # drop (Suc index) ts))"
    using dist id_take_nth_drop [OF assms(2)] by simp
  then have drest: "distinct (map TaskID rest)" by (auto simp: rest_def)
  show ids: "TaskID ` set (deleteTask ts index) = TaskID ` set ts - {TaskID (ts ! index)}"
    by (auto simp: del rest d_def [symmetric] image_image)
  show "\<forall>t \<in> set (deleteTask ts index).
           TaskID (ts ! index) \<notin> set (Blocks t) \<and> TaskID (ts ! index) \<notin> set (BlockedBy t)"
    by (auto simp: del d_def [symmetric])
  have img: "(\<lambda>t. TaskID (unlink d t)) ` set rest = TaskID ` set ts - {d}"
    by (auto simp: rest)
  have old: "distinct (Blocks t) \<and> distinct (BlockedBy t) \<and> set (Blocks t) \<subseteq> TaskID ` set ts
      \<and> set (BlockedBy t) \<subseteq> TaskID ` set ts" if "t \<in> set rest" for t
    using assms(1) that by (simp add: tasks_ok_iff rest)
  have sym: "TaskID t \<in> set (Blocks s) \<longleftrightarrow> TaskID s \<in> set (BlockedBy t)"
    if "s \<in> set rest" "t \<in> set rest" for s t
    using assms(1) that by (simp add: tasks_ok_iff rest)
  show "tasks_ok (deleteTask ts index)"
    unfolding tasks_ok_iff del
    using drest old sym img rest by (auto simp: comp_def image_image)
qed

lemma index_from_Some:
  "index_from k ts i = Some n \<Longrightarrow>
     k \<le> n \<and> n - k < length ts \<and> TaskID (ts ! (n - k)) = i"
proof (induction k ts i arbitrary: n rule: index_from.induct)
  case (2 k t ts i)
  show ?case
  proof (cases "TaskID t = i")
    case False
    with 2 have "Suc k \<le> n \<and> n - Suc k < length ts \<and> TaskID (ts ! (n - Suc k)) = i" by simp
    then have "Suc k \<le> n" and rest: "n - Suc k < length ts" "TaskID (ts ! (n - Suc k)) = i"
      by blast+
    then have "n - k = Suc (n - Suc k)" by linarith
    with rest \<open>Suc k \<le> n\<close> show ?thesis by simp
  qed (use 2 in auto)
qed simp

lemma taskIndex_Some: "taskIndex ts i = Some n \<Longrightarrow> n < length ts \<and> TaskID (ts ! n) = i"
  unfolding taskIndex_def using index_from_Some [of 0 ts i n] by simp

lemma index_from_None: "index_from k ts i = None \<longleftrightarrow> i \<notin> TaskID ` set ts"
  by (induction k ts i rule: index_from.induct) auto

lemma relations_keep [simp]:
  "relations (snd (updateTaskTextFields t input)) = relations t"
  "relations (snd (updateTaskOwner t input)) = relations t"
  "relations (snd (updateTaskMetadata t input)) = relations t"
  by (simp_all add: relations_def updateTaskTextFields_def updateTaskOwner_def updateTaskMetadata_def
      Let_def split: option.split)

lemma updateTaskStatus_cases:
  assumes "updateTaskStatus ts index taskID input = (st, ts')"
  shows "if StatusDeleted st then ts' = deleteTask ts index \<and> StatusError st = []
    else map relations ts' = map relations ts"
  using assms UpdateTaskState_relations [of ts taskID]
  by (auto simp: updateTaskStatus_def split: option.splits if_splits prod.splits)
     (metis snd_conv)+

lemma applyTaskUpdates_ok:
  assumes run: "applyTaskUpdates ts index taskID input = (out, ts')"
    and ok: "tasks_ok ts" and index: "index < length ts" "TaskID (ts ! index) = taskID"
  shows "tasks_ok ts' \<and>
    (if Deleted out
     then ErrorText out = [] \<and> TaskID ` set ts' = TaskID ` set ts - {taskID}
       \<and> (\<forall>t \<in> set ts'. taskID \<notin> set (Blocks t) \<and> taskID \<notin> set (BlockedBy t))
     else map TaskID ts' = map TaskID ts)"
proof -
  obtain f1 t1 where t1: "updateTaskTextFields (ts ! index) input = (f1, t1)" by (cases "updateTaskTextFields (ts ! index) input")
  define ts1 where "ts1 = ts[index := t1]"
  obtain f2 ts2 where ts2: "updateTaskRelations ts1 taskID index input = (f2, ts2)"
    by (cases "updateTaskRelations ts1 taskID index input")
  obtain st ts3 where ts3: "updateTaskStatus ts2 index taskID input = (st, ts3)"
    by (cases "updateTaskStatus ts2 index taskID input")
  have "relations t1 = relations (ts ! index)" using relations_keep(1) [of "ts ! index" input] t1 by simp
  then have s1: "same_ids ts ts1" unfolding ts1_def by (intro same_ids_relations relations_update)
  have mem: "taskID \<in> TaskID ` set ts" using index by force
  have "taskID \<in> TaskID ` set ts1"
    using ids_of_same [of ts1 ts] s1 mem by (simp add: same_ids_def)
  then have "same_ids ts1 ts2" using updateTaskRelations_ok [OF ts2] by blast
  with s1 have s2: "same_ids ts ts2" by (rule same_ids_trans)
  then have ids2: "map TaskID ts2 = map TaskID ts" and ok2: "tasks_ok ts2"
    using ok by (auto simp: same_ids_def)
  have len2: "index < length ts2" using ids2 index by (metis length_map)
  have at2: "TaskID (ts2 ! index) = taskID"
    using ids2 index len2 by (metis nth_map)
  show ?thesis
  proof (cases "StatusDeleted st")
    case True
    with updateTaskStatus_cases [OF ts3] have del: "ts3 = deleteTask ts2 index" "StatusError st = []" by auto
    from run t1 ts2 ts3 True have out: "ts' = ts3" "Deleted out" "ErrorText out = []"
      using del by (auto simp: applyTaskUpdates_def ts1_def [symmetric] Let_def)
    from deleteTask_ok [OF ok2 len2] at2 del out ids_of_same [OF ids2] show ?thesis by simp
  next
    case False
    with updateTaskStatus_cases [OF ts3] have rel3: "map relations ts3 = map relations ts2" by simp
    define t5 where "t5 = snd (updateTaskMetadata (snd (updateTaskOwner (ts3 ! index) input)) input)"
    have "\<not> Deleted out \<and> (ts' = ts3 \<or> ts' = ts3[index := t5])"
      using run t1 ts2 ts3 False
      by (auto simp: applyTaskUpdates_def ts1_def [symmetric] Let_def t5_def split: prod.splits if_splits)
    moreover have "map relations (ts3[index := t5]) = map relations ts3"
      unfolding t5_def by (intro relations_update) simp
    ultimately have "map relations ts' = map relations ts2" and "\<not> Deleted out" using rel3 by auto
    with same_ids_relations [of ts' ts2] s2 ok show ?thesis by (auto simp: same_ids_def)
  qed
qed

section \<open>Running the tools\<close>

text \<open>The environment only moves forward.\<close>

definition env_le :: "env \<Rightarrow> env \<Rightarrow> bool" where
  "env_le w w' \<longleftrightarrow> IdAt w' = IdAt w \<and> IdPos w \<le> IdPos w'"

lemma text_chunk:
  fixes st :: ToolResultState
  assumes "st \<noteq> ToolResultOther []"
  shows "\<exists>c i w'. (let (b, w1) = NewTextBlock w t in NewToolChunk w1 [Some b] [WithToolChunkState st]) = Ret (c, w')
    \<and> env_le w w' \<and> ChunkState c = st \<and> ChunkContent c = [Some (TextBlock t i)]"
  using assms
  by (simp add: NewTextBlock_def NewToolChunk_def newID_def WithToolChunkState_def env_le_def Let_def)

lemma successText_ok:
  "\<exists>c i w'. successText w t = Ret (c, w') \<and> env_le w w' \<and> ChunkState c = ToolResultSuccess
    \<and> ChunkContent c = [Some (TextBlock t i)]"
  using text_chunk [of ToolResultSuccess] by (simp add: successText_def)

lemma errorText_ok:
  "\<exists>c i w'. errorText w t = Ret (c, w') \<and> env_le w w' \<and> ChunkState c = ToolResultError
    \<and> ChunkContent c = [Some (TextBlock t i)]"
  using text_chunk [of ToolResultError] by (simp add: errorText_def)

lemma successText_Ret: "successText w t = Ret (c, w') \<Longrightarrow> env_le w w' \<and> ChunkState c = ToolResultSuccess"
  using successText_ok [of w t] by auto

lemma errorText_Ret: "errorText w t = Ret (c, w') \<Longrightarrow> env_le w w' \<and> ChunkState c = ToolResultError"
  using errorText_ok [of w t] by auto

lemmas chunk_Ret = successText_Ret errorText_Ret

text \<open>One call of one of the tools on an agent state with a task list.\<close>

inductive task_step :: "env \<times> task list \<Rightarrow> env \<times> task list \<Rightarrow> bool" where
  create: "TaskCreate_Execute w input (Some (Some ts)) = Ret ((c, Some (Some ts')), w') \<Longrightarrow>
    task_step (w, ts) (w', ts')"
| update: "TaskUpdate_Execute w input (Some (Some ts)) = Ret ((c, Some (Some ts')), w') \<Longrightarrow>
    task_step (w, ts) (w', ts')"
| get: "TaskGet_Execute w input (Some (Some ts)) = Ret ((c, Some (Some ts')), w') \<Longrightarrow>
    task_step (w, ts) (w', ts')"
| list: "TaskList_Execute w input (Some (Some ts)) = Ret ((c, Some (Some ts')), w') \<Longrightarrow>
    task_step (w, ts) (w', ts')"

inductive_cases task_stepE: "task_step s s'"

lemma TaskCreate_step:
  assumes "TaskCreate_Execute w input (Some (Some ts)) = Ret ((c, Some (Some ts')), w')"
  shows "env_le w w' \<and> (ts' = ts \<or> (\<exists>t. ts' = ts @ [t] \<and> TaskID t = IdAt w (IdPos w)
    \<and> IdPos w < IdPos w' \<and> Blocks t = [] \<and> BlockedBy t = []))"
proof (cases "TrimSpace (stringValue input ''subject'') = []")
  case True
  with assms show ?thesis
    by (auto simp: TaskCreate_Execute_def with_task_context_def go_bind_eq_Ret dest: chunk_Ret)
next
  case False
  with assms show ?thesis
    by (auto simp: TaskCreate_Execute_def with_task_context_def go_bind_eq_Ret NewTask_def newID_def
        nowISO_def AddTask_def env_le_def Let_def dest!: chunk_Ret)
qed

lemma TaskUpdate_step:
  assumes "TaskUpdate_Execute w input (Some (Some ts)) = Ret ((c, Some (Some ts')), w')"
  shows "env_le w w' \<and> (case taskIndex ts (TrimSpace (stringValue input ''task_id'')) of
      None \<Rightarrow> ts' = ts \<and> ChunkState c = ToolResultError
    | Some index \<Rightarrow> \<exists>out. applyTaskUpdates ts index (TrimSpace (stringValue input ''task_id'')) input = (out, ts')
        \<and> ChunkState c = (if ErrorText out \<noteq> [] then ToolResultError else ToolResultSuccess))"
  using assms
  by (auto simp: TaskUpdate_Execute_def with_task_context_def go_bind_eq_Ret Let_def
      dest: chunk_Ret split: option.splits prod.splits if_splits)

lemma TaskGet_step:
  assumes "TaskGet_Execute w input (Some (Some ts)) = Ret ((c, Some (Some ts')), w')"
  shows "env_le w w' \<and> ts' = ts"
  using assms
  by (auto simp: TaskGet_Execute_def with_task_context_def go_bind_eq_Ret dest: chunk_Ret split: option.splits)

lemma TaskList_step:
  assumes "TaskList_Execute w input (Some (Some ts)) = Ret ((c, Some (Some ts')), w')"
  shows "env_le w w' \<and> ts' = ts"
  using assms
  by (auto simp: TaskList_Execute_def with_task_context_def go_bind_eq_Ret dest: chunk_Ret split: if_splits)

text \<open>The invariant with the supply of identifiers: the tasks carry identifiers already drawn.\<close>

definition store_ok :: "env \<times> task list \<Rightarrow> bool" where
  "store_ok s \<longleftrightarrow> inj (IdAt (fst s)) \<and> tasks_ok (snd s)
     \<and> TaskID ` set (snd s) \<subseteq> IdAt (fst s) ` {..<IdPos (fst s)}"

lemma drawn_le: "env_le w w' \<Longrightarrow> IdAt w ` {..<IdPos w} \<subseteq> IdAt w' ` {..<IdPos w'}"
  by (auto simp: env_le_def)

lemma store_ok_le:
  assumes "store_ok (w, ts)" and "env_le w w'" and "tasks_ok ts'" and "TaskID ` set ts' \<subseteq> TaskID ` set ts"
  shows "store_ok (w', ts')"
proof -
  from assms(1) have "inj (IdAt w)" and sub: "TaskID ` set ts \<subseteq> IdAt w ` {..<IdPos w}"
    by (simp_all add: store_ok_def)
  then have "inj (IdAt w')" using assms(2) by (simp add: env_le_def)
  moreover have "TaskID ` set ts' \<subseteq> IdAt w' ` {..<IdPos w'}"
    using assms(4) sub drawn_le [OF assms(2)] by (rule order_trans [OF order_trans])
  ultimately show ?thesis using assms(3) by (simp add: store_ok_def)
qed

lemma store_ok_same: "store_ok (w, ts) \<Longrightarrow> env_le w w' \<Longrightarrow> store_ok (w', ts)"
  by (rule store_ok_le [of w ts]) (simp_all add: store_ok_def)

lemma tasks_ok_new:
  assumes "tasks_ok ts" and "TaskID t \<notin> TaskID ` set ts" and "Blocks t = []" and "BlockedBy t = []"
  shows "tasks_ok (ts @ [t])"
  using assms unfolding tasks_ok_iff by fastforce

lemma task_step_ok: "task_step s s' \<Longrightarrow> store_ok s \<Longrightarrow> store_ok s'"
proof (induction rule: task_step.induct)
  case (create w input ts c ts' w')
  from TaskCreate_step [OF create(1)] have le: "env_le w w'" by simp
  from TaskCreate_step [OF create(1)] consider "ts' = ts"
    | t where "ts' = ts @ [t]" "TaskID t = IdAt w (IdPos w)" "IdPos w < IdPos w'"
        "Blocks t = []" "BlockedBy t = []" by blast
  then show ?case
  proof cases
    case 1
    with create(2) le show ?thesis by (simp add: store_ok_same)
  next
    case 2
    have "IdAt w (IdPos w) \<notin> IdAt w ` {..<IdPos w}"
      using create(2) by (auto simp: store_ok_def inj_def)
    with create(2) 2 have "TaskID t \<notin> TaskID ` set ts" by (auto simp: store_ok_def)
    with create(2) 2 have "tasks_ok ts'" by (simp add: store_ok_def tasks_ok_new)
    moreover have "TaskID ` set ts \<subseteq> IdAt w' ` {..<IdPos w'}"
      using create(2) drawn_le [OF le] unfolding store_ok_def fst_conv snd_conv by blast
    then have "TaskID ` set ts' \<subseteq> IdAt w' ` {..<IdPos w'}"
      using 2 le by (auto simp: env_le_def)
    ultimately show ?thesis using create(2) le by (simp add: store_ok_def env_le_def)
  qed
next
  case (update w input ts c ts' w')
  note step = TaskUpdate_step [OF update(1)]
  show ?case
  proof (cases "taskIndex ts (TrimSpace (stringValue input ''task_id''))")
    case None
    with step update(2) show ?thesis by (simp add: store_ok_same)
  next
    case (Some index)
    with step obtain out where run: "applyTaskUpdates ts index (TrimSpace (stringValue input ''task_id'')) input = (out, ts')"
      by auto
    have ok: "tasks_ok ts" using update(2) by (simp add: store_ok_def)
    note res = applyTaskUpdates_ok [OF run ok] taskIndex_Some [OF Some]
    then have "tasks_ok ts'" by blast
    moreover have "TaskID ` set ts' \<subseteq> TaskID ` set ts"
      using res ids_of_same [of ts' ts] by (auto split: if_splits)
    ultimately show ?thesis using update(2) step by (auto intro: store_ok_le)
  qed
next
  case (get w input ts c ts' w')
  with TaskGet_step show ?case using store_ok_same by blast
next
  case (list w input ts c ts' w')
  with TaskList_step show ?case using store_ok_same by blast
qed

section \<open>Permissions: tools that only touch local state\<close>

text \<open>
  The contract of a tool whose own permission check always allows it and whose rules match by an
  empty content only, and what the permission engine makes of it. The task tools and
  \<open>reset_tools\<close> provide it.
\<close>

locale local_state_tool =
  fixes t :: tool
  assumes always_allows: "\<exists>d. CheckPermissions t input ctx = Inr (Some d) \<and> DecBehavior d = BehaviorAllow"
    and matches_empty: "MatchRule t content input \<longleftrightarrow> content = []"
begin

lemma applies_iff: "rule_applies t input r \<longleftrightarrow> RuleContent r = []"
  by (auto simp: rule_applies_def matches_empty)

lemma engine_allows:
  assumes "\<not> some_rule t (input_of inp) (DenyRules (Context e))"
    and "\<not> some_rule t (input_of inp) (AskRules (Context e))"
    and "Mode (Context e) = ModeExplore \<Longrightarrow> isReadOnlyInvocation t (input_of inp)"
  shows "\<exists>d e'. CheckPermission marshal e (Some t) inp = (Inr d, e') \<and> DecBehavior d = BehaviorAllow"
proof -
  obtain d where d: "CheckPermissions t (input_of inp) (Context e) = Inr (Some d)" "DecBehavior d = BehaviorAllow"
    using always_allows by blast
  have none: "checkRules t (input_of inp) (DenyRules (Context e)) BehaviorDeny = None"
    "checkRules t (input_of inp) (AskRules (Context e)) BehaviorAsk = None"
    using assms by (simp_all add: checkRules_None)
  show ?thesis
    using assms(3) d none
    by (auto simp: CheckPermission_def input_of_def [symmetric] checkReadOnlyFastPath_def mk_decision_def Let_def)
qed

end

record base_tool =
  BtName :: string
  BtDescription :: string
  BtConcurrencySafe :: bool
  BtReadOnly :: bool

definition baseTool_CheckPermissions :: "base_tool \<Rightarrow> gmap \<Rightarrow> perm_context \<Rightarrow> error + decision option" where
  "baseTool_CheckPermissions b input ctx =
     Inr (Some \<lparr>DecBehavior = BehaviorAllow,
                DecMessage = BtName b @ '' is always allowed to be called.'',
                DecisionReason = ''Task tools only mutate the local AgentState task context.'',
                UpdatedInput = None, SuggestedRules = []\<rparr>)"

definition baseTool_MatchRule :: "string \<Rightarrow> gmap \<Rightarrow> bool" where
  "baseTool_MatchRule ruleContent input \<longleftrightarrow> ruleContent = []"

definition baseTool_GenerateSuggestions :: "base_tool \<Rightarrow> gmap \<Rightarrow> rule list" where
  "baseTool_GenerateSuggestions b input =
     [\<lparr>ToolName = BtName b, RuleContent = [], RuleBehavior = BehaviorAllow, RuleSource = ''suggested''\<rparr>]"

text \<open>The tool the permission engine sees; a base tool has no per-input read-only method.\<close>

definition as_tool :: "base_tool \<Rightarrow> tool" where
  "as_tool b =
     \<lparr>ToolNameOf = BtName b, IsReadOnly = BtReadOnly b, IsReadOnlyInput = None,
      CheckPermissions = baseTool_CheckPermissions b, MatchRule = baseTool_MatchRule,
      GenerateSuggestions = baseTool_GenerateSuggestions b, ToolDescription = Some (BtDescription b)\<rparr>"

definition NewTaskCreate :: "string \<Rightarrow> base_tool" where
  "NewTaskCreate description =
     \<lparr>BtName = ''TaskCreate'', BtDescription = description, BtConcurrencySafe = False, BtReadOnly = False\<rparr>"

definition NewTaskGet :: "string \<Rightarrow> base_tool" where
  "NewTaskGet description =
     \<lparr>BtName = ''TaskGet'', BtDescription = description, BtConcurrencySafe = True, BtReadOnly = True\<rparr>"

definition NewTaskList :: "string \<Rightarrow> base_tool" where
  "NewTaskList description =
     \<lparr>BtName = ''TaskList'', BtDescription = description, BtConcurrencySafe = True, BtReadOnly = True\<rparr>"

definition NewTaskUpdate :: "string \<Rightarrow> base_tool" where
  "NewTaskUpdate description =
     \<lparr>BtName = ''TaskUpdate'', BtDescription = description, BtConcurrencySafe = False, BtReadOnly = False\<rparr>"

definition task_NewTools :: "string \<Rightarrow> string \<Rightarrow> string \<Rightarrow> string \<Rightarrow> base_tool list" where
  "task_NewTools c g l u = [NewTaskCreate c, NewTaskGet g, NewTaskList l, NewTaskUpdate u]"

interpretation base: local_state_tool "as_tool b" for b
  by unfold_locales (simp_all add: as_tool_def baseTool_CheckPermissions_def baseTool_MatchRule_def)

section \<open>Properties\<close>

text \<open>C14: the dependency graph of the tasks stays consistent: whatever calls of the four tools
  follow one another from an empty list, with whatever inputs and errors, identifiers are distinct,
  blocks and blocked-by hold no duplicates, name existing tasks only and mirror each other (given
  that the identifier factory does not repeat itself).\<close>

theorem task_graph_consistent:
  assumes "task_step\<^sup>*\<^sup>* (w, []) (w', ts)" and "inj (IdAt w)"
  shows "tasks_ok ts"
proof -
  have "store_ok (w', ts)" if "task_step\<^sup>*\<^sup>* s (w', ts)" "store_ok s" for s
    using that by (induction rule: rtranclp_induct) (auto dest: task_step_ok)
  moreover have "store_ok (w, [])" using assms(2) by (simp add: store_ok_def tasks_ok_iff)
  ultimately have "store_ok (w', ts)" using assms(1) by blast
  then show ?thesis by (simp add: store_ok_def)
qed

definition demo_tasks :: "task list" where
  "demo_tasks =
     [\<lparr>TaskID = ''a'', Subject = ''one'', Description = [], TaskMetadata = None, TaskCreatedAt = ''0'',
       StateOf = TaskPending, Owner = None, Blocks = [''b''], BlockedBy = []\<rparr>,
      \<lparr>TaskID = ''b'', Subject = ''two'', Description = [], TaskMetadata = None, TaskCreatedAt = ''1'',
       StateOf = TaskPending, Owner = None, Blocks = [], BlockedBy = [''a'']\<rparr>]"

lemma inj_Itoa_pad: "inj (\<lambda>n. replicate n (CHR ''x''))"
  by (rule injI) (metis length_replicate)

definition fresh_env :: env where
  "fresh_env = \<lparr>IdAt = (\<lambda>n. replicate n (CHR ''x'')), IdPos = 0, TimeAt = nat_text, TimePos = 0\<rparr>"

lemma demo_create:
  "\<exists>c t w'. TaskCreate_Execute fresh_env (Some [(''subject'', VStr ''plan'')]) (Some (Some []))
     = Ret ((c, Some (Some [t])), w') \<and> Subject t = ''plan''"
proof -
  have trim: "TrimSpace ''plan'' = ''plan''" by (simp add: TrimSpace_plain plain_def)
  obtain c i w' where "successText (fresh_env\<lparr>TimePos := 1, IdPos := 1\<rparr>) (''Task '' @ [] @ '' created successfully: '' @ ''plan'') = Ret (c, w')"
    using successText_ok by blast
  then show ?thesis
    by (simp add: TaskCreate_Execute_def with_task_context_def stringValue_def trim NewTask_def
        newID_def nowISO_def fresh_env_def AddTask_def Let_def)
qed

theorem task_graph_consistent_witness: "\<exists>w' t. task_step\<^sup>*\<^sup>* (fresh_env, []) (w', [t]) \<and> tasks_ok [t]"
proof -
  obtain c t w' where "TaskCreate_Execute fresh_env (Some [(''subject'', VStr ''plan'')]) (Some (Some []))
     = Ret ((c, Some (Some [t])), w')" using demo_create by blast
  then have run: "task_step\<^sup>*\<^sup>* (fresh_env, []) (w', [t])" by (blast intro: task_step.create)
  moreover have "inj (IdAt fresh_env)" by (simp add: fresh_env_def inj_Itoa_pad)
  ultimately show ?thesis using task_graph_consistent by blast
qed

lemma delete_outcome:
  assumes "optionalString input ''status'' = Some ''deleted''"
    and "applyTaskUpdates ts index taskID input = (out, ts')"
  shows "Deleted out" and "ErrorText out = []"
  using assms by (auto simp: applyTaskUpdates_def updateTaskStatus_def Let_def split: prod.splits)

text \<open>C31: an update with status deleted of an existing task succeeds, removes that task and nothing
  else, and leaves no reference to it.\<close>

theorem deleted_task_is_gone:
  assumes "tasks_ok ts" and "optionalString input ''status'' = Some ''deleted''"
    and "TrimSpace (stringValue input ''task_id'') \<in> TaskID ` set ts"
  shows "\<exists>c ts' w'. TaskUpdate_Execute w input (Some (Some ts)) = Ret ((c, Some (Some ts')), w')
    \<and> ChunkState c = ToolResultSuccess \<and> tasks_ok ts'
    \<and> TaskID ` set ts' = TaskID ` set ts - {TrimSpace (stringValue input ''task_id'')}
    \<and> (\<forall>t \<in> set ts'. TrimSpace (stringValue input ''task_id'') \<notin> set (Blocks t) \<union> set (BlockedBy t))"
proof -
  define i where "i = TrimSpace (stringValue input ''task_id'')"
  obtain index where index: "taskIndex ts i = Some index"
    using assms(3) index_from_None [of 0 ts i] by (auto simp: taskIndex_def i_def)
  obtain out ts' where run: "applyTaskUpdates ts index i input = (out, ts')"
    by (cases "applyTaskUpdates ts index i input")
  note del = delete_outcome [OF assms(2) run]
  obtain c k w' where ok: "successText w (''Task '' @ i @ '' has been deleted.'') = Ret (c, w')"
      "ChunkState c = ToolResultSuccess" using successText_ok by blast
  have "TaskUpdate_Execute w input (Some (Some ts)) = Ret ((c, Some (Some ts')), w')"
    using index run del ok by (simp add: TaskUpdate_Execute_def with_task_context_def i_def [symmetric])
  moreover have "tasks_ok ts' \<and> TaskID ` set ts' = TaskID ` set ts - {i}
      \<and> (\<forall>t \<in> set ts'. i \<notin> set (Blocks t) \<and> i \<notin> set (BlockedBy t))"
    using applyTaskUpdates_ok [OF run assms(1)] taskIndex_Some [OF index] del by simp
  ultimately show ?thesis using ok by (auto simp: i_def)
qed

theorem deleted_task_is_gone_witness:
  "\<exists>c ts' w'. TaskUpdate_Execute demo_env (Some [(''task_id'', VStr ''a''), (''status'', VStr ''deleted'')])
      (Some (Some demo_tasks)) = Ret ((c, Some (Some ts')), w') \<and> TaskID ` set ts' = {''b''}"
proof -
  let ?input = "Some [(''task_id'', VStr ''a''), (''status'', VStr ''deleted'')]"
  have trim: "TrimSpace (stringValue ?input ''task_id'') = ''a''" by (simp add: stringValue_def TrimSpace_plain plain_def)
  have "tasks_ok demo_tasks" by (simp add: tasks_ok_iff demo_tasks_def)
  moreover have "optionalString ?input ''status'' = Some ''deleted''" by (simp add: optionalString_def)
  moreover have "TrimSpace (stringValue ?input ''task_id'') \<in> TaskID ` set demo_tasks"
    unfolding trim by (simp add: demo_tasks_def)
  moreover have "TaskID ` set demo_tasks - {''a''} = {''b''}" by (auto simp: demo_tasks_def)
  ultimately show ?thesis using deleted_task_is_gone [of demo_tasks ?input demo_env] unfolding trim by auto
qed

text \<open>an update whose status is not one of the known ones reports an error after its text and
  relation changes have been made (they stay), and before its owner and metadata changes (they are
  not made).\<close>

theorem invalid_status_keeps_earlier_changes:
  assumes "optionalString input ''status'' = Some s" and "s \<noteq> []" and "s \<noteq> ''deleted''"
    and "\<not> isValidTaskState (TaskState_of s)"
    and "taskIndex ts (TrimSpace (stringValue input ''task_id'')) = Some index"
  shows "\<exists>c w'. TaskUpdate_Execute w input (Some (Some ts)) =
      Ret ((c, Some (Some (snd (updateTaskRelations (ts[index := snd (updateTaskTextFields (ts ! index) input)])
         (TrimSpace (stringValue input ''task_id'')) index input)))), w')
    \<and> ChunkState c = ToolResultError"
proof -
  define i where "i = TrimSpace (stringValue input ''task_id'')"
  define ts1 where "ts1 = ts[index := snd (updateTaskTextFields (ts ! index) input)]"
  have run: "\<exists>out. applyTaskUpdates ts index i input = (out, snd (updateTaskRelations ts1 i index input))
      \<and> ErrorText out = ''TaskUpdateError: invalid task status '' @ go_quote s"
    using assms(1-4)
    by (simp add: applyTaskUpdates_def updateTaskStatus_def UpdateTaskState_def ts1_def split_def Let_def)
  then obtain out where out: "applyTaskUpdates ts index i input = (out, snd (updateTaskRelations ts1 i index input))"
    "ErrorText out = ''TaskUpdateError: invalid task status '' @ go_quote s" by blast
  obtain c k w' where err: "errorText w (''TaskUpdateError: invalid task status '' @ go_quote s) = Ret (c, w')"
    "ChunkState c = ToolResultError" using errorText_ok by blast
  have "TaskUpdate_Execute w input (Some (Some ts))
      = Ret ((c, Some (Some (snd (updateTaskRelations ts1 i index input)))), w')"
    using assms(5) out err by (simp add: TaskUpdate_Execute_def with_task_context_def i_def [symmetric])
  with err show ?thesis unfolding ts1_def i_def by blast
qed

theorem invalid_status_keeps_earlier_changes_witness:
  "\<exists>c ts' w'. TaskUpdate_Execute demo_env
      (Some [(''task_id'', VStr ''a''), (''subject'', VStr ''new''), (''status'', VStr ''blocked'')])
      (Some (Some demo_tasks)) = Ret ((c, Some (Some ts')), w')
    \<and> ChunkState c = ToolResultError \<and> Subject (hd ts') = ''new''"
proof -
  let ?input = "Some [(''task_id'', VStr ''a''), (''subject'', VStr ''new''), (''status'', VStr ''blocked'')]"
  have trim: "TrimSpace (stringValue ?input ''task_id'') = ''a''" by (simp add: stringValue_def TrimSpace_plain plain_def)
  have new: "Subject (hd (snd (updateTaskRelations
      (demo_tasks[0 := snd (updateTaskTextFields (demo_tasks ! 0) ?input)]) ''a'' 0 ?input))) = ''new''"
    by (simp add: demo_tasks_def updateTaskTextFields_def optionalString_def updateTaskRelations_def
        stringSliceValue_def newRelationIDs_def Let_def)
  have "taskIndex demo_tasks (TrimSpace (stringValue ?input ''task_id'')) = Some 0"
    unfolding trim by (simp add: taskIndex_def demo_tasks_def)
  with invalid_status_keeps_earlier_changes [of ?input "''blocked''" demo_tasks 0 demo_env] new
  show ?thesis unfolding trim
    by (auto simp: optionalString_def TaskState_of_def isValidTaskState_def)
qed

text \<open>the permission engine allows every task tool unless a deny or ask rule applies to it, in
  every mode (in explore mode the two read-only ones).\<close>

theorem task_tools_are_allowed:
  assumes "b \<in> set (task_NewTools c g l u)"
    and "\<not> some_rule (as_tool b) (input_of inp) (DenyRules (Context e))"
    and "\<not> some_rule (as_tool b) (input_of inp) (AskRules (Context e))"
    and "Mode (Context e) = ModeExplore \<Longrightarrow> BtName b = ''TaskGet'' \<or> BtName b = ''TaskList''"
  shows "\<exists>d e'. CheckPermission marshal e (Some (as_tool b)) inp = (Inr d, e') \<and> DecBehavior d = BehaviorAllow"
proof (rule base.engine_allows [OF assms(2,3)])
  assume "Mode (Context e) = ModeExplore"
  with assms(1,4) show "isReadOnlyInvocation (as_tool b) (input_of inp)"
    by (auto simp: task_NewTools_def isReadOnlyInvocation_def as_tool_def NewTaskCreate_def
        NewTaskGet_def NewTaskList_def NewTaskUpdate_def)
qed

theorem task_tools_are_allowed_witness:
  "\<exists>d e'. CheckPermission (\<lambda>_. None) (demo_engine ModeDontAsk) (Some (as_tool (NewTaskUpdate []))) None = (Inr d, e')
    \<and> DecBehavior d = BehaviorAllow"
proof (rule task_tools_are_allowed [of _ "[]" "[]" "[]" "[]"])
  show "NewTaskUpdate [] \<in> set (task_NewTools [] [] [] [])" by (simp add: task_NewTools_def)
  show "\<not> some_rule (as_tool (NewTaskUpdate [])) (input_of None) (DenyRules (Context (demo_engine ModeDontAsk)))"
    "\<not> some_rule (as_tool (NewTaskUpdate [])) (input_of None) (AskRules (Context (demo_engine ModeDontAsk)))"
    "Mode (Context (demo_engine ModeDontAsk)) = ModeExplore \<Longrightarrow>
      BtName (NewTaskUpdate []) = ''TaskGet'' \<or> BtName (NewTaskUpdate []) = ''TaskList''"
    by (simp_all add: some_rule_def demo_simps)
qed

end
