(* ===== verification/State.thy ===== *)
theory State
  imports Complex_Main Tasks
begin

text \<open>
  The read cache of the tool context: \<open>pkg/state/state.go\<close>. The cache is a list of entries in
  the order they were cached. Sizes are \<open>float64\<close> kilobytes in the code; they are byte counts
  divided by 1024, which \<open>float64\<close> adds exactly up to \<open>2\<^sup>5\<^sup>3\<close> bytes, and are rationals here.
  \<open>os.Stat\<close> is an argument: the modification time of a path, or an error. Also the agent state
  record of that file, with its constructor and \<open>Clone\<close> (the context status and the loop context,
  kept by other packages, are left out).
\<close>

section \<open>The read cache\<close>

record cache_entry =
  Lines :: "string list"
  UpdatedAt :: int
  Bytes :: rat
  FilePath :: string

record tool_context =
  MaxCacheFiles :: int
  MaxCacheBytes :: rat
  ReadFileCache :: "cache_entry list"
  ActivatedGroups :: "string list"

type_synonym os_stat = "string \<Rightarrow> error + int"

definition NewToolContext :: tool_context where
  "NewToolContext =
     \<lparr>MaxCacheFiles = 100, MaxCacheBytes = 25000, ReadFileCache = [], ActivatedGroups = []\<rparr>"

definition removeCache :: "tool_context \<Rightarrow> string \<Rightarrow> tool_context" where
  "removeCache c path = c\<lparr>ReadFileCache := filter (\<lambda>e. FilePath e \<noteq> path) (ReadFileCache c)\<rparr>"

definition cacheBytes :: "cache_entry list \<Rightarrow> rat" where
  "cacheBytes es = sum_list (map Bytes es)"

definition cacheLinesBytes :: "string list \<Rightarrow> rat" where
  "cacheLinesBytes ls = of_nat (sum_list (map length ls)) / 1024"

text \<open>\<open>GetCache\<close> drops the entry when the file is gone or was modified.\<close>

definition GetCache :: "os_stat \<Rightarrow> tool_context option \<Rightarrow> string \<Rightarrow> cache_entry option \<times> tool_context option" where
  "GetCache stat tc path =
     (case tc of
        None \<Rightarrow> (None, None)
      | Some c \<Rightarrow>
          (case stat path of
             Inl err \<Rightarrow> (None, Some (removeCache c path))
           | Inr mtime \<Rightarrow>
               (case find (\<lambda>e. FilePath e = path) (ReadFileCache c) of
                  None \<Rightarrow> (None, Some c)
                | Some e \<Rightarrow> if UpdatedAt e \<noteq> mtime then (None, Some (removeCache c path))
                            else (Some e, Some c))))"

fun evict_files :: "int \<Rightarrow> cache_entry list \<Rightarrow> cache_entry list" where
  "evict_files m [] = []"
| "evict_files m (e # es) = (if int (length (e # es)) \<ge> m then evict_files m es else e # es)"

fun evict_bytes :: "rat \<Rightarrow> rat \<Rightarrow> rat \<Rightarrow> cache_entry list \<Rightarrow> cache_entry list" where
  "evict_bytes newBytes m current [] = []"
| "evict_bytes newBytes m current (e # es) =
     (if current + newBytes > m then evict_bytes newBytes m (current - Bytes e) es else e # es)"

definition CacheFile ::
    "os_stat \<Rightarrow> tool_context option \<Rightarrow> string \<Rightarrow> string list \<Rightarrow> error option \<times> tool_context option" where
  "CacheFile stat tc path ls =
     (case tc of
        None \<Rightarrow> (None, None)
      | Some c0 \<Rightarrow>
          let c1 = (if MaxCacheFiles c0 \<le> 0 then c0\<lparr>MaxCacheFiles := 100\<rparr> else c0);
              c2 = (if MaxCacheBytes c1 \<le> 0 then c1\<lparr>MaxCacheBytes := 25000\<rparr> else c1)
          in case stat path of
               Inl err \<Rightarrow> (Some err, Some c2)
             | Inr mtime \<Rightarrow>
                 let c3 = removeCache c2 path;
                     newBytes = cacheLinesBytes ls;
                     es1 = evict_files (MaxCacheFiles c3) (ReadFileCache c3);
                     es2 = evict_bytes newBytes (MaxCacheBytes c3) (cacheBytes es1) es1
                 in (None, Some (c3\<lparr>ReadFileCache := es2 @
                      [\<lparr>Lines = ls, UpdatedAt = mtime, Bytes = newBytes, FilePath = path\<rparr>]\<rparr>)))"

definition CleanFileCache :: "tool_context option \<Rightarrow> string list \<Rightarrow> tool_context option" where
  "CleanFileCache tc reservedFilePaths =
     map_option (\<lambda>c. c\<lparr>ReadFileCache :=
       filter (\<lambda>e. FilePath e \<in> set (filter (\<lambda>p. p \<noteq> []) reservedFilePaths)) (ReadFileCache c)\<rparr>) tc"

definition entry_Clone :: "cache_entry \<Rightarrow> cache_entry" where
  "entry_Clone e = e\<lparr>Lines := Lines e\<rparr>"

definition ToolContext_Clone :: "tool_context option \<Rightarrow> tool_context option" where
  "ToolContext_Clone tc =
     map_option (\<lambda>c. c\<lparr>ReadFileCache := map entry_Clone (ReadFileCache c)\<rparr>) tc"

section \<open>The agent state\<close>

record summary =
  SummaryText :: string
  SummaryBlocks :: blocks

record agent_state =
  SessionID :: string
  Summary :: summary
  Messages :: "message option list"
  StateReplyID :: string
  CurIter :: int
  PermissionContext :: "perm_context option"
  ToolContext :: "tool_context option"
  TaskContext :: "task list option"

definition NewAgentState :: "env \<Rightarrow> agent_state \<times> env" where
  "NewAgentState w =
     (let (i, w1) = newID w; (j, w2) = newID w1
      in (\<lparr>SessionID = i, Summary = \<lparr>SummaryText = [], SummaryBlocks = []\<rparr>, Messages = [],
           StateReplyID = j, CurIter = 0, PermissionContext = Some (NewContext ModeDefault),
           ToolContext = Some NewToolContext, TaskContext = Some []\<rparr>, w2))"

text \<open>Unlike \<open>Context.Clone\<close>, this copy keeps an empty mode and nil rule maps.\<close>

definition clonePermissionContext :: "perm_context \<Rightarrow> perm_context" where
  "clonePermissionContext c =
     \<lparr>Mode = Mode c, WorkingDirectories = Some (\<lambda>key. nmap_get (WorkingDirectories c) key),
      AllowRules = cloneRuleMap (AllowRules c), DenyRules = cloneRuleMap (DenyRules c),
      AskRules = cloneRuleMap (AskRules c), DenialState = DenialState c\<rparr>"

definition Summary_Clone :: "summary \<Rightarrow> summary go" where
  "Summary_Clone s = go_bind (clone_list (SummaryBlocks s)) (\<lambda>bs. Ret (s\<lparr>SummaryBlocks := bs\<rparr>))"

fun clone_messages :: "message option list \<Rightarrow> message option list go" where
  "clone_messages [] = Ret []"
| "clone_messages (None # ms) = go_bind (clone_messages ms) (\<lambda>ms'. Ret (None # ms'))"
| "clone_messages (Some m # ms) =
     go_bind (message_Clone m) (\<lambda>m'. go_bind (clone_messages ms) (\<lambda>ms'. Ret (Some m' # ms')))"

definition AgentState_Clone :: "agent_state option \<Rightarrow> agent_state option go" where
  "AgentState_Clone st =
     (case st of
        None \<Rightarrow> Ret None
      | Some s \<Rightarrow>
          go_bind (Summary_Clone (Summary s)) (\<lambda>sm.
          go_bind (clone_messages (Messages s)) (\<lambda>ms.
            Ret (Some (s\<lparr>Summary := sm, Messages := ms,
              PermissionContext := map_option clonePermissionContext (PermissionContext s),
              ToolContext := ToolContext_Clone (ToolContext s),
              TaskContext := TaskContext_Clone (TaskContext s)\<rparr>)))))"

section \<open>Lemmas\<close>

lemma evict_files_suffix: "\<exists>d. es = d @ evict_files m es"
proof (induction m es rule: evict_files.induct)
  case (2 m e es)
  then show ?case by (cases "int (length (e # es)) \<ge> m") (auto intro: exI [of _ "e # _"])
qed simp

lemma evict_files_length: "1 \<le> m \<Longrightarrow> int (length (evict_files m es)) < m"
  by (induction m es rule: evict_files.induct) auto

lemma evict_bytes_suffix: "\<exists>d. es = d @ evict_bytes n m cur es"
proof (induction n m cur es rule: evict_bytes.induct)
  case (2 n m cur e es)
  then show ?case by (cases "cur + n > m") (auto intro: exI [of _ "e # _"])
qed simp

lemma cacheBytes_simps [simp]:
  "cacheBytes [] = 0" "cacheBytes (e # es) = Bytes e + cacheBytes es"
  "cacheBytes (a @ b) = cacheBytes a + cacheBytes b"
  by (simp_all add: cacheBytes_def)

lemma evict_bytes_bound:
  "evict_bytes n m (cacheBytes es) es = [] \<or> cacheBytes (evict_bytes n m (cacheBytes es) es) + n \<le> m"
proof (induction es)
  case (Cons e es)
  then show ?case by (simp add: add.commute)
qed simp

lemma suffix_distinct: "es = d @ es' \<Longrightarrow> distinct (map f es) \<Longrightarrow> distinct (map f es')"
  by simp

text \<open>The shape of a successful \<open>CacheFile\<close>.\<close>

lemma CacheFile_shape:
  assumes "CacheFile stat (Some c) path ls = (None, Some c')"
  shows "\<exists>mtime kept dropped. stat path = Inr mtime
    \<and> ReadFileCache (removeCache c path) = dropped @ kept
    \<and> ReadFileCache c' = kept @ [\<lparr>Lines = ls, UpdatedAt = mtime, Bytes = cacheLinesBytes ls, FilePath = path\<rparr>]
    \<and> int (length kept) < MaxCacheFiles c' \<and> 1 \<le> MaxCacheFiles c' \<and> 0 < MaxCacheBytes c'
    \<and> (kept = [] \<or> cacheBytes kept + cacheLinesBytes ls \<le> MaxCacheBytes c')"
proof -
  define files where "files = (if MaxCacheFiles c \<le> 0 then 100 else MaxCacheFiles c)"
  define bytes where "bytes = (if MaxCacheBytes c \<le> 0 then 25000 else MaxCacheBytes c)"
  define es where "es = ReadFileCache (removeCache c path)"
  define es1 where "es1 = evict_files files es"
  define es2 where "es2 = evict_bytes (cacheLinesBytes ls) bytes (cacheBytes es1) es1"
  obtain mtime where stat: "stat path = Inr mtime"
    using assms by (cases "stat path") (auto simp: CacheFile_def Let_def)
  have c': "ReadFileCache c' = es2 @ [\<lparr>Lines = ls, UpdatedAt = mtime, Bytes = cacheLinesBytes ls, FilePath = path\<rparr>]"
    "MaxCacheFiles c' = files" "MaxCacheBytes c' = bytes"
    using assms stat
    by (auto simp: CacheFile_def Let_def removeCache_def files_def bytes_def es_def es1_def es2_def)
  have pos: "1 \<le> files" "0 < bytes" by (auto simp: files_def bytes_def)
  obtain d1 where d1: "es = d1 @ es1" unfolding es1_def using evict_files_suffix by blast
  obtain d2 where d2: "es1 = d2 @ es2" unfolding es2_def using evict_bytes_suffix by blast
  have "int (length es1) < files" unfolding es1_def by (rule evict_files_length [OF pos(1)])
  then have "int (length es2) < files" by (subst (asm) d2) simp
  moreover have "es2 = [] \<or> cacheBytes es2 + cacheLinesBytes ls \<le> bytes"
    unfolding es2_def by (rule evict_bytes_bound)
  moreover have "es = (d1 @ d2) @ es2" using d1 d2 by simp
  ultimately show ?thesis using stat c' pos unfolding es_def by blast
qed

section \<open>Properties\<close>

text \<open>The limits in force: a limit that is not positive stands for the default.\<close>

definition max_files :: "tool_context \<Rightarrow> int" where
  "max_files c = (if MaxCacheFiles c \<le> 0 then 100 else MaxCacheFiles c)"

definition max_bytes :: "tool_context \<Rightarrow> rat" where
  "max_bytes c = (if MaxCacheBytes c \<le> 0 then 25000 else MaxCacheBytes c)"

definition cache_ok :: "tool_context \<Rightarrow> bool" where
  "cache_ok c \<longleftrightarrow>
     distinct (map FilePath (ReadFileCache c))
     \<and> int (length (ReadFileCache c)) \<le> max_files c
     \<and> (length (ReadFileCache c) \<le> 1 \<or> cacheBytes (ReadFileCache c) \<le> max_bytes c)
     \<and> list_all (\<lambda>e. 0 \<le> Bytes e) (ReadFileCache c)"

lemma cache_ok_filter:
  assumes "cache_ok c"
  shows "cache_ok (c\<lparr>ReadFileCache := filter p (ReadFileCache c)\<rparr>)"
proof -
  have sum: "cacheBytes (filter p es) \<le> cacheBytes es" if "list_all (\<lambda>e. 0 \<le> Bytes e) es" for es
    using that by (induction es) auto
  have len: "length (filter p (ReadFileCache c)) \<le> length (ReadFileCache c)" by simp
  have dist: "distinct (map FilePath (filter p (ReadFileCache c)))"
    using assms by (simp add: cache_ok_def distinct_map_filter)
  have nonneg: "list_all (\<lambda>e. 0 \<le> Bytes e) (filter p (ReadFileCache c))"
    using assms by (auto simp: cache_ok_def list_all_iff)
  have limits: "max_files (c\<lparr>ReadFileCache := x\<rparr>) = max_files c" "max_bytes (c\<lparr>ReadFileCache := x\<rparr>) = max_bytes c" for x
    by (simp_all add: max_files_def max_bytes_def)
  from assms have le: "cacheBytes (filter p (ReadFileCache c)) \<le> cacheBytes (ReadFileCache c)"
    and old: "int (length (ReadFileCache c)) \<le> max_files c"
      "length (ReadFileCache c) \<le> 1 \<or> cacheBytes (ReadFileCache c) \<le> max_bytes c"
    using sum by (simp_all add: cache_ok_def)
  have "int (length (filter p (ReadFileCache c))) \<le> max_files c" using old(1) len by linarith
  moreover have "length (filter p (ReadFileCache c)) \<le> 1 \<or> cacheBytes (filter p (ReadFileCache c)) \<le> max_bytes c"
    using old(2) len le by linarith
  ultimately show ?thesis using dist nonneg by (simp add: cache_ok_def limits)
qed

lemma cacheLinesBytes_nonneg: "0 \<le> cacheLinesBytes ls"
  by (simp add: cacheLinesBytes_def)

lemma CacheFile_ok:
  assumes "CacheFile stat (Some c) path ls = (err, Some c')" and "cache_ok c"
  shows "cache_ok c'"
proof (cases err)
  case (Some e)
  with assms show ?thesis
    by (auto simp: CacheFile_def Let_def cache_ok_def max_files_def max_bytes_def split: sum.splits if_splits)
next
  case None
  with assms(1) have "CacheFile stat (Some c) path ls = (None, Some c')" by simp
  from CacheFile_shape [OF this] obtain mtime kept dropped
    where es: "ReadFileCache (removeCache c path) = dropped @ kept"
      and c': "ReadFileCache c' = kept @ [\<lparr>Lines = ls, UpdatedAt = mtime, Bytes = cacheLinesBytes ls, FilePath = path\<rparr>]"
      and len: "int (length kept) < MaxCacheFiles c'"
      and pos: "1 \<le> MaxCacheFiles c'" "0 < MaxCacheBytes c'"
      and bytes: "kept = [] \<or> cacheBytes kept + cacheLinesBytes ls \<le> MaxCacheBytes c'"
    by blast
  have "cache_ok (removeCache c path)"
    unfolding removeCache_def by (rule cache_ok_filter [OF assms(2)])
  then have old: "distinct (map FilePath (dropped @ kept))" "list_all (\<lambda>e. 0 \<le> Bytes e) (dropped @ kept)"
    unfolding cache_ok_def es by simp_all
  have "path \<notin> FilePath ` set (dropped @ kept)"
    using arg_cong [OF es, of set] by (auto simp: removeCache_def)
  with old c' len bytes pos cacheLinesBytes_nonneg show ?thesis
    unfolding cache_ok_def by (auto simp: max_files_def max_bytes_def)
qed

text \<open>C28: every operation of the read cache keeps it within its limits: at most one entry per path,
  no more files than the maximum, and no more bytes than the maximum unless a single file is over it.\<close>

theorem read_cache_stays_bounded:
  assumes "cache_ok c"
  shows "(\<forall>err c'. CacheFile stat (Some c) path ls = (err, Some c') \<longrightarrow> cache_ok c')
    \<and> (\<forall>e c'. GetCache stat (Some c) path = (e, Some c') \<longrightarrow> cache_ok c')
    \<and> (\<forall>c'. CleanFileCache (Some c) reserved = Some c' \<longrightarrow> cache_ok c')"
proof -
  have "cache_ok (removeCache c path)"
    unfolding removeCache_def by (rule cache_ok_filter [OF assms])
  then have "\<forall>e c'. GetCache stat (Some c) path = (e, Some c') \<longrightarrow> cache_ok c'"
    using assms by (auto simp: GetCache_def split: sum.splits option.splits if_splits)
  moreover have "\<forall>c'. CleanFileCache (Some c) reserved = Some c' \<longrightarrow> cache_ok c'"
    using cache_ok_filter [OF assms] by (auto simp: CleanFileCache_def)
  ultimately show ?thesis using CacheFile_ok assms by blast
qed

theorem read_cache_stays_bounded_witness:
  "\<exists>c'. CacheFile (\<lambda>p. Inr 7) (Some NewToolContext) ''a.go'' [''x''] = (None, Some c') \<and> cache_ok c'"
proof -
  obtain c' where run: "CacheFile (\<lambda>p. Inr 7) (Some NewToolContext) ''a.go'' [''x''] = (None, Some c')"
    by (simp add: CacheFile_def NewToolContext_def Let_def)
  have "cache_ok NewToolContext" by (simp add: NewToolContext_def cache_ok_def max_files_def max_bytes_def)
  from read_cache_stays_bounded [OF this, of "\<lambda>p. Inr 7" "''a.go''" "[''x'']" "[]"] run show ?thesis by blast
qed

text \<open>a file that was cached is found in the cache with its lines as long as its modification
  time is unchanged, and is no longer found once the file has another modification time or is gone;
  the entry is then dropped for good.\<close>

theorem cached_file_is_returned_until_modified:
  assumes "CacheFile stat (Some c) path ls = (None, Some c')" and "cache_ok c"
  shows "(stat' path = stat path \<longrightarrow>
      (\<exists>e. GetCache stat' (Some c') path = (Some e, Some c') \<and> Lines e = ls))
    \<and> (stat' path \<noteq> stat path \<longrightarrow>
      (\<exists>c''. GetCache stat' (Some c') path = (None, Some c'')
        \<and> list_all (\<lambda>e. FilePath e \<noteq> path) (ReadFileCache c'')))"
proof -
  from CacheFile_shape [OF assms(1)] obtain mtime kept dropped
    where st: "stat path = Inr mtime"
      and es: "ReadFileCache (removeCache c path) = dropped @ kept"
      and c': "ReadFileCache c' = kept @ [\<lparr>Lines = ls, UpdatedAt = mtime, Bytes = cacheLinesBytes ls, FilePath = path\<rparr>]"
    by blast
  have "\<forall>e \<in> set kept. FilePath e \<noteq> path"
    using arg_cong [OF es, of set] by (auto simp: removeCache_def)
  then have "find (\<lambda>e. FilePath e = path) kept = None" by (auto simp: find_None_iff)
  then have found: "find (\<lambda>e. FilePath e = path) (ReadFileCache c')
      = Some \<lparr>Lines = ls, UpdatedAt = mtime, Bytes = cacheLinesBytes ls, FilePath = path\<rparr>"
    by (simp add: c' find_append)
  have gone: "list_all (\<lambda>e. FilePath e \<noteq> path) (ReadFileCache (removeCache c' path))"
    by (simp add: removeCache_def list_all_iff)
  show ?thesis
    using st found gone by (cases "stat' path") (auto simp: GetCache_def)
qed

theorem cached_file_is_returned_until_modified_witness:
  "\<exists>c' e. CacheFile (\<lambda>p. Inr 7) (Some NewToolContext) ''a.go'' [''x''] = (None, Some c')
    \<and> GetCache (\<lambda>p. Inr 7) (Some c') ''a.go'' = (Some e, Some c') \<and> Lines e = [''x'']"
proof -
  obtain c' where run: "CacheFile (\<lambda>p. Inr 7) (Some NewToolContext) ''a.go'' [''x''] = (None, Some c')"
    by (simp add: CacheFile_def NewToolContext_def Let_def)
  have "cache_ok NewToolContext" by (simp add: NewToolContext_def cache_ok_def max_files_def max_bytes_def)
  from cached_file_is_returned_until_modified [OF run this, of "\<lambda>p. Inr 7"] run show ?thesis by auto
qed

end
