(* ===== verification/Json_Repair.thy ===== *)
theory Json_Repair
  imports Prelude
begin

text \<open>
  Tool-call arguments as JSON objects: \<open>internal/jsonutil/repair.go\<close>. Model output may be cut
  off in mid-stream, so an input that does not parse is repaired (code fences removed, an open string
  closed, trailing separators dropped, braces closed) and parsed again. \<open>json.Unmarshal\<close> of the
  standard library is an argument of the definitions; nothing is assumed of it.
\<close>

section \<open>Definitions\<close>

text \<open>The \<open>%T\<close> names of the values \<open>json.Unmarshal\<close> produces.\<close>

fun go_type_name :: "gval \<Rightarrow> string" where
  "go_type_name VNil = ''<nil>''"
| "go_type_name (VBool b) = ''bool''"
| "go_type_name (VInt i) = ''int''"
| "go_type_name (VFloat f) = ''float64''"
| "go_type_name (VStr s) = ''string''"
| "go_type_name (VStrs ss) = ''[]string''"
| "go_type_name (VList vs) = ''[]interface {}''"
| "go_type_name (VMap m) = ''map[string]interface {}''"

definition decodeObject :: "(string \<Rightarrow> error + gval) \<Rightarrow> string \<Rightarrow> error + gmap" where
  "decodeObject unmarshal input =
     (case unmarshal input of
        Inl e \<Rightarrow> Inl e
      | Inr (VMap m) \<Rightarrow> Inr m
      | Inr v \<Rightarrow> Inl (Err (''expected JSON object, got '' @ go_type_name v)))"

fun quotes_loop :: "string \<Rightarrow> bool \<Rightarrow> nat \<Rightarrow> nat" where
  "quotes_loop [] escaped count = count"
| "quotes_loop (r # s) escaped count =
     (if escaped then quotes_loop s False count
      else if r = CHR 0x5C then quotes_loop s True count
      else quotes_loop s False (if r = CHR 0x22 then Suc count else count))"

definition countUnescapedQuotes :: "string \<Rightarrow> nat" where
  "countUnescapedQuotes input = quotes_loop input False 0"

definition backticks :: string where
  "backticks = replicate 3 (CHR 0x60)"

definition strip_fence :: "string \<Rightarrow> string" where
  "strip_fence s =
     (if HasPrefix s backticks
      then TrimSpace (TrimSuffix (TrimPrefix (TrimPrefix s (backticks @ ''json'')) backticks) backticks)
      else s)"

definition repairObject :: "string \<Rightarrow> string" where
  "repairObject input =
     (let s = TrimSpace input in
      if s = [] then s
      else let s1 = strip_fence s;
               s2 = (if countUnescapedQuotes s1 mod 2 = 1 then s1 @ [CHR 0x22] else s1);
               s3 = TrimRight s2 [CHR 0x20, CHR 0x09, CHR 0x0D, CHR 0x0A, CHR '','']
           in s3 @ replicate (CountByte s3 (CHR ''{'') - CountByte s3 (CHR ''}'')) (CHR ''}''))"

definition LoadObject :: "(string \<Rightarrow> error + gval) \<Rightarrow> string \<Rightarrow> error + gmap" where
  "LoadObject unmarshal input =
     (case decodeObject unmarshal input of
        Inr obj \<Rightarrow> Inr obj
      | Inl e \<Rightarrow>
          (case decodeObject unmarshal (repairObject input) of
             Inr obj \<Rightarrow> Inr obj
           | Inl err \<Rightarrow> Inl (Err (''decode JSON object: '' @ error_text err))))"

section \<open>Lemmas\<close>

lemma quotes_loop_count: "quotes_loop s e n = n + quotes_loop s e 0"
proof (induction s arbitrary: e n)
  case (Cons r s)
  from Cons [of False "Suc n"] Cons [of False 1] Cons [of True n] Cons [of False n] show ?case by simp
qed simp

text \<open>Is the scanner inside an escape at the end of the string?\<close>

fun ends_escaped :: "bool \<Rightarrow> string \<Rightarrow> bool" where
  "ends_escaped e [] = e"
| "ends_escaped e (r # s) = ends_escaped (\<not> e \<and> r = CHR 0x5C) s"

lemma quotes_loop_append:
  "quotes_loop (s @ t) e n = quotes_loop t (ends_escaped e s) (quotes_loop s e n)"
  by (induction s arbitrary: e n) auto

lemma quotes_loop_plain: "CHR 0x22 \<notin> set s \<Longrightarrow> quotes_loop s e n = n"
  by (induction s arbitrary: e n) auto

lemma TrimRight_append: "\<exists>t. s = TrimRight s cs @ t \<and> set t \<subseteq> set cs"
proof -
  have "rev s = takeWhile (\<lambda>c. c \<in> set cs) (rev s) @ dropWhile (\<lambda>c. c \<in> set cs) (rev s)" by simp
  then have "s = rev (dropWhile (\<lambda>c. c \<in> set cs) (rev s)) @ rev (takeWhile (\<lambda>c. c \<in> set cs) (rev s))"
    by (metis rev_append rev_rev_ident)
  moreover have "set (rev (takeWhile (\<lambda>c. c \<in> set cs) (rev s))) \<subseteq> set cs"
    by (auto dest: set_takeWhileD)
  ultimately show ?thesis unfolding TrimRight_def by blast
qed

lemma CountByte_append: "CountByte (s @ t) c = CountByte s c + CountByte t c"
  by (simp add: CountByte_def)

lemma CountByte_replicate: "CountByte (replicate n c) d = (if c = d then n else 0)"
  by (simp add: CountByte_def)

lemma repair_quotes:
  assumes "\<not> ends_escaped False s"
  shows "even (countUnescapedQuotes (if countUnescapedQuotes s mod 2 = 1 then s @ [CHR 0x22] else s))"
  using assms
  by (auto simp: countUnescapedQuotes_def quotes_loop_append even_iff_mod_2_eq_zero mod_Suc
      not_mod_2_eq_1_eq_0)

section \<open>Properties\<close>

text \<open>a repaired text has an even number of unescaped quotes, unless it broke off right after
  an escaping backslash, and as many closing as opening braces, unless it had more closing ones.\<close>

theorem repaired_text_is_balanced:
  assumes "\<not> ends_escaped False (strip_fence (TrimSpace input))"
    and "CountByte (strip_fence (TrimSpace input)) (CHR ''}'') \<le> CountByte (strip_fence (TrimSpace input)) (CHR ''{'')"
  shows "even (countUnescapedQuotes (repairObject input))
    \<and> CountByte (repairObject input) (CHR ''{'') = CountByte (repairObject input) (CHR ''}'')"
proof (cases "TrimSpace input = []")
  case True
  then show ?thesis by (simp add: repairObject_def countUnescapedQuotes_def CountByte_def)
next
  case False
  define s1 where "s1 = strip_fence (TrimSpace input)"
  define s2 where "s2 = (if countUnescapedQuotes s1 mod 2 = 1 then s1 @ [CHR 0x22] else s1)"
  define s3 where "s3 = TrimRight s2 [CHR 0x20, CHR 0x09, CHR 0x0D, CHR 0x0A, CHR '','']"
  obtain t where t: "s2 = s3 @ t" and "set t \<subseteq> {CHR 0x20, CHR 0x09, CHR 0x0D, CHR 0x0A, CHR '',''}"
    using TrimRight_append [of s2 "[CHR 0x20, CHR 0x09, CHR 0x0D, CHR 0x0A, CHR '','']"]
    unfolding s3_def by auto
  then have plain: "CHR 0x22 \<notin> set t" "CHR ''{'' \<notin> set t" "CHR ''}'' \<notin> set t" by auto
  then have brace: "CountByte t (CHR ''{'') = 0" "CountByte t (CHR ''}'') = 0"
    by (auto simp: CountByte_def filter_empty_conv)
  have r: "repairObject input = s3 @ replicate (CountByte s3 (CHR ''{'') - CountByte s3 (CHR ''}'')) (CHR ''}'')"
    using False by (simp add: repairObject_def s1_def s2_def s3_def Let_def)
  have "countUnescapedQuotes (repairObject input) = countUnescapedQuotes s3"
    unfolding r countUnescapedQuotes_def quotes_loop_append by (rule quotes_loop_plain) simp
  also have "\<dots> = countUnescapedQuotes s2"
    unfolding t countUnescapedQuotes_def quotes_loop_append using plain by (simp add: quotes_loop_plain)
  finally have quotes: "even (countUnescapedQuotes (repairObject input))"
    using repair_quotes [of s1] assms(1) by (simp add: s2_def s1_def)
  have "CountByte s2 (CHR ''{'') = CountByte s1 (CHR ''{'')" "CountByte s2 (CHR ''}'') = CountByte s1 (CHR ''}'')"
    by (simp_all add: s2_def CountByte_append) (simp_all add: CountByte_def)
  then have "CountByte s3 (CHR ''}'') \<le> CountByte s3 (CHR ''{'')"
    using assms(2) t brace by (simp add: CountByte_append s1_def)
  with quotes show ?thesis unfolding r by (simp add: CountByte_append CountByte_replicate)
qed

definition cut_off :: string where
  "cut_off = ''{'' @ [CHR 0x22] @ ''path'' @ [CHR 0x22] @ '': '' @ [CHR 0x22] @ ''a.go''"

theorem repaired_text_is_balanced_witness:
  "repairObject cut_off = cut_off @ [CHR 0x22, CHR ''}'']
    \<and> even (countUnescapedQuotes (repairObject cut_off))"
proof -
  have trim: "TrimSpace cut_off = cut_off" by (simp add: cut_off_def TrimSpace_plain plain_def)
  have fence: "strip_fence cut_off = cut_off"
    by (simp add: strip_fence_def cut_off_def backticks_def HasPrefix_def numeral_3_eq_3)
  have "repairObject cut_off = cut_off @ [CHR 0x22, CHR ''}'']"
    by (simp add: repairObject_def trim fence)
       (simp add: cut_off_def countUnescapedQuotes_def TrimRight_def CountByte_def)
  moreover have "\<not> ends_escaped False cut_off" "CountByte cut_off (CHR ''}'') \<le> CountByte cut_off (CHR ''{'')"
    by (simp_all add: cut_off_def CountByte_def)
  ultimately show ?thesis using repaired_text_is_balanced [of cut_off] by (simp add: trim fence)
qed

end
