(* ===== verification/Toolkit.thy ===== *)
theory Toolkit
  imports State Json_Repair
begin

text \<open>
  The toolkit: \<open>pkg/tool/group.go\<close>, \<open>toolkit.go\<close>, \<open>reset.go\<close> and the chunk helpers of
  \<open>adapters.go\<close>. A toolkit registers basic tools and optional tool groups; the groups a model may
  use are the activated groups of the agent state, which the meta tool \<open>reset_tools\<close> rewrites.
  A tool is the permission engine's view of it with its schema and its \<open>Execute\<close>; the channel
  \<open>Execute\<close> returns is the list of the chunks it delivers before it closes. Tool slots may be nil.
\<close>

section \<open>Tools and groups\<close>

record kit_tool =
  KTool :: tool
  KSchema :: "gmap option"
  KExecute :: "env \<Rightarrow> gmap \<Rightarrow> agent_state option
    \<Rightarrow> (((error + tool_chunk list option) \<times> agent_state option) \<times> env) go"

abbreviation KName :: "kit_tool \<Rightarrow> string" where
  "KName t \<equiv> ToolNameOf (KTool t)"

record tool_group =
  GName :: string
  GDescription :: string
  GInstructions :: string
  GTools :: "kit_tool option list"

definition basicGroupName :: string where
  "basicGroupName = ''basic''"

definition WithGroupDescription :: "string \<Rightarrow> tool_group \<Rightarrow> tool_group" where
  "WithGroupDescription d g = g\<lparr>GDescription := TrimSpace d\<rparr>"

definition WithGroupInstructions :: "string \<Rightarrow> tool_group \<Rightarrow> tool_group" where
  "WithGroupInstructions d g = g\<lparr>GInstructions := TrimSpace d\<rparr>"

definition WithGroupTools :: "kit_tool option list \<Rightarrow> tool_group \<Rightarrow> tool_group" where
  "WithGroupTools ts g = g\<lparr>GTools := ts\<rparr>"

definition NewGroup :: "string \<Rightarrow> (tool_group \<Rightarrow> tool_group) list \<Rightarrow> error + tool_group" where
  "NewGroup name opts =
     (let n = TrimSpace name in
      if n = [] then Inl (Err ''tool: group name is required'')
      else let g = fold (\<lambda>opt g. opt g) opts
                     \<lparr>GName = n, GDescription = [], GInstructions = [], GTools = []\<rparr>
           in if GName g \<noteq> basicGroupName \<and> GDescription g = []
              then Inl (Err (''tool: group '' @ go_quote (GName g) @ '' requires a description''))
              else Inr g)"

definition group_Name :: "tool_group option \<Rightarrow> string" where
  "group_Name go = (case go of None \<Rightarrow> [] | Some g \<Rightarrow> GName g)"

section \<open>The reset tool\<close>

record group_info =
  InfoName :: string
  InfoDescription :: string
  InfoInstructions :: string

definition trim_infos :: "group_info list \<Rightarrow> group_info list" where
  "trim_infos gs =
     map (\<lambda>g. \<lparr>InfoName = TrimSpace (InfoName g), InfoDescription = TrimSpace (InfoDescription g),
                InfoInstructions = TrimSpace (InfoInstructions g)\<rparr>)
       (filter (\<lambda>g. TrimSpace (InfoName g) \<noteq> []) gs)"

definition reset_schema :: "group_info list \<Rightarrow> gmap" where
  "reset_schema gs =
     [(''type'', VStr ''object''),
      (''properties'', VMap (fold (\<lambda>g m. AList.update (InfoName g)
          (VMap [(''type'', VStr ''boolean''), (''description'', VStr (InfoDescription g))]) m) gs [])),
      (''additionalProperties'', VBool False)]"

definition enabled :: "gmap \<Rightarrow> group_info \<Rightarrow> bool" where
  "enabled input g = (case map_of input (InfoName g) of Some (VBool b) \<Rightarrow> b | _ \<Rightarrow> False)"

definition reset_text :: "group_info list \<Rightarrow> string" where
  "reset_text active =
     (let names = map InfoName active;
          ls = map (\<lambda>g. InfoName g @ '': '' @ InfoInstructions g) (filter (\<lambda>g. InfoInstructions g \<noteq> []) active)
      in if names = [] then ''No optional tool groups activated.''
         else ''Activated tool groups: '' @ strings_Join names '', ''
              @ (if ls \<noteq> [] then [CHR 0x0A] @ strings_Join ls [CHR 0x0A] else []))"

text \<open>With a nil state the groups are set in a fresh state nobody else sees.\<close>

definition ResetTools_Execute ::
    "group_info list \<Rightarrow> env \<Rightarrow> gmap \<Rightarrow> agent_state option
      \<Rightarrow> (((error + tool_chunk list option) \<times> agent_state option) \<times> env) go" where
  "ResetTools_Execute gs w input st =
     (let (s, w1) = (case st of None \<Rightarrow> NewAgentState w | Some s \<Rightarrow> (s, w));
          tc = (case ToolContext s of None \<Rightarrow> NewToolContext | Some tc \<Rightarrow> tc);
          active = filter (enabled input) gs;
          s' = s\<lparr>ToolContext := Some (tc\<lparr>ActivatedGroups := map InfoName active\<rparr>)\<rparr>
      in go_bind (successText w1 (reset_text active)) (\<lambda>(c, w2).
           Ret ((Inr (Some [c]), map_option (\<lambda>_. s') st), w2)))"

definition NewResetTools :: "group_info list \<Rightarrow> kit_tool" where
  "NewResetTools groups =
     (let gs = trim_infos groups in
      \<lparr>KTool = \<lparr>ToolNameOf = ''reset_tools'', IsReadOnly = False, IsReadOnlyInput = None,
         CheckPermissions = (\<lambda>input ctx. Inr (Some \<lparr>DecBehavior = BehaviorAllow,
            DecMessage = ''Permission granted for reset_tools'',
            DecisionReason = ''Meta tool only updates local tool group activation state.'',
            UpdatedInput = None, SuggestedRules = []\<rparr>)),
         MatchRule = (\<lambda>ruleContent input. ruleContent = []),
         GenerateSuggestions = (\<lambda>input. [\<lparr>ToolName = ''reset_tools'', RuleContent = [],
            RuleBehavior = BehaviorAllow, RuleSource = ''suggested''\<rparr>]),
         ToolDescription = Some ''Activate or deactivate optional tool groups for the next tool calls.''\<rparr>,
       KSchema = Some (reset_schema gs),
       KExecute = ResetTools_Execute gs\<rparr>)"

section \<open>The toolkit\<close>

record toolkit =
  BasicTools :: "kit_tool option list"
  Groups :: "tool_group option list"
  ToolGroups :: "string \<rightharpoonup> string"
  ResetTool :: "kit_tool option"

text \<open>\<open>registerTool\<close>: \<open>seen\<close> and \<open>toolGroups\<close> are written together and hold the same.\<close>

definition registerTool :: "(string \<rightharpoonup> string) \<Rightarrow> kit_tool option \<Rightarrow> string \<Rightarrow> error + (string \<rightharpoonup> string)" where
  "registerTool seen tool grp =
     (case tool of
        None \<Rightarrow> Inl (Err (''tool: nil tool in group '' @ go_quote grp))
      | Some t \<Rightarrow>
          let name = TrimSpace (KName t) in
          if name = [] then Inl (Err (''tool: tool in group '' @ go_quote grp @ '' has empty name''))
          else case seen name of
            Some previous \<Rightarrow> Inl (Err (''tool: duplicate tool '' @ go_quote name @ '' in groups ''
              @ go_quote previous @ '' and '' @ go_quote grp))
          | None \<Rightarrow> Inr (seen(name \<mapsto> grp)))"

fun register_all :: "(string \<rightharpoonup> string) \<Rightarrow> string \<Rightarrow> kit_tool option list \<Rightarrow> error + (string \<rightharpoonup> string)" where
  "register_all seen grp [] = Inr seen"
| "register_all seen grp (t # ts) =
     (case registerTool seen t grp of Inl e \<Rightarrow> Inl e | Inr seen' \<Rightarrow> register_all seen' grp ts)"

fun register_groups :: "(string \<rightharpoonup> string) \<Rightarrow> tool_group option list \<Rightarrow> error + (string \<rightharpoonup> string)" where
  "register_groups seen [] = Inr seen"
| "register_groups seen (None # gs) = Inl (Err ''tool: nil tool group'')"
| "register_groups seen (Some g # gs) =
     (if GName g = basicGroupName then Inl (Err ''tool: basic group is reserved'')
      else case register_all seen (GName g) (GTools g) of
        Inl e \<Rightarrow> Inl e
      | Inr seen' \<Rightarrow> register_groups seen' gs)"

definition toolkit_validate :: "toolkit \<Rightarrow> error + (string \<rightharpoonup> string)" where
  "toolkit_validate kit =
     (case register_all Map.empty basicGroupName (BasicTools kit) of
        Inl e \<Rightarrow> Inl e
      | Inr seen \<Rightarrow>
          (case register_groups seen (Groups kit) of
             Inl e \<Rightarrow> Inl e
           | Inr seen' \<Rightarrow>
               (case ResetTool kit of
                  None \<Rightarrow> Inr seen'
                | Some t \<Rightarrow> registerTool seen' (Some t) basicGroupName)))"

definition group_infos :: "tool_group option list \<Rightarrow> group_info list" where
  "group_infos gs =
     map (\<lambda>g. \<lparr>InfoName = GName g, InfoDescription = GDescription g, InfoInstructions = GInstructions g\<rparr>)
       (map the (filter (\<lambda>g. g \<noteq> None) gs))"

definition NewToolkitWithGroups :: "kit_tool option list \<Rightarrow> tool_group option list \<Rightarrow> error + toolkit" where
  "NewToolkitWithGroups tools groups =
     (let kit = \<lparr>BasicTools = tools, Groups = groups, ToolGroups = Map.empty,
                 ResetTool = (if groups \<noteq> [] then Some (NewResetTools (group_infos groups)) else None)\<rparr>
      in case toolkit_validate kit of
           Inl e \<Rightarrow> Inl e
         | Inr tg \<Rightarrow> Inr (kit\<lparr>ToolGroups := tg\<rparr>))"

definition NewToolkit :: "kit_tool option list \<Rightarrow> error + toolkit" where
  "NewToolkit tools = NewToolkitWithGroups tools []"

text \<open>MCP clients, as far as the toolkit uses them.\<close>

record mcp_client =
  McpName :: string
  McpStateful :: bool
  McpConnected :: bool
  McpTools :: "error + kit_tool option list"

fun collect_mcp :: "kit_tool option list \<Rightarrow> mcp_client option list \<Rightarrow> error + kit_tool option list" where
  "collect_mcp acc [] = Inr acc"
| "collect_mcp acc (None # cs) = Inl (Err ''tool: nil MCP client'')"
| "collect_mcp acc (Some c # cs) =
     (if McpStateful c \<and> \<not> McpConnected c
      then Inl (Err (''tool: MCP client '' @ go_quote (McpName c) @ '' is stateful but not connected''))
      else case McpTools c of Inl e \<Rightarrow> Inl e | Inr ts \<Rightarrow> collect_mcp (acc @ ts) cs)"

definition NewToolkitWithMCPs ::
    "error option \<Rightarrow> kit_tool option list \<Rightarrow> mcp_client option list \<Rightarrow> error + toolkit" where
  "NewToolkitWithMCPs ctx_err tools mcps =
     (case ctx_err of
        Some e \<Rightarrow> Inl e
      | None \<Rightarrow> (case collect_mcp tools mcps of Inl e \<Rightarrow> Inl e | Inr ts \<Rightarrow> NewToolkit ts))"

definition activeSet :: "string list \<Rightarrow> string \<Rightarrow> bool" where
  "activeSet groups name \<longleftrightarrow> name \<noteq> [] \<and> name \<in> set (map TrimSpace groups)"

definition availableTools :: "toolkit \<Rightarrow> string list \<Rightarrow> (kit_tool option \<times> string) list" where
  "availableTools kit activeGroups =
     map (\<lambda>t. (t, basicGroupName)) (BasicTools kit)
     @ concat (map (\<lambda>go. case go of
         None \<Rightarrow> []
       | Some g \<Rightarrow> if activeSet activeGroups (GName g) then map (\<lambda>t. (t, GName g)) (GTools g) else [])
         (Groups kit))
     @ (case ResetTool kit of None \<Rightarrow> [] | Some t \<Rightarrow> [(Some t, basicGroupName)])"

fun lookup_loop :: "string \<Rightarrow> (kit_tool option \<times> string) list \<Rightarrow> kit_tool option go" where
  "lookup_loop name [] = Ret None"
| "lookup_loop name ((None, g) # ts) = Panic"
| "lookup_loop name ((Some t, g) # ts) = (if KName t = name then Ret (Some t) else lookup_loop name ts)"

definition FindTool :: "toolkit \<Rightarrow> string \<Rightarrow> string list \<Rightarrow> kit_tool option go" where
  "FindTool kit name activeGroups = lookup_loop name (availableTools kit activeGroups)"

definition toolLookupError :: "toolkit \<Rightarrow> string \<Rightarrow> string" where
  "toolLookupError kit name =
     (case ToolGroups kit name of
        None \<Rightarrow> ''tool '' @ name @ '' not found''
      | Some grp \<Rightarrow>
          if grp = basicGroupName then ''tool '' @ name @ '' not found''
          else ''tool '' @ name @ '' belongs to inactive group '' @ grp)"

record tool_schema =
  SchemaName :: string
  SchemaDescription :: "string option"
  SchemaParameters :: gmap

definition schemaForTool :: "kit_tool option \<Rightarrow> error + tool_schema" where
  "schemaForTool tool =
     (case tool of
        None \<Rightarrow> Inl (Err ''tool: nil tool'')
      | Some t \<Rightarrow>
          let name = TrimSpace (KName t) in
          if name = [] then Inl (Err ''tool: schema tool name is required'')
          else
            let params = (case KSchema t of None \<Rightarrow> [(''type'', VStr ''object'')] | Some m \<Rightarrow> m);
                result = (\<lambda>p. Inr \<lparr>SchemaName = name, SchemaDescription = ToolDescription (KTool t), SchemaParameters = p\<rparr>)
            in case map_of params ''type'' of
                 Some (VStr ty) \<Rightarrow>
                   if ty \<noteq> ''object''
                   then Inl (Err (''tool: input schema for '' @ name @ '' must be an object, got '' @ go_quote ty))
                   else result params
               | Some v \<Rightarrow> result params
               | None \<Rightarrow> result (AList.update ''type'' (VStr ''object'') params))"

fun schemas_loop :: "kit_tool option list \<Rightarrow> error + tool_schema list" where
  "schemas_loop [] = Inr []"
| "schemas_loop (t # ts) =
     (case schemaForTool t of
        Inl e \<Rightarrow> Inl e
      | Inr s \<Rightarrow> (case schemas_loop ts of Inl e \<Rightarrow> Inl e | Inr ss \<Rightarrow> Inr (s # ss)))"

definition ToolSchemas :: "toolkit \<Rightarrow> string list \<Rightarrow> error + tool_schema list" where
  "ToolSchemas kit activeGroups = schemas_loop (map fst (availableTools kit activeGroups))"

definition activeGroupsFromState :: "agent_state option \<Rightarrow> string list" where
  "activeGroupsFromState st =
     (case st of
        None \<Rightarrow> []
      | Some s \<Rightarrow> (case ToolContext s of None \<Rightarrow> [] | Some tc \<Rightarrow> ActivatedGroups tc))"

section \<open>Running a tool\<close>

type_synonym tool_call_args = "string \<times> string \<times> string"

definition state_chunk :: "ToolResultState \<Rightarrow> env \<Rightarrow> string \<Rightarrow> string \<Rightarrow> (tool_chunk \<times> env) go" where
  "state_chunk st w i t =
     (let (b, w') = NewTextBlock w t
      in NewToolChunk w' [Some b] ([WithToolChunkState st] @ (if i \<noteq> [] then [WithToolChunkID i] else [])))"

definition errorChunk :: "env \<Rightarrow> string \<Rightarrow> string \<Rightarrow> (tool_chunk \<times> env) go" where
  "errorChunk = state_chunk ToolResultError"

text \<open>\<open>interruptedChunk\<close> sets the identifier before the state and also when it is empty.\<close>

definition interruptedChunk :: "env \<Rightarrow> string \<Rightarrow> string \<Rightarrow> (tool_chunk \<times> env) go" where
  "interruptedChunk w i t =
     (let (b, w') = NewTextBlock w t
      in NewToolChunk w' [Some b] [WithToolChunkID i, WithToolChunkState ToolResultInterrupted])"

text \<open>
  The call is its identifier, name and input text. \<open>unmarshal\<close> is \<open>json.Unmarshal\<close> and
  \<open>canceled\<close> is \<open>errors.Is(err, context.Canceled)\<close>.
\<close>

definition CallTool ::
    "(string \<Rightarrow> error + gval) \<Rightarrow> (error \<Rightarrow> bool) \<Rightarrow> toolkit \<Rightarrow> env \<Rightarrow> tool_call_args option
      \<Rightarrow> agent_state option \<Rightarrow> (((error + tool_chunk list) \<times> agent_state option) \<times> env) go" where
  "CallTool unmarshal canceled kit w call st =
     (case call of
        None \<Rightarrow> Ret ((Inl (Err ''tool: nil tool call''), st), w)
      | Some (i, name, inp) \<Rightarrow>
          go_bind (FindTool kit name (activeGroupsFromState st)) (\<lambda>found.
            case found of
              None \<Rightarrow> go_bind (errorChunk w i (toolLookupError kit name)) (\<lambda>(c, w'). Ret ((Inr [c], st), w'))
            | Some t \<Rightarrow>
                (case LoadObject unmarshal inp of
                   Inl e \<Rightarrow> go_bind (errorChunk w i (error_text e)) (\<lambda>(c, w'). Ret ((Inr [c], st), w'))
                 | Inr input \<Rightarrow>
                     go_bind (KExecute t w input st) (\<lambda>((r, st'), w1).
                       case r of
                         Inl e \<Rightarrow>
                           go_bind (if canceled e then interruptedChunk w1 i (error_text e)
                                    else errorChunk w1 i (error_text e))
                             (\<lambda>(c, w'). Ret ((Inr [c], st'), w'))
                       | Inr None \<Rightarrow>
                           go_bind (errorChunk w1 i (''tool '' @ KName t @ '' returned nil chunk stream''))
                             (\<lambda>(c, w'). Ret ((Inr [c], st'), w'))
                       | Inr (Some cs) \<Rightarrow> Ret ((Inr cs, st'), w1)))))"

definition RunTool ::
    "(string \<Rightarrow> error + gval) \<Rightarrow> (error \<Rightarrow> bool) \<Rightarrow> toolkit \<Rightarrow> env \<Rightarrow> tool_call_args option
      \<Rightarrow> agent_state option \<Rightarrow> (((error + tool_response) \<times> agent_state option) \<times> env) go" where
  "RunTool unmarshal canceled kit w call st =
     (case call of
        None \<Rightarrow> Ret ((Inl (Err ''tool: nil tool call''), st), w)
      | Some (i, name, inp) \<Rightarrow>
          go_bind (CallTool unmarshal canceled kit w (Some (i, name, inp)) st) (\<lambda>((r, st'), w1).
            case r of
              Inl e \<Rightarrow> Ret ((Inl e, st'), w1)
            | Inr cs \<Rightarrow>
                let (resp, w2) = NewToolResponse w1 [WithToolResponseID i]
                in go_bind (append_chunks w2 resp cs) (\<lambda>(out, w3). Ret ((out, st'), w3))))"

section \<open>Registration\<close>

text \<open>The name a slot is registered under, and what registering a list of slots establishes.\<close>

definition slot_name :: "kit_tool option \<Rightarrow> string" where
  "slot_name slot = (case slot of None \<Rightarrow> [] | Some t \<Rightarrow> TrimSpace (KName t))"

definition registered :: "(string \<rightharpoonup> string) \<Rightarrow> kit_tool option list \<Rightarrow> (string \<rightharpoonup> string) \<Rightarrow> bool" where
  "registered seen ts seen' \<longleftrightarrow>
     (\<forall>t \<in> set ts. t \<noteq> None \<and> slot_name t \<noteq> []) \<and> distinct (map slot_name ts)
     \<and> dom seen \<inter> slot_name ` set ts = {} \<and> dom seen' = dom seen \<union> slot_name ` set ts
     \<and> (\<forall>n \<in> dom seen. seen' n = seen n)"

lemma registered_Nil [simp]: "registered seen [] seen"
  by (simp add: registered_def)

lemma registered_keep: "registered seen ts seen' \<Longrightarrow> seen n = Some g \<Longrightarrow> seen' n = Some g"
  by (simp add: registered_def domI)

lemma registered_append:
  "registered s ts s1 \<Longrightarrow> registered s1 us s2 \<Longrightarrow> registered s (ts @ us) s2"
  unfolding registered_def by auto

lemma registerTool_registered:
  "registerTool seen t grp = Inr seen' \<Longrightarrow> registered seen [t] seen' \<and> seen' (slot_name t) = Some grp"
  by (auto simp: registerTool_def registered_def slot_name_def Let_def split: option.splits if_splits)

lemma register_all_registered:
  "register_all seen grp ts = Inr seen' \<Longrightarrow>
     registered seen ts seen' \<and> (\<forall>t \<in> set ts. seen' (slot_name t) = Some grp)"
proof (induction seen grp ts rule: register_all.induct)
  case (2 seen grp t ts)
  from "2.prems" obtain s1 where s1: "registerTool seen t grp = Inr s1"
    and rest: "register_all s1 grp ts = Inr seen'" by (auto split: sum.splits)
  from registerTool_registered [OF s1] have one: "registered seen [t] s1" "s1 (slot_name t) = Some grp" by auto
  from "2.IH" [OF s1 rest] have IH: "registered s1 ts seen'" "\<forall>t \<in> set ts. seen' (slot_name t) = Some grp" by auto
  have "seen' (slot_name t) = Some grp" using registered_keep [OF IH(1) one(2)] .
  with registered_append [OF one(1) IH(1)] IH(2) show ?case by simp
qed simp

definition group_slots :: "tool_group option list \<Rightarrow> kit_tool option list" where
  "group_slots gs = concat (map (\<lambda>go. case go of None \<Rightarrow> [] | Some g \<Rightarrow> GTools g) gs)"

lemma register_groups_registered:
  "register_groups seen gs = Inr seen' \<Longrightarrow>
     registered seen (group_slots gs) seen'
     \<and> (\<forall>go \<in> set gs. \<exists>g. go = Some g \<and> GName g \<noteq> basicGroupName
          \<and> (\<forall>t \<in> set (GTools g). seen' (slot_name t) = Some (GName g)))"
proof (induction seen gs rule: register_groups.induct)
  case (3 seen g gs)
  from "3.prems" obtain s1 where ne: "GName g \<noteq> basicGroupName"
    and s1: "register_all seen (GName g) (GTools g) = Inr s1"
    and rest: "register_groups s1 gs = Inr seen'" by (auto split: sum.splits if_splits)
  from register_all_registered [OF s1]
  have one: "registered seen (GTools g) s1" "\<forall>t \<in> set (GTools g). s1 (slot_name t) = Some (GName g)" by auto
  from "3.IH" [OF ne s1 rest] have IH: "registered s1 (group_slots gs) seen'"
    "\<forall>go \<in> set gs. \<exists>g. go = Some g \<and> GName g \<noteq> basicGroupName
          \<and> (\<forall>t \<in> set (GTools g). seen' (slot_name t) = Some (GName g))" by auto
  have "\<forall>t \<in> set (GTools g). seen' (slot_name t) = Some (GName g)"
    using registered_keep [OF IH(1)] one(2) by blast
  with registered_append [OF one(1) IH(1)] IH(2) ne show ?case by (simp add: group_slots_def)
qed (simp_all add: group_slots_def)

definition kit_slots :: "toolkit \<Rightarrow> kit_tool option list" where
  "kit_slots kit = BasicTools kit @ group_slots (Groups kit)
     @ (case ResetTool kit of None \<Rightarrow> [] | Some t \<Rightarrow> [Some t])"

text \<open>What holds of every toolkit that was constructed.\<close>

definition kit_ok :: "toolkit \<Rightarrow> bool" where
  "kit_ok kit \<longleftrightarrow>
     (\<forall>t \<in> set (kit_slots kit). t \<noteq> None \<and> slot_name t \<noteq> []) \<and> distinct (map slot_name (kit_slots kit))
     \<and> dom (ToolGroups kit) = slot_name ` set (kit_slots kit)
     \<and> (\<forall>go \<in> set (Groups kit). \<exists>g. go = Some g \<and> GName g \<noteq> basicGroupName
          \<and> (\<forall>t \<in> set (GTools g). ToolGroups kit (slot_name t) = Some (GName g)))"

lemma toolkit_validate_ok:
  assumes "toolkit_validate kit = Inr tg"
  shows "kit_ok (kit\<lparr>ToolGroups := tg\<rparr>)"
proof -
  from assms obtain s1 s2 where basic: "register_all Map.empty basicGroupName (BasicTools kit) = Inr s1"
    and grps: "register_groups s1 (Groups kit) = Inr s2"
    and reset: "case ResetTool kit of None \<Rightarrow> tg = s2 | Some t \<Rightarrow> registerTool s2 (Some t) basicGroupName = Inr tg"
    by (auto simp: toolkit_validate_def split: sum.splits option.splits)
  have r3: "registered s2 (case ResetTool kit of None \<Rightarrow> [] | Some t \<Rightarrow> [Some t]) tg"
    using reset registerTool_registered by (auto split: option.splits)
  have "registered Map.empty (kit_slots kit) tg"
    unfolding kit_slots_def
    using register_all_registered [OF basic] register_groups_registered [OF grps] r3
    by (blast intro: registered_append)
  then have "(\<forall>t \<in> set (kit_slots kit). t \<noteq> None \<and> slot_name t \<noteq> [])"
    "distinct (map slot_name (kit_slots kit))" "dom tg = slot_name ` set (kit_slots kit)"
    by (simp_all add: registered_def)
  moreover have "\<exists>g. go = Some g \<and> GName g \<noteq> basicGroupName
      \<and> (\<forall>t \<in> set (GTools g). tg (slot_name t) = Some (GName g))" if "go \<in> set (Groups kit)" for go
    using register_groups_registered [OF grps] that registered_keep [OF r3] by metis
  moreover have "kit_slots (kit\<lparr>ToolGroups := tg\<rparr>) = kit_slots kit" by (simp add: kit_slots_def)
  ultimately show ?thesis unfolding kit_ok_def by simp
qed

lemma NewToolkitWithGroups_ok: "NewToolkitWithGroups tools groups = Inr kit \<Longrightarrow> kit_ok kit"
  unfolding NewToolkitWithGroups_def Let_def
  by (auto split: sum.splits dest: toolkit_validate_ok simp del: toolkit.update_convs)

section \<open>Lookup\<close>

lemma subseq_set: "subseq xs ys \<Longrightarrow> set xs \<subseteq> set ys"
  by (induction rule: list_emb.induct) auto

lemma subseq_distinct_map: "subseq xs ys \<Longrightarrow> distinct (map f ys) \<Longrightarrow> distinct (map f xs)"
proof (induction rule: list_emb.induct)
  case (list_emb_Cons2 x y xs ys)
  then show ?case using subseq_set by auto
qed auto

definition active_slots :: "string list \<Rightarrow> tool_group option \<Rightarrow> kit_tool option list" where
  "active_slots active go =
     (case go of None \<Rightarrow> [] | Some g \<Rightarrow> if activeSet active (GName g) then GTools g else [])"

lemma available_fst:
  "map fst (availableTools kit active) =
     BasicTools kit @ concat (map (active_slots active) (Groups kit))
     @ (case ResetTool kit of None \<Rightarrow> [] | Some t \<Rightarrow> [Some t])"
proof -
  have "map fst (case go of None \<Rightarrow> [] | Some g \<Rightarrow>
      if activeSet active (GName g) then map (\<lambda>t. (t, GName g)) (GTools g) else []) = active_slots active go" for go
    by (simp add: active_slots_def comp_def split: option.split)
  then show ?thesis by (simp add: availableTools_def comp_def map_concat split: option.split)
qed

lemma active_slots_subseq: "subseq (concat (map (active_slots active) gs)) (group_slots gs)"
proof (induction gs)
  case (Cons go gs)
  have "subseq (active_slots active go) (case go of None \<Rightarrow> [] | Some g \<Rightarrow> GTools g)"
    by (simp add: active_slots_def split: option.split)
  with Cons show ?case by (simp add: group_slots_def list_emb_append_mono)
qed (simp add: group_slots_def)

lemma available_slots: "subseq (map fst (availableTools kit active)) (kit_slots kit)"
  unfolding available_fst kit_slots_def
  by (rule list_emb_append_mono [OF subseq_order.order_refl
        list_emb_append_mono [OF active_slots_subseq subseq_order.order_refl]])

lemma lookup_loop_None:
  "\<forall>p \<in> set ts. fst p \<noteq> None \<Longrightarrow>
     lookup_loop name ts = Ret None \<longleftrightarrow> (\<forall>t. Some t \<in> fst ` set ts \<longrightarrow> KName t \<noteq> name)"
  by (induction name ts rule: lookup_loop.induct) auto

lemma lookup_loop_Some:
  "lookup_loop name ts = Ret (Some t) \<Longrightarrow> Some t \<in> fst ` set ts \<and> KName t = name"
  by (induction name ts rule: lookup_loop.induct) (auto split: if_splits)

lemma lookup_loop_total: "\<forall>p \<in> set ts. fst p \<noteq> None \<Longrightarrow> \<exists>r. lookup_loop name ts = Ret r"
  by (induction name ts rule: lookup_loop.induct) auto

lemma available_ok:
  assumes "kit_ok kit"
  shows "\<forall>p \<in> set (availableTools kit active). fst p \<noteq> None"
    and "distinct (map slot_name (map fst (availableTools kit active)))"
proof -
  have sub: "set (map fst (availableTools kit active)) \<subseteq> set (kit_slots kit)"
    using subseq_set [OF available_slots] .
  then show "\<forall>p \<in> set (availableTools kit active). fst p \<noteq> None"
    using assms unfolding kit_ok_def by (metis fst_conv imageI list.set_map prod.collapse subsetD)
  show "distinct (map slot_name (map fst (availableTools kit active)))"
    using assms by (intro subseq_distinct_map [OF available_slots]) (simp add: kit_ok_def)
qed

lemma FindTool_iff:
  assumes "kit_ok kit"
  shows "FindTool kit name active = Ret (Some t) \<longleftrightarrow>
    Some t \<in> fst ` set (availableTools kit active) \<and> KName t = name"
proof
  assume "FindTool kit name active = Ret (Some t)"
  then show "Some t \<in> fst ` set (availableTools kit active) \<and> KName t = name"
    unfolding FindTool_def by (rule lookup_loop_Some)
next
  assume t: "Some t \<in> fst ` set (availableTools kit active) \<and> KName t = name"
  obtain r where r: "FindTool kit name active = Ret r"
    using lookup_loop_total available_ok(1) [OF assms] unfolding FindTool_def by blast
  have "r \<noteq> None"
    using r t lookup_loop_None [OF available_ok(1) [OF assms, of active], of name] unfolding FindTool_def by auto
  then obtain u where u: "r = Some u" by auto
  then have "Some u \<in> fst ` set (availableTools kit active)" "KName u = name"
    using r lookup_loop_Some unfolding FindTool_def by blast+
  moreover have "inj_on slot_name (set (map fst (availableTools kit active)))"
    using available_ok(2) [OF assms, of active] by (simp only: distinct_map)
  moreover have "slot_name (Some u) = slot_name (Some t)" using calculation(2) t by (simp add: slot_name_def)
  moreover have "Some u \<in> set (map fst (availableTools kit active))" "Some t \<in> set (map fst (availableTools kit active))"
    using calculation(1) t by simp_all
  ultimately have "Some u = Some t" by (meson inj_onD)
  with r u show "FindTool kit name active = Ret (Some t)" by simp
qed

section \<open>Properties\<close>

text \<open>a toolkit that could be constructed has no nil tool and no nil or reserved group, and the
  trimmed names of all its tools, in every group, are non-empty and pairwise distinct.\<close>

theorem toolkit_names_are_unique:
  assumes "NewToolkitWithGroups tools groups = Inr kit"
  shows "(\<forall>t \<in> set (kit_slots kit). t \<noteq> None \<and> slot_name t \<noteq> []) \<and> distinct (map slot_name (kit_slots kit))
    \<and> (\<forall>go \<in> set (Groups kit). \<exists>g. go = Some g \<and> GName g \<noteq> basicGroupName)"
  using NewToolkitWithGroups_ok [OF assms] unfolding kit_ok_def by blast

definition demo_kit_tool :: "string \<Rightarrow> kit_tool" where
  "demo_kit_tool name =
     \<lparr>KTool = demo_tool\<lparr>ToolNameOf := name\<rparr>, KSchema = None,
      KExecute = (\<lambda>w input st. Ret ((Inr None, st), w))\<rparr>"

definition demo_group :: tool_group where
  "demo_group = \<lparr>GName = ''web'', GDescription = ''web tools'', GInstructions = [],
     GTools = [Some (demo_kit_tool ''Fetch'')]\<rparr>"

declare TrimSpace_samples [simp]

lemmas demo_kit_simps = NewToolkitWithGroups_def toolkit_validate_def registerTool_def
  demo_group_def demo_kit_tool_def demo_tool_def basicGroupName_def NewResetTools_def

definition demo_kit :: toolkit where
  "demo_kit = \<lparr>BasicTools = [Some (demo_kit_tool ''Bash'')], Groups = [Some demo_group],
     ToolGroups = [''Bash'' \<mapsto> ''basic'', ''Fetch'' \<mapsto> ''web'', ''reset_tools'' \<mapsto> ''basic''],
     ResetTool = Some (NewResetTools (group_infos [Some demo_group]))\<rparr>"

lemma demo_kit_built: "NewToolkitWithGroups [Some (demo_kit_tool ''Bash'')] [Some demo_group] = Inr demo_kit"
  by (simp add: demo_kit_simps demo_kit_def Let_def)

theorem toolkit_names_are_unique_witness: "distinct (map slot_name (kit_slots demo_kit))"
  using toolkit_names_are_unique [OF demo_kit_built] by blast

text \<open>C17: in a toolkit that could be constructed a call finds a tool exactly when that tool is a
  basic tool, the reset tool, or belongs to a group that is active, and has exactly the called name;
  it is then that tool and no other.\<close>

theorem tool_gating:
  assumes "NewToolkitWithGroups tools groups = Inr kit"
  shows "FindTool kit name active = Ret (Some t) \<longleftrightarrow>
    KName t = name \<and> (Some t \<in> set (BasicTools kit) \<or> ResetTool kit = Some t
      \<or> (\<exists>g. Some g \<in> set (Groups kit) \<and> activeSet active (GName g) \<and> Some t \<in> set (GTools g)))"
proof -
  have "fst ` set (availableTools kit active) = set (map fst (availableTools kit active))" by simp
  then have "Some t \<in> fst ` set (availableTools kit active) \<longleftrightarrow>
      Some t \<in> set (BasicTools kit) \<or> ResetTool kit = Some t
      \<or> (\<exists>go \<in> set (Groups kit). Some t \<in> set (active_slots active go))"
    unfolding available_fst by (auto split: option.splits)
  moreover have "(\<exists>go \<in> set (Groups kit). Some t \<in> set (active_slots active go)) \<longleftrightarrow>
      (\<exists>g. Some g \<in> set (Groups kit) \<and> activeSet active (GName g) \<and> Some t \<in> set (GTools g))"
    by (force simp: active_slots_def split: option.splits if_splits)
  ultimately show ?thesis using FindTool_iff [OF NewToolkitWithGroups_ok [OF assms]] by blast
qed

theorem tool_gating_witness:
  "FindTool demo_kit ''Fetch'' [''web ''] = Ret (Some (demo_kit_tool ''Fetch''))
    \<and> FindTool demo_kit ''Fetch'' [] \<noteq> Ret (Some (demo_kit_tool ''Fetch''))"
proof -
  have kit: "BasicTools demo_kit = [Some (demo_kit_tool ''Bash'')]" "Groups demo_kit = [Some demo_group]"
    "ResetTool demo_kit = Some (NewResetTools (group_infos [Some demo_group]))"
    "GName demo_group = ''web''" "GTools demo_group = [Some (demo_kit_tool ''Fetch'')]"
    by (simp_all add: demo_kit_def demo_group_def)
  have names: "KName (demo_kit_tool n) = n" "KName (NewResetTools gs) = ''reset_tools''" for n gs
    by (simp_all add: demo_kit_tool_def NewResetTools_def Let_def)
  have "demo_kit_tool ''Bash'' \<noteq> demo_kit_tool ''Fetch''" "NewResetTools gs \<noteq> demo_kit_tool ''Fetch''" for gs
    by (auto dest: arg_cong [where f = KName] simp: names)
  then show ?thesis
    using tool_gating [OF demo_kit_built, of "''Fetch''" "[''web '']" "demo_kit_tool ''Fetch''"]
      tool_gating [OF demo_kit_built, of "''Fetch''" "[]" "demo_kit_tool ''Fetch''"]
    by (simp add: kit names activeSet_def)
qed

lemma activeSet_trimmed:
  "list_all (\<lambda>n. TrimSpace n = n \<and> n \<noteq> []) names \<Longrightarrow> activeSet names g \<longleftrightarrow> g \<in> set names"
  by (induction names) (auto simp: activeSet_def)

lemma enabled_iff: "enabled input g \<longleftrightarrow> map_of input (InfoName g) = Some (VBool True)"
proof (cases "map_of input (InfoName g)")
  case (Some v)
  then show ?thesis by (cases v) (simp_all add: enabled_def)
qed (simp add: enabled_def)

lemma reset_active:
  assumes "ResetTools_Execute (trim_infos gs) w input (Some s) = Ret ((r, Some s'), w')"
  shows "activeGroupsFromState (Some s') = map InfoName (filter (enabled input) (trim_infos gs))"
  using assms by (auto simp: ResetTools_Execute_def activeGroupsFromState_def go_bind_eq_Ret Let_def)

text \<open>after the reset tool ran, a tool of a group is found exactly when the input enables that
  group, so one call replaces the whole set of active groups.\<close>

theorem reset_replaces_active_groups:
  assumes "NewToolkitWithGroups tools groups = Inr kit" and "groups \<noteq> []"
    and "KExecute (the (ResetTool kit)) w input (Some s) = Ret ((r, Some s'), w')"
    and "Some g \<in> set (Groups kit)" and "Some t \<in> set (GTools g)"
    and "TrimSpace (GName g) = GName g" and "GName g \<noteq> []"
  shows "FindTool kit (KName t) (activeGroupsFromState (Some s')) = Ret (Some t) \<longleftrightarrow>
    map_of input (GName g) = Some (VBool True)"
proof -
  have kit: "ResetTool kit = Some (NewResetTools (group_infos groups))" "Groups kit = groups"
    using assms(1,2) by (auto simp: NewToolkitWithGroups_def Let_def split: sum.splits)
  let ?infos = "trim_infos (group_infos groups)"
  have act: "activeGroupsFromState (Some s') = map InfoName (filter (enabled input) ?infos)"
    using assms(3) kit(1) by (intro reset_active) (simp add: NewResetTools_def Let_def)
  have trimmed: "list_all (\<lambda>n. TrimSpace n = n \<and> n \<noteq> []) (map InfoName (filter (enabled input) ?infos))"
    by (auto simp: list_all_iff trim_infos_def)
  have "GName g \<in> InfoName ` set ?infos"
    using assms(4,6,7) kit(2) by (force simp: trim_infos_def group_infos_def image_iff)
  then have active: "activeSet (activeGroupsFromState (Some s')) (GName g) \<longleftrightarrow>
      map_of input (GName g) = Some (VBool True)"
    unfolding act activeSet_trimmed [OF trimmed]
    by (auto simp: enabled_iff image_iff)
  have ok: "kit_ok kit" by (rule NewToolkitWithGroups_ok [OF assms(1)])
  then have dist: "distinct (map slot_name (kit_slots kit))"
    and here: "ToolGroups kit (slot_name (Some t)) = Some (GName g)"
    and others: "\<And>g'. Some g' \<in> set (Groups kit) \<Longrightarrow> Some t \<in> set (GTools g') \<Longrightarrow>
      ToolGroups kit (slot_name (Some t)) = Some (GName g')"
    using assms(4,5) unfolding kit_ok_def by blast+
  have "Some t \<in> set (group_slots (Groups kit))"
    using assms(4,5) by (force simp: group_slots_def)
  with dist have "Some t \<notin> set (BasicTools kit)" "ResetTool kit \<noteq> Some t"
    unfolding kit_slots_def by (auto split: option.splits)
  moreover have "GName g' = GName g" if "Some g' \<in> set (Groups kit)" "Some t \<in> set (GTools g')" for g'
    using here others [OF that] by simp
  ultimately show ?thesis
    unfolding tool_gating [OF assms(1)] using active assms(4,5) by metis
qed

definition demo_state :: agent_state where
  "demo_state = fst (NewAgentState demo_env)"

theorem reset_replaces_active_groups_witness:
  "\<exists>c s' w'. KExecute (the (ResetTool demo_kit)) demo_env [(''web'', VBool True)] (Some demo_state)
      = Ret ((Inr (Some [c]), Some s'), w')
    \<and> FindTool demo_kit ''Fetch'' (activeGroupsFromState (Some s')) = Ret (Some (demo_kit_tool ''Fetch''))"
proof -
  let ?gs = "trim_infos (group_infos [Some demo_group])"
  have exec: "KExecute (the (ResetTool demo_kit)) = ResetTools_Execute ?gs"
    by (simp add: demo_kit_def NewResetTools_def Let_def)
  obtain c i w' where "successText demo_env (reset_text (filter (enabled [(''web'', VBool True)]) ?gs)) = Ret (c, w')"
    using successText_ok by blast
  then obtain s' where run: "KExecute (the (ResetTool demo_kit)) demo_env [(''web'', VBool True)] (Some demo_state)
      = Ret ((Inr (Some [c]), Some s'), w')"
    unfolding exec by (simp add: ResetTools_Execute_def)
  have "KName (demo_kit_tool ''Fetch'') = ''Fetch''" by (simp add: demo_kit_tool_def)
  with reset_replaces_active_groups [OF demo_kit_built _ run, of demo_group "demo_kit_tool ''Fetch''"] run
  show ?thesis by (fastforce simp: demo_kit_def demo_group_def)
qed

lemma state_chunk_ok:
  assumes "st \<noteq> ToolResultOther []"
  shows "\<exists>c w' j. state_chunk st w i t = Ret (c, w') \<and> ChunkState c = st \<and> ChunkContent c = [Some (TextBlock t j)]"
  using assms
  by (simp add: state_chunk_def NewTextBlock_def NewToolChunk_def newID_def WithToolChunkState_def
      WithToolChunkID_def Let_def)

lemma interruptedChunk_ok:
  "\<exists>c w' j. interruptedChunk w i t = Ret (c, w') \<and> ChunkState c = ToolResultInterrupted
     \<and> ChunkContent c = [Some (TextBlock t j)]"
  by (simp add: interruptedChunk_def NewTextBlock_def NewToolChunk_def newID_def WithToolChunkState_def
      WithToolChunkID_def Let_def)

lemma single_chunk_response:
  assumes "ChunkContent c = [Some (TextBlock t j)]" and "stateRank (ChunkState c) > 1" and "i \<noteq> []"
  shows "\<exists>resp w'. append_chunks (snd (NewToolResponse w [WithToolResponseID i]))
      (fst (NewToolResponse w [WithToolResponseID i])) [c] = Ret (Inr resp, w')
    \<and> RespState resp = ChunkState c \<and> RespID resp = i \<and> RespContent resp = [Some (TextBlock t j)]"
  using assms
  by (simp add: NewToolResponse_def newID_def WithToolResponseID_def AppendChunk_Some chunk_joined_def
      mergeConsecutiveTextBlocks_def)

definition call_fails ::
    "(string \<Rightarrow> error + gval) \<Rightarrow> toolkit \<Rightarrow> env \<Rightarrow> tool_call_args \<Rightarrow> agent_state option \<Rightarrow> bool" where
  "call_fails unmarshal kit w call st =
     (case call of (i, name, inp) \<Rightarrow>
        (case FindTool kit name (activeGroupsFromState st) of
           Panic \<Rightarrow> False
         | Ret None \<Rightarrow> True
         | Ret (Some t) \<Rightarrow>
             (case LoadObject unmarshal inp of
                Inl e \<Rightarrow> True
              | Inr input \<Rightarrow>
                  (case KExecute t w input st of
                     Panic \<Rightarrow> False
                   | Ret ((Inl e, st'), w') \<Rightarrow> True
                   | Ret ((Inr None, st'), w') \<Rightarrow> True
                   | Ret ((Inr (Some cs), st'), w') \<Rightarrow> False))))"

lemma CallTool_fails:
  assumes "call_fails unmarshal kit w (i, name, inp) st"
  shows "\<exists>c t j st' w'. CallTool unmarshal canceled kit w (Some (i, name, inp)) st = Ret ((Inr [c], st'), w')
    \<and> ChunkState c \<in> {ToolResultError, ToolResultInterrupted} \<and> ChunkContent c = [Some (TextBlock t j)]"
proof -
  have err: "\<exists>c w' j. errorChunk w i t = Ret (c, w') \<and> ChunkState c = ToolResultError
      \<and> ChunkContent c = [Some (TextBlock t j)]" for w t
    using state_chunk_ok [of ToolResultError] by (simp add: errorChunk_def)
  show ?thesis
  proof (cases "FindTool kit name (activeGroupsFromState st)")
    case Panic
    with assms show ?thesis by (simp add: call_fails_def)
  next
    case (Ret found)
    show ?thesis
    proof (cases found)
      case None
      from err [of w "toolLookupError kit name"] Ret None show ?thesis
        by (fastforce simp: CallTool_def)
    next
      case (Some t)
      show ?thesis
      proof (cases "LoadObject unmarshal inp")
        case (Inl e)
        from err [of w "error_text e"] Ret Some Inl show ?thesis by (fastforce simp: CallTool_def)
      next
        case (Inr input)
        then obtain r st' w1 where run: "KExecute t w input st = Ret ((r, st'), w1)"
          using assms Ret Some by (auto simp: call_fails_def split: go.splits)
        from run assms Ret Some Inr consider e where "r = Inl e" | "r = Inr None"
          by (auto simp: call_fails_def split: sum.splits option.splits)
        then show ?thesis
        proof cases
          case (1 e)
          from err [of w1 "error_text e"] interruptedChunk_ok [of w1 i "error_text e"] Ret Some Inr run 1
          show ?thesis by (cases "canceled e") (fastforce simp: CallTool_def)+
        next
          case 2
          from err [of w1 "''tool '' @ KName t @ '' returned nil chunk stream''"] Ret Some Inr run 2
          show ?thesis by (fastforce simp: CallTool_def)
        qed
      qed
    qed
  qed
qed



text \<open>the schemas a toolkit shows a model carry trimmed tool names, but a call is looked up by the
  untrimmed name: a tool whose name has surrounding white space is advertised under a name no call
  finds.\<close>

theorem padded_tool_name_is_not_callable:
  "\<exists>kit s. NewToolkit [Some (demo_kit_tool '' Bash'')] = Inr kit \<and> ToolSchemas kit [] = Inr [s]
    \<and> SchemaName s = ''Bash'' \<and> FindTool kit ''Bash'' [] = Ret None"
  by (simp add: NewToolkit_def NewToolkitWithGroups_def toolkit_validate_def registerTool_def
      ToolSchemas_def availableTools_def schemaForTool_def FindTool_def demo_kit_tool_def demo_tool_def Let_def)

interpretation reset: local_state_tool "KTool (NewResetTools gs)" for gs
  by unfold_locales (simp_all add: NewResetTools_def Let_def)

text \<open>the permission engine allows the reset tool in every mode but explore mode, unless a deny
  or ask rule applies to it, so a model may change its own active groups without asking.\<close>

theorem reset_tool_is_allowed:
  assumes "\<not> some_rule (KTool (NewResetTools gs)) (input_of inp) (DenyRules (Context e))"
    and "\<not> some_rule (KTool (NewResetTools gs)) (input_of inp) (AskRules (Context e))"
    and "Mode (Context e) \<noteq> ModeExplore"
  shows "\<exists>d e'. CheckPermission marshal e (Some (KTool (NewResetTools gs))) inp = (Inr d, e')
    \<and> DecBehavior d = BehaviorAllow"
  using reset.engine_allows [OF assms(1,2)] assms(3) by blast

theorem reset_tool_is_allowed_witness:
  "\<exists>d e'. CheckPermission (\<lambda>_. None) (demo_engine ModeDontAsk) (Some (KTool (NewResetTools []))) None = (Inr d, e')
    \<and> DecBehavior d = BehaviorAllow"
  by (rule reset_tool_is_allowed) (simp_all add: some_rule_def demo_simps)

end
