(* ===== verification/Operation_Gate.thy ===== *)
theory Operation_Gate
  imports Prelude
begin

text \<open>
  The gateway operation gate of the sandboxed workspaces
  (\<open>pkg/workspace/internal/sandboxed/operation_gate.go\<close>) and the discipline with which
  \<open>workspace.go\<close> uses it: operations hold a lease while they run, \<open>Close\<close> and
  \<open>Reset\<close> shut the gate and wait until the last lease is returned.

  The mutex makes every critical section one step. Channels are numbers; a channel is closed
  when its number is in \<open>ClosedChans\<close>, and closing a closed channel panics. Each lease
  function has its own \<open>sync.Once\<close>: \<open>Returned\<close> says of each lease handed out whether it
  ran. \<open>active\<close> is a Go \<open>int\<close>; it equals the number of leases in the heap, so it stays
  far from the end of its range and is kept as an \<open>int\<close>.
\<close>

section \<open>State\<close>

record operationGate =
  Closing :: bool
  Active :: int
  Drained :: "nat option"

record gate_world =
  Gate :: operationGate
  Returned :: "bool list"
  ClosedChans :: "nat list"
  NextChan :: nat

definition new_gate :: gate_world where
  "new_gate = \<lparr>Gate = \<lparr>Closing = False, Active = 0, Drained = None\<rparr>, Returned = [],
               ClosedChans = [], NextChan = 0\<rparr>"

text \<open>
  A context is nil or carries \<open>ctx.Err()\<close> at the time of the call and the value stored
  under \<open>internalGatewayOperationKey\<close>.
\<close>

record gate_ctx =
  CtxErr :: "error option"
  InternalOp :: bool

definition internalGatewayContext :: "gate_ctx option \<Rightarrow> gate_ctx option" where
  "internalGatewayContext ctx = map_option (\<lambda>c. c\<lparr>InternalOp := True\<rparr>) ctx"

definition errGatewayOperationsClosing :: error where
  "errGatewayOperationsClosing = Err ''workspace/sandboxed: gateway operations are closing''"

definition errNilOperationContext :: error where
  "errNilOperationContext = Err ''workspace/sandboxed: nil operation context''"

section \<open>Operations\<close>

text \<open>The function \<open>begin\<close> returns: it does nothing, or returns the lease of its index.\<close>

datatype lease = NoLease | Lease nat

definition gate_begin :: "gate_ctx option \<Rightarrow> gate_world \<Rightarrow> (error + lease) \<times> gate_world" where
  "gate_begin ctx w =
     (case ctx of
        None \<Rightarrow> (Inl errNilOperationContext, w)
      | Some c \<Rightarrow>
          (case CtxErr c of
             Some e \<Rightarrow> (Inl e, w)
           | None \<Rightarrow>
               if InternalOp c then (Inr NoLease, w)
               else if Closing (Gate w) then (Inl errGatewayOperationsClosing, w)
               else (Inr (Lease (length (Returned w))),
                     w\<lparr>Gate := (Gate w)\<lparr>Active := Active (Gate w) + 1\<rparr>,
                       Returned := Returned w @ [False]\<rparr>)))"

text \<open>\<open>close(ch)\<close>.\<close>

definition close_chan :: "nat \<Rightarrow> gate_world \<Rightarrow> gate_world go" where
  "close_chan c w = (if c \<in> set (ClosedChans w) then Panic
                     else Ret (w\<lparr>ClosedChans := c # ClosedChans w\<rparr>))"

definition drain :: "gate_world \<Rightarrow> gate_world go" where
  "drain w =
     (case Drained (Gate w) of
        None \<Rightarrow> Ret w
      | Some c \<Rightarrow> go_bind (close_chan c w) (\<lambda>w. Ret (w\<lparr>Gate := (Gate w)\<lparr>Drained := None\<rparr>\<rparr>)))"

text \<open>Calling the function \<open>begin\<close> returned; the second and later calls do nothing.\<close>

definition end_lease :: "lease \<Rightarrow> gate_world \<Rightarrow> gate_world go" where
  "end_lease l w =
     (case l of
        NoLease \<Rightarrow> Ret w
      | Lease i \<Rightarrow>
          if i \<ge> length (Returned w) \<or> Returned w ! i then Ret w
          else
            (let w = w\<lparr>Returned := (Returned w)[i := True],
                       Gate := (Gate w)\<lparr>Active := Active (Gate w) - 1\<rparr>\<rparr>
             in if Closing (Gate w) \<and> Active (Gate w) = 0 then drain w else Ret w))"

text \<open>
  \<open>closeAndWait\<close> up to its \<open>select\<close>: it returns at once, or waits for the channel. The
  \<open>select\<close> ends when the channel is closed or the context is done.
\<close>

datatype close_result = CloseReturns "error option" | WaitFor nat

definition close_start :: "gate_ctx option \<Rightarrow> gate_world \<Rightarrow> (close_result \<times> gate_world) go" where
  "close_start ctx w =
     (case ctx of
        None \<Rightarrow> Ret (CloseReturns (Some errNilOperationContext), w)
      | Some c \<Rightarrow>
          (case CtxErr c of
             Some e \<Rightarrow> Ret (CloseReturns (Some e), w)
           | None \<Rightarrow>
               if \<not> Closing (Gate w) then
                 (let w = w\<lparr>Gate := (Gate w)\<lparr>Closing := True, Drained := Some (NextChan w)\<rparr>,
                            NextChan := Suc (NextChan w)\<rparr>
                  in if Active (Gate w) = 0
                     then go_bind (drain w) (\<lambda>w. Ret (CloseReturns None, w))
                     else Ret (WaitFor (the (Drained (Gate w))), w))
               else
                 (case Drained (Gate w) of
                    None \<Rightarrow> Ret (CloseReturns None, w)
                  | Some c \<Rightarrow> Ret (WaitFor c, w))))"

definition chan_ready :: "nat \<Rightarrow> gate_world \<Rightarrow> bool" where
  "chan_ready c w \<longleftrightarrow> c \<in> set (ClosedChans w)"

definition reopen :: "gate_world \<Rightarrow> gate_world" where
  "reopen w = w\<lparr>Gate := (Gate w)\<lparr>Closing := False, Drained := None\<rparr>\<rparr>"

section \<open>The protocol of the workspace\<close>

text \<open>
  \<open>Close\<close>, \<open>Reset\<close> and \<open>ResetMCPs\<close> hold the workspace lock from before
  \<open>closeAndWait\<close> until they return, so at most one of them uses the gate: the workspace is
  free, one of them waits for a channel, or one of them has the gate for itself. After an error
  each reopens the gate; \<open>Reset\<close> also reopens it when it returns. Operations begin and return
  their leases at any time, a lease function possibly several times.
\<close>

datatype phase = Unlocked | Waiting nat | Exclusive

inductive gate_step :: "gate_world \<times> phase \<Rightarrow> gate_world \<times> phase \<Rightarrow> bool" where
  Begin: "gate_begin ctx w = (r, w') \<Longrightarrow> gate_step (w, p) (w', p)"
| End: "end_lease l w = Ret w' \<Longrightarrow> gate_step (w, p) (w', p)"
| Close_now: "close_start ctx w = Ret (CloseReturns None, w') \<Longrightarrow>
    gate_step (w, Unlocked) (w', Exclusive)"
| Close_wait: "close_start ctx w = Ret (WaitFor c, w') \<Longrightarrow>
    gate_step (w, Unlocked) (w', Waiting c)"
| Close_fails: "close_start ctx w = Ret (CloseReturns (Some e), w') \<Longrightarrow>
    gate_step (w, Unlocked) (reopen w', Unlocked)"
| Wait_done: "chan_ready c w \<Longrightarrow> gate_step (w, Waiting c) (w, Exclusive)"
| Wait_cancelled: "gate_step (w, Waiting c) (reopen w, Unlocked)"
| Reopen: "gate_step (w, Exclusive) (reopen w, Unlocked)"

inductive gate_reachable :: "gate_world \<times> phase \<Rightarrow> bool" where
  Start: "gate_reachable (new_gate, Unlocked)"
| Step: "gate_reachable s \<Longrightarrow> gate_step s s' \<Longrightarrow> gate_reachable s'"

inductive_simps gate_step_simps: "gate_step (w, p) s'"

section \<open>The invariant\<close>

definition outstanding :: "gate_world \<Rightarrow> nat" where
  "outstanding w = length (filter Not (Returned w))"

definition gate_inv :: "gate_world \<times> phase \<Rightarrow> bool" where
  "gate_inv s =
     (let w = fst s; g = Gate w in
      Active g = int (outstanding w)
      \<and> (\<forall>c \<in> set (ClosedChans w). c < NextChan w)
      \<and> (case Drained g of
           None \<Rightarrow> True
         | Some c \<Rightarrow> c < NextChan w \<and> c \<notin> set (ClosedChans w) \<and> Active g > 0)
      \<and> (case snd s of
           Unlocked \<Rightarrow> \<not> Closing g \<and> Drained g = None
         | Waiting c \<Rightarrow> Closing g
             \<and> (Drained g = Some c \<or> Drained g = None \<and> c \<in> set (ClosedChans w) \<and> Active g = 0)
         | Exclusive \<Rightarrow> Closing g \<and> Drained g = None \<and> Active g = 0))"

lemma outstanding_return:
  assumes "i < length rs" "\<not> rs ! i"
  shows "length (filter Not rs) = Suc (length (filter Not (rs[i := True])))"
proof -
  have rs: "rs = take i rs @ rs ! i # drop (Suc i) rs"
    using assms(1) by (simp add: id_take_nth_drop)
  have "rs[i := True] = take i rs @ True # drop (Suc i) rs"
    using assms(1) by (simp add: upd_conv_take_nth_drop)
  moreover have "filter Not rs = filter Not (take i rs) @ rs ! i # filter Not (drop (Suc i) rs)"
    by (subst rs) (use assms(2) in \<open>simp\<close>)
  ultimately show ?thesis by simp
qed

lemma gate_inv_start: "gate_inv (new_gate, Unlocked)"
  by (simp add: gate_inv_def new_gate_def outstanding_def)

lemma gate_begin_inv:
  "gate_inv (w, p) \<Longrightarrow> gate_begin ctx w = (r, w') \<Longrightarrow> gate_inv (w', p)"
  by (auto simp: gate_inv_def gate_begin_def Let_def outstanding_def
      split: option.splits if_splits phase.splits)

lemma end_lease_inv:
  assumes inv: "gate_inv (w, p)"
  shows "\<exists>w'. end_lease l w = Ret w' \<and> gate_inv (w', p)"
proof (cases "\<exists>i. l = Lease i \<and> i < length (Returned w) \<and> \<not> Returned w ! i")
  case False
  then have "end_lease l w = Ret w"
    by (cases l) (auto simp: end_lease_def)
  with inv show ?thesis by simp
next
  case True
  then obtain i where l: "l = Lease i" and i: "i < length (Returned w)" "\<not> Returned w ! i" by blast
  have o: "outstanding w = Suc (length (filter Not ((Returned w)[i := True])))"
    unfolding outstanding_def by (rule outstanding_return [OF i])
  show ?thesis
    using inv i o
    by (auto simp: l end_lease_def Let_def drain_def close_chan_def gate_inv_def outstanding_def
        split: option.splits phase.splits)
qed

lemma close_start_inv:
  assumes "gate_inv (w, Unlocked)"
  shows "\<exists>r w'. close_start ctx w = Ret (r, w') \<and>
    (case r of CloseReturns None \<Rightarrow> gate_inv (w', Exclusive)
     | CloseReturns (Some e) \<Rightarrow> gate_inv (w', Unlocked)
     | WaitFor c \<Rightarrow> gate_inv (w', Waiting c))"
  using assms
  by (auto simp: close_start_def Let_def drain_def close_chan_def gate_inv_def outstanding_def
      split: option.splits)

lemma reopen_inv: "gate_inv (w, p) \<Longrightarrow> gate_inv (reopen w, Unlocked)"
  by (simp add: gate_inv_def reopen_def Let_def outstanding_def)

lemma gate_step_inv:
  assumes inv: "gate_inv s" and step: "gate_step s s'"
  shows "gate_inv s'"
  using step inv
proof cases
  case (Begin ctx w r w' p)
  then show ?thesis using inv gate_begin_inv by blast
next
  case (End l w w' p)
  then show ?thesis using inv end_lease_inv [of w p l] by auto
next
  case (Close_now ctx w w')
  then show ?thesis using inv close_start_inv [of w ctx] by auto
next
  case (Close_wait ctx w c w')
  then show ?thesis using inv close_start_inv [of w ctx] by auto
next
  case (Close_fails ctx w e w')
  then show ?thesis using inv close_start_inv [of w ctx] reopen_inv by auto
next
  case (Wait_done c w)
  then show ?thesis using inv by (auto simp: gate_inv_def chan_ready_def Let_def)
next
  case (Wait_cancelled w c)
  then show ?thesis using inv reopen_inv by blast
next
  case (Reopen w)
  then show ?thesis using inv reopen_inv by blast
qed

lemma gate_reachable_inv: "gate_reachable s \<Longrightarrow> gate_inv s"
  by (induction rule: gate_reachable.induct) (auto intro: gate_inv_start gate_step_inv)


section \<open>What the gate promises\<close>

text \<open>Returning several leases, in the order of the list.\<close>

fun end_leases :: "lease list \<Rightarrow> gate_world \<Rightarrow> gate_world go" where
  "end_leases [] w = Ret w"
| "end_leases (l # ls) w = go_bind (end_lease l w) (end_leases ls)"

lemma end_lease_returned:
  assumes "end_lease l w = Ret w'"
  shows "length (Returned w') = length (Returned w)"
    and "i < length (Returned w) \<Longrightarrow> Returned w' ! i \<longleftrightarrow> Returned w ! i \<or> l = Lease i"
  using assms
  by (auto simp: end_lease_def drain_def close_chan_def Let_def nth_list_update
      split: lease.splits if_splits option.splits)

lemma end_leases_inv:
  assumes "gate_inv (w, p)"
  shows "\<exists>w'. end_leases ls w = Ret w' \<and> gate_inv (w', p)
    \<and> length (Returned w') = length (Returned w)
    \<and> (\<forall>i < length (Returned w). Returned w' ! i \<longleftrightarrow> Returned w ! i \<or> Lease i \<in> set ls)"
  using assms
proof (induction ls arbitrary: w)
  case Nil
  then show ?case by simp
next
  case (Cons l ls)
  obtain v where v: "end_lease l w = Ret v" "gate_inv (v, p)"
    using end_lease_inv [OF Cons.prems] by blast
  obtain w' where "end_leases ls v = Ret w'" "gate_inv (w', p)"
      "length (Returned w') = length (Returned v)"
      "\<forall>i < length (Returned v). Returned w' ! i \<longleftrightarrow> Returned v ! i \<or> Lease i \<in> set ls"
    using Cons.IH [OF v(2)] by blast
  moreover have "length (Returned v) = length (Returned w)"
    using end_lease_returned(1) [OF v(1)] .
  moreover have "\<forall>i < length (Returned w). Returned v ! i \<longleftrightarrow> Returned w ! i \<or> l = Lease i"
    using end_lease_returned(2) [OF v(1)] by blast
  ultimately show ?case using v(1) by auto
qed

lemma none_outstanding_iff: "outstanding w = 0 \<longleftrightarrow> (\<forall>i < length (Returned w). Returned w ! i)"
  unfolding outstanding_def length_0_conv filter_empty_conv all_set_conv_all_nth by simp

text \<open>C33: From the moment a close or reset starts to wait until the gate is opened again, every
  operation that is not one of the workspace's own is refused and the gate is unchanged; and once
  the close or reset goes on, no operation is running: every lease that was ever handed out has
  been returned, whatever the interleaving of operations, repeated lease calls, cancelled waits
  and earlier closings.\<close>

theorem closed_gate_excludes_operations:
  assumes "gate_reachable (w, p)" and "p \<noteq> Unlocked"
  shows "gate_begin (Some \<lparr>CtxErr = None, InternalOp = False\<rparr>) w = (Inl errGatewayOperationsClosing, w)
    \<and> (p = Exclusive \<longrightarrow> Active (Gate w) = 0 \<and> list_all (\<lambda>r. r) (Returned w))"
proof -
  from gate_reachable_inv [OF assms(1)] have inv: "gate_inv (w, p)" .
  then have "Closing (Gate w)"
    using assms(2) by (cases p) (auto simp: gate_inv_def Let_def)
  moreover have "p = Exclusive \<Longrightarrow> Active (Gate w) = 0 \<and> outstanding w = 0"
    using inv by (simp add: gate_inv_def Let_def)
  ultimately show ?thesis
    by (auto simp: gate_begin_def none_outstanding_iff list_all_length)
qed

definition busy_gate :: gate_world where
  "busy_gate = snd (gate_begin (Some \<lparr>CtxErr = None, InternalOp = False\<rparr>) new_gate)"

definition closing_gate :: gate_world where
  "closing_gate = (case close_start (Some \<lparr>CtxErr = None, InternalOp = False\<rparr>) busy_gate of
     Ret (_, w) \<Rightarrow> w | Panic \<Rightarrow> busy_gate)"

lemma closing_gate_reachable: "gate_reachable (closing_gate, Waiting 0)"
proof -
  have "gate_step (new_gate, Unlocked) (busy_gate, Unlocked)"
    by (rule gate_step.Begin [where ctx = "Some \<lparr>CtxErr = None, InternalOp = False\<rparr>" and r = "Inr (Lease 0)"])
      (simp add: busy_gate_def gate_begin_def new_gate_def)
  moreover have "close_start (Some \<lparr>CtxErr = None, InternalOp = False\<rparr>) busy_gate
      = Ret (WaitFor 0, closing_gate)"
    by (simp add: closing_gate_def close_start_def busy_gate_def gate_begin_def new_gate_def)
  then have "gate_step (busy_gate, Unlocked) (closing_gate, Waiting 0)"
    by (rule gate_step.Close_wait)
  ultimately show ?thesis
    by (blast intro: gate_reachable.intros)
qed

theorem closed_gate_excludes_operations_witness:
  "gate_begin (Some \<lparr>CtxErr = None, InternalOp = False\<rparr>) closing_gate
     = (Inl errGatewayOperationsClosing, closing_gate)"
  using closed_gate_excludes_operations [OF closing_gate_reachable] by simp

text \<open>C34: Returning a lease never panics, not even when it is returned again or after the gate
  was reopened (the drained channel is closed at most once); and a close or reset that waits is
  woken when the leases still out have been returned, in whatever order and however often the
  lease functions are called.\<close>

theorem waiting_close_is_woken:
  assumes "gate_reachable (w, Waiting c)"
    and "\<forall>i < length (Returned w). \<not> Returned w ! i \<longrightarrow> Lease i \<in> set ls"
  shows "\<exists>w'. end_leases ls w = Ret w' \<and> gate_step (w', Waiting c) (w', Exclusive)"
proof -
  obtain w' where w': "end_leases ls w = Ret w'" "gate_inv (w', Waiting c)"
      "length (Returned w') = length (Returned w)"
      "\<forall>i < length (Returned w). Returned w' ! i \<longleftrightarrow> Returned w ! i \<or> Lease i \<in> set ls"
    using end_leases_inv [OF gate_reachable_inv [OF assms(1)]] by blast
  with assms(2) have "outstanding w' = 0" by (auto simp: none_outstanding_iff)
  with w'(2) have "chan_ready c w'"
    by (auto simp: gate_inv_def Let_def chan_ready_def)
  with w'(1) show ?thesis by (blast intro: gate_step.Wait_done)
qed

theorem waiting_close_is_woken_witness:
  "\<exists>w'. end_leases [NoLease, Lease 0, Lease 0] closing_gate = Ret w'
     \<and> gate_step (w', Waiting 0) (w', Exclusive)"
  by (rule waiting_close_is_woken [OF closing_gate_reachable])
    (simp add: closing_gate_def close_start_def busy_gate_def gate_begin_def new_gate_def)

end
