(* ===== verification/Automation_Event.thy ===== *)
theory Automation_Event
  imports Prelude
begin

text \<open>
  The generic automation events and their routing (\<open>pkg/loop/automation/event\<close>): the event
  envelope with its validation and de-duplication key, route decisions, the rule router and the
  ticker source.

  A \<open>time.Time\<close> is an instant in nanoseconds since January 1 of year 1, so that 0 is the zero
  time that \<open>IsZero\<close> tests and \<open>Before\<close> is the order of the integers; a nil map is an option's \<open>None\<close>, and a nil slice is the
  empty list (nothing modelled here tells a nil slice from an empty one).
  Copies (\<open>Clone\<close>) are the identity on values: the model has no aliasing, and the events are
  cloned wherever they are handed on.
\<close>

section \<open>Events\<close>

type_synonym gtime = int

record aevent =
  EID :: string
  Source :: string
  Type :: string
  Subject :: string
  Time :: gtime
  DataContentType :: string
  Data :: string
  Extensions :: "(string \<times> string) list option"
  CorrelationID :: string
  CausationID :: string
  DedupKey :: string
  Labels :: "string list"
  Priority :: int

definition event_Validate :: "aevent \<Rightarrow> error option" where
  "event_Validate e =
     (if TrimSpace (EID e) = [] then Some (Err ''automation: event id is empty'')
      else if TrimSpace (Source e) = [] then Some (Err ''automation: event source is empty'')
      else if TrimSpace (Type e) = [] then Some (Err ''automation: event type is empty'')
      else None)"

definition DeduplicationKey :: "aevent \<Rightarrow> string" where
  "DeduplicationKey e =
     (let key = TrimSpace (DedupKey e) in if key \<noteq> [] then key else TrimSpace (EID e))"

definition CloneStringMap :: "(string \<times> string) list option \<Rightarrow> (string \<times> string) list option" where
  "CloneStringMap values = (case values of None \<Rightarrow> None | Some m \<Rightarrow> Some (map (\<lambda>(k, v). (k, v)) m))"

definition event_Clone :: "aevent \<Rightarrow> aevent" where
  "event_Clone e =
     e\<lparr>Data := (if Data e \<noteq> [] then [] @ Data e else Data e),
       Extensions := CloneStringMap (Extensions e),
       Labels := [] @ Labels e\<rparr>"

lemma CloneStringMap_id [simp]: "CloneStringMap m = m"
  by (cases m) (simp_all add: CloneStringMap_def)

lemma event_Clone_id [simp]: "event_Clone e = e"
  by (simp add: event_Clone_def)

lemma DeduplicationKey_trimmed [simp]: "TrimSpace (DeduplicationKey e) = DeduplicationKey e"
  by (simp add: DeduplicationKey_def Let_def)

lemma DeduplicationKey_nonempty: "event_Validate e = None \<Longrightarrow> DeduplicationKey e \<noteq> []"
  by (auto simp: event_Validate_def DeduplicationKey_def Let_def split: if_splits)

section \<open>Routing\<close>

record route_decision =
  LoopName :: string
  AgentName :: string
  RouteLabels :: "string list"
  Metadata :: "gmap option"

definition zero_decision :: route_decision where
  "zero_decision = \<lparr>LoopName = [], AgentName = [], RouteLabels = [], Metadata = None\<rparr>"

definition decision_Clone :: "route_decision \<Rightarrow> route_decision" where
  "decision_Clone d = d\<lparr>RouteLabels := [] @ RouteLabels d, Metadata := CloneAnyMap (Metadata d)\<rparr>"

lemma decision_Clone_id [simp]: "decision_Clone d = d"
  by (simp add: decision_Clone_def)

record route_rule =
  SourcePrefix :: string
  RuleType :: string
  RuleSubject :: string
  RuleLabels :: "string list"
  Decision :: route_decision

record rule_router =
  Rules :: "route_rule list"
  Default :: route_decision

text \<open>\<open>HasAllLabels\<close>: a set of the labels, then a scan of the required ones.\<close>

definition HasAllLabels :: "string list \<Rightarrow> string list \<Rightarrow> bool" where
  "HasAllLabels labels required =
     (if required = [] then True
      else (let seen = fold (\<lambda>l s. insert l s) labels {} in list_all (\<lambda>l. l \<in> seen) required))"

lemma HasAllLabels_iff: "HasAllLabels labels required \<longleftrightarrow> set required \<subseteq> set labels"
proof -
  have "fold insert labels {} = set labels"
    by (metis union_set_fold sup_bot_right)
  then show ?thesis by (auto simp: HasAllLabels_def Let_def list_all_iff)
qed

definition route_rule_matches :: "route_rule \<Rightarrow> aevent \<Rightarrow> bool" where
  "route_rule_matches r e =
     (if SourcePrefix r \<noteq> [] \<and> \<not> HasPrefix (Source e) (SourcePrefix r) then False
      else if RuleType r \<noteq> [] \<and> RuleType r \<noteq> Type e then False
      else if RuleSubject r \<noteq> [] \<and> RuleSubject r \<noteq> Subject e then False
      else HasAllLabels (Labels e) (RuleLabels r))"

fun route_loop :: "route_rule list \<Rightarrow> aevent \<Rightarrow> route_decision \<Rightarrow> route_decision" where
  "route_loop [] e def = decision_Clone def"
| "route_loop (r # rs) e def =
     (if route_rule_matches r e then decision_Clone (Decision r) else route_loop rs e def)"

text \<open>
  \<open>RuleRouter.Route\<close>; the context is what \<open>ctx.Err()\<close> answers, or \<open>None\<close> for a nil
  context.
\<close>

type_synonym actx = "error option option"

definition errNilContext :: error where
  "errNilContext = Err ''automation: context is nil''"

definition rule_Route :: "rule_router \<Rightarrow> actx \<Rightarrow> aevent \<Rightarrow> error + route_decision" where
  "rule_Route r ctx e =
     (case ctx of
        None \<Rightarrow> Inl errNilContext
      | Some (Some err) \<Rightarrow> Inl err
      | Some None \<Rightarrow> Inr (route_loop (Rules r) e (Default r)))"

definition static_Route :: "route_decision \<Rightarrow> actx \<Rightarrow> aevent \<Rightarrow> error + route_decision" where
  "static_Route d ctx e = Inr (decision_Clone d)"

lemma route_loop_first_match:
  "route_loop rs e def =
     (case find (\<lambda>r. route_rule_matches r e) rs of None \<Rightarrow> def | Some r \<Rightarrow> Decision r)"
  by (induction rs) auto

lemma route_rule_matches_iff:
  "route_rule_matches r e \<longleftrightarrow>
     (SourcePrefix r = [] \<or> HasPrefix (Source e) (SourcePrefix r))
     \<and> (RuleType r = [] \<or> RuleType r = Type e)
     \<and> (RuleSubject r = [] \<or> RuleSubject r = Subject e)
     \<and> set (RuleLabels r) \<subseteq> set (Labels e)"
  by (auto simp: route_rule_matches_def HasAllLabels_iff)

section \<open>The ticker source\<close>

record ticker_source =
  TSource :: string
  TType :: string
  TSubject :: string
  TInterval :: int
  TDataContentType :: string
  TData :: string
  TExtensions :: "(string \<times> string) list option"
  TLabels :: "string list"
  TPriority :: int

definition EventTypeScheduleTick :: string where
  "EventTypeScheduleTick = ''schedule.tick''"

definition ticker_event :: "ticker_source \<Rightarrow> gtime \<Rightarrow> env \<Rightarrow> aevent \<times> env" where
  "ticker_event s now w =
     (let eventType = TrimSpace (TType s);
          eventType = (if eventType = [] then EventTypeScheduleTick else eventType);
          (i, w) = newID w
      in (\<lparr>EID = i, Source = TrimSpace (TSource s), Type = eventType, Subject = TSubject s,
           Time = now, DataContentType = TDataContentType s,
           Data = [] @ TData s,
           Extensions = CloneStringMap (TExtensions s), CorrelationID = [], CausationID = [],
           DedupKey = [], Labels = [] @ TLabels s, Priority = TPriority s\<rparr>, w))"

text \<open>
  \<open>TickerSource.Start\<close>: the clock delivers a sequence of ticks until the context is done (the
  list of instants is what the timer delivers before that), and the loop ends at the first
  handler error. The handler is a parameter with its own state.
\<close>

fun ticker_loop :: "ticker_source \<Rightarrow> (aevent \<Rightarrow> 's \<Rightarrow> error option \<times> 's) \<Rightarrow> gtime list \<Rightarrow> env \<Rightarrow> 's
    \<Rightarrow> error option \<times> env \<times> 's" where
  "ticker_loop s handler [] w st = (None, w, st)"
| "ticker_loop s handler (now # ticks) w st =
     (let (e, w) = ticker_event s now w in
      case handler e st of
        (Some err, st) \<Rightarrow> (Some err, w, st)
      | (None, st) \<Rightarrow> ticker_loop s handler ticks w st)"

definition ticker_Start :: "ticker_source \<Rightarrow> bool \<Rightarrow> (aevent \<Rightarrow> 's \<Rightarrow> error option \<times> 's) option
    \<Rightarrow> gtime list \<Rightarrow> env \<Rightarrow> 's \<Rightarrow> error option \<times> env \<times> 's" where
  "ticker_Start s ctx_nil handler ticks w st =
     (if ctx_nil then (Some errNilContext, w, st)
      else case handler of
        None \<Rightarrow> (Some (Err ''automation: event handler is nil''), w, st)
      | Some h \<Rightarrow>
          if TrimSpace (TSource s) = [] then (Some (Err ''automation: ticker source is empty''), w, st)
          else if TInterval s \<le> 0 then (Some (Err ''automation: ticker interval must be positive''), w, st)
          else ticker_loop s h ticks w st)"

text \<open>The events of a started ticker are valid as soon as the identifiers are not blank.\<close>

lemma ticker_event_valid:
  "TrimSpace (TSource s) \<noteq> [] \<Longrightarrow> TrimSpace (IdAt w (IdPos w)) \<noteq> [] \<Longrightarrow>
     event_Validate (fst (ticker_event s now w)) = None"
  by (auto simp: ticker_event_def newID_def Let_def event_Validate_def EventTypeScheduleTick_def
      TrimSpace_plain plain_def split: if_splits)

end
