(* ===== verification/Run_Store.thy ===== *)
theory Run_Store
  imports Automation_Event
begin

text \<open>
  The run stores of the automation runtime (\<open>pkg/loop/automation/store\<close>): run records and
  reports, the in-memory store with its de-duplication set and its budget window query, and the
  store that estimates costs in front of another. The interface \<open>RunStore\<close> is the record
  \<open>run_store_ops\<close>; its contract is the locale \<open>run_store\<close>, which the in-memory store
  satisfies and which the costing store passes on.

  Costs are \<open>float64\<close>: their type is a parameter, with the machine's operations in a record, so
  nothing is assumed about rounding. Counters are Go integers and wrap around.
\<close>

section \<open>Records\<close>

record 'f float64_ops =
  FZero :: 'f
  FAdd :: "'f \<Rightarrow> 'f \<Rightarrow> 'f"
  FLess :: "'f \<Rightarrow> 'f \<Rightarrow> bool"
  FGeq :: "'f \<Rightarrow> 'f \<Rightarrow> bool"
  FText :: "'f \<Rightarrow> string"

record 'f run_record =
  RunID :: string
  REventID :: string
  REventSource :: string
  REventType :: string
  RDedupKey :: string
  RLoopName :: string
  RAgentName :: string
  ReplyID :: string
  SessionID :: string
  WorkspaceRoot :: string
  WorkspaceMetadata :: "(string \<times> string) list option"
  GateReason :: string
  GateMetadata :: "(string \<times> string) list option"
  ModelCalls :: int
  ToolCalls :: int
  InputTokens :: int
  OutputTokens :: int
  EstimatedCost :: 'f
  StartedAt :: gtime
  FinishedAt :: gtime
  StopReason :: string
  RunError :: string

record budget_window =
  WStart :: gtime
  WEnd :: gtime
  WEventType :: string
  WLoopName :: string

record 'f budget_usage =
  Runs :: int
  UModelCalls :: int
  UToolCalls :: int
  UInputTokens :: int
  UOutputTokens :: int
  TotalTokens :: int
  UEstimatedCost :: 'f

record loop_report =
  ReportRunID :: string
  ReportEventID :: string
  ReportLoopName :: string
  Summary :: string
  Changes :: "string list"
  Evidence :: "string list"
  Blockers :: "string list"
  Risks :: "string list"
  NextAction :: string
  ReportStopReason :: string
  Verified :: bool
  ReportStartedAt :: gtime
  ReportFinishedAt :: gtime

definition cloneRunRecord :: "'f run_record \<Rightarrow> 'f run_record" where
  "cloneRunRecord r = r\<lparr>WorkspaceMetadata := CloneStringMap (WorkspaceMetadata r),
                        GateMetadata := CloneStringMap (GateMetadata r)\<rparr>"

lemma cloneRunRecord_id [simp]: "cloneRunRecord r = r"
  by (simp add: cloneRunRecord_def)

definition CloneLoopReport :: "loop_report \<Rightarrow> loop_report" where
  "CloneLoopReport r = r\<lparr>Changes := [] @ Changes r, Evidence := [] @ Evidence r,
                         Blockers := [] @ Blockers r, Risks := [] @ Risks r\<rparr>"

section \<open>The in-memory store\<close>

record 'f memory_store =
  Seen :: "string set"
  StoredEvents :: "aevent list"
  StoredRuns :: "'f run_record list"
  StoredReports :: "loop_report list"

definition NewMemoryRunStore :: "'f memory_store" where
  "NewMemoryRunStore = \<lparr>Seen = {}, StoredEvents = [], StoredRuns = [], StoredReports = []\<rparr>"

definition checkStoreInput :: "actx \<Rightarrow> error option" where
  "checkStoreInput ctx = (case ctx of None \<Rightarrow> Some errNilContext | Some e \<Rightarrow> e)"

definition mem_SeenEvent :: "actx \<Rightarrow> string \<Rightarrow> 'f memory_store \<Rightarrow> error + bool" where
  "mem_SeenEvent ctx key s =
     (case checkStoreInput ctx of
        Some e \<Rightarrow> Inl e
      | None \<Rightarrow>
          (let key = TrimSpace key in
           if key = [] then Inl (Err ''automation: event key is empty'')
           else Inr (key \<in> Seen s)))"

definition mem_RecordEvent :: "actx \<Rightarrow> aevent \<Rightarrow> 'f memory_store \<Rightarrow> error option \<times> 'f memory_store" where
  "mem_RecordEvent ctx e s =
     (case checkStoreInput ctx of
        Some err \<Rightarrow> (Some err, s)
      | None \<Rightarrow>
          (case event_Validate e of
             Some err \<Rightarrow> (Some err, s)
           | None \<Rightarrow>
               (let key = DeduplicationKey e in
                if key = [] then (Some (Err ''automation: event key is empty''), s)
                else
                  (let s = (if key \<notin> Seen s
                            then s\<lparr>StoredEvents := StoredEvents s @ [event_Clone e]\<rparr> else s);
                       s = s\<lparr>Seen := insert key (Seen s)\<rparr>;
                       s = (if DedupKey e \<noteq> [] then s\<lparr>Seen := insert (EID e) (Seen s)\<rparr> else s)
                   in (None, s)))))"

definition mem_RecordRun :: "actx \<Rightarrow> 'f run_record \<Rightarrow> 'f memory_store \<Rightarrow> error option \<times> 'f memory_store" where
  "mem_RecordRun ctx r s =
     (case checkStoreInput ctx of
        Some err \<Rightarrow> (Some err, s)
      | None \<Rightarrow>
          if TrimSpace (RunID r) = [] then (Some (Err ''automation: run id is empty''), s)
          else (None, s\<lparr>StoredRuns := StoredRuns s @ [cloneRunRecord r]\<rparr>))"

definition mem_RecordReport :: "actx \<Rightarrow> loop_report \<Rightarrow> 'f memory_store \<Rightarrow> error option \<times> 'f memory_store" where
  "mem_RecordReport ctx r s =
     (case checkStoreInput ctx of
        Some err \<Rightarrow> (Some err, s)
      | None \<Rightarrow>
          if TrimSpace (ReportRunID r) = [] then (Some (Err ''automation: report run id is empty''), s)
          else (None, s\<lparr>StoredReports := StoredReports s @ [r]\<rparr>))"

definition mem_Events :: "'f memory_store \<Rightarrow> aevent list" where
  "mem_Events s = map event_Clone (StoredEvents s)"

definition mem_Runs :: "'f memory_store \<Rightarrow> 'f run_record list" where
  "mem_Runs s = map cloneRunRecord (StoredRuns s)"

subsection \<open>Budget windows\<close>

definition validateBudgetWindow :: "budget_window \<Rightarrow> error option" where
  "validateBudgetWindow w =
     (if WStart w = 0 then Some (Err ''automation: budget window start is zero'')
      else if WEnd w \<noteq> 0 \<and> \<not> WEnd w > WStart w
      then Some (Err ''automation: budget window end must be after start'')
      else None)"

definition runTime :: "'f run_record \<Rightarrow> gtime" where
  "runTime r = (if StartedAt r \<noteq> 0 then StartedAt r else FinishedAt r)"

definition containsTime :: "budget_window \<Rightarrow> gtime \<Rightarrow> bool" where
  "containsTime w t = (if t = 0 \<or> t < WStart w then False else WEnd w = 0 \<or> t < WEnd w)"

definition window_includes :: "budget_window \<Rightarrow> 'f run_record \<Rightarrow> bool" where
  "window_includes w r =
     (if WEventType w \<noteq> [] \<and> REventType r \<noteq> WEventType w then False
      else if WLoopName w \<noteq> [] \<and> RLoopName r \<noteq> WLoopName w then False
      else containsTime w (runTime r))"

definition zero_usage :: "'f float64_ops \<Rightarrow> 'f budget_usage" where
  "zero_usage fo = \<lparr>Runs = 0, UModelCalls = 0, UToolCalls = 0, UInputTokens = 0, UOutputTokens = 0,
     TotalTokens = 0, UEstimatedCost = FZero fo\<rparr>"

definition addRun :: "'f float64_ops \<Rightarrow> 'f run_record \<Rightarrow> 'f budget_usage \<Rightarrow> 'f budget_usage" where
  "addRun fo r u = u\<lparr>
     Runs := wrap64 (Runs u + 1),
     UModelCalls := wrap64 (UModelCalls u + ModelCalls r),
     UToolCalls := wrap64 (UToolCalls u + ToolCalls r),
     UInputTokens := wrap64 (UInputTokens u + InputTokens r),
     UOutputTokens := wrap64 (UOutputTokens u + OutputTokens r),
     TotalTokens := wrap64 (TotalTokens u + (InputTokens r + OutputTokens r)),
     UEstimatedCost := FAdd fo (UEstimatedCost u) (EstimatedCost r)\<rparr>"

fun usage_loop :: "'f float64_ops \<Rightarrow> budget_window \<Rightarrow> 'f run_record list \<Rightarrow> 'f budget_usage \<Rightarrow> 'f budget_usage" where
  "usage_loop fo w [] u = u"
| "usage_loop fo w (r # rs) u =
     (if \<not> window_includes w r then usage_loop fo w rs u
      else usage_loop fo w rs (addRun fo r u))"

definition mem_BudgetUsage :: "'f float64_ops \<Rightarrow> actx \<Rightarrow> budget_window \<Rightarrow> 'f memory_store
    \<Rightarrow> error + 'f budget_usage" where
  "mem_BudgetUsage fo ctx w s =
     (case checkStoreInput ctx of
        Some e \<Rightarrow> Inl e
      | None \<Rightarrow>
          (case validateBudgetWindow w of
             Some e \<Rightarrow> Inl e
           | None \<Rightarrow> Inr (usage_loop fo w (StoredRuns s) (zero_usage fo))))"

section \<open>The interface\<close>

record ('s, 'f) run_store_ops =
  SeenEvent :: "actx \<Rightarrow> string \<Rightarrow> 's \<Rightarrow> error + bool"
  RecordEvent :: "actx \<Rightarrow> aevent \<Rightarrow> 's \<Rightarrow> error option \<times> 's"
  RecordRun :: "actx \<Rightarrow> 'f run_record \<Rightarrow> 's \<Rightarrow> error option \<times> 's"

definition memory_ops :: "('f memory_store, 'f) run_store_ops" where
  "memory_ops = \<lparr>SeenEvent = mem_SeenEvent, RecordEvent = mem_RecordEvent, RecordRun = mem_RecordRun\<rparr>"

text \<open>
  \<open>CostingRunStore\<close>: the inner store may be nil, and so may the estimator.
\<close>

definition errCostingStoreNil :: error where
  "errCostingStoreNil = Err ''automation: costing run store is nil''"

definition cost_SeenEvent :: "('s, 'f) run_store_ops option \<Rightarrow> actx \<Rightarrow> string \<Rightarrow> 's \<Rightarrow> error + bool" where
  "cost_SeenEvent st ctx key s =
     (case st of None \<Rightarrow> Inl errCostingStoreNil | Some ops \<Rightarrow> SeenEvent ops ctx key s)"

definition cost_RecordEvent :: "('s, 'f) run_store_ops option \<Rightarrow> actx \<Rightarrow> aevent \<Rightarrow> 's \<Rightarrow> error option \<times> 's" where
  "cost_RecordEvent st ctx e s =
     (case st of None \<Rightarrow> (Some errCostingStoreNil, s) | Some ops \<Rightarrow> RecordEvent ops ctx e s)"

definition cost_RecordRun :: "'f float64_ops \<Rightarrow> ('s, 'f) run_store_ops option
    \<Rightarrow> (actx \<Rightarrow> 'f run_record \<Rightarrow> error + 'f) option \<Rightarrow> actx \<Rightarrow> 'f run_record \<Rightarrow> 's \<Rightarrow> error option \<times> 's" where
  "cost_RecordRun fo st est ctx r s =
     (case checkStoreInput ctx of
        Some e \<Rightarrow> (Some e, s)
      | None \<Rightarrow>
          (case st of
             None \<Rightarrow> (Some errCostingStoreNil, s)
           | Some ops \<Rightarrow>
               (case est of
                  None \<Rightarrow> RecordRun ops ctx r s
                | Some f \<Rightarrow>
                    (case f ctx r of
                       Inl e \<Rightarrow> (Some (Err (''automation: estimate run cost: '' @ error_text e)), s)
                     | Inr cost \<Rightarrow>
                         if FLess fo cost (FZero fo)
                         then (Some (Err ''automation: estimated cost is negative''), s)
                         else RecordRun ops ctx (r\<lparr>EstimatedCost := cost\<rparr>) s))))"

definition costing_ops :: "'f float64_ops \<Rightarrow> ('s, 'f) run_store_ops option
    \<Rightarrow> (actx \<Rightarrow> 'f run_record \<Rightarrow> error + 'f) option \<Rightarrow> ('s, 'f) run_store_ops" where
  "costing_ops fo st est =
     \<lparr>SeenEvent = cost_SeenEvent st, RecordEvent = cost_RecordEvent st,
      RecordRun = cost_RecordRun fo st est\<rparr>"

text \<open>
  The contract: \<open>known s k\<close> is what the store has recorded. A store answers for a nonblank key
  whether it is known; a recorded event's key is known from then on; recording a run changes no
  key, and nothing is ever forgotten. On an error the keys do not change.
\<close>

locale run_store =
  fixes ops :: "('s, 'f) run_store_ops"
    and known :: "'s \<Rightarrow> string \<Rightarrow> bool"
  assumes seen_known:
      "TrimSpace k \<noteq> [] \<Longrightarrow> SeenEvent ops (Some None) k s = Inr (known s (TrimSpace k))"
    and record_known:
      "RecordEvent ops ctx e s = (None, s') \<Longrightarrow> known s' (DeduplicationKey e)"
    and record_keeps:
      "RecordEvent ops ctx e s = (r, s') \<Longrightarrow> known s k \<Longrightarrow> known s' k"
    and run_keeps:
      "RecordRun ops ctx rec s = (r, s') \<Longrightarrow> known s' k \<longleftrightarrow> known s k"

text \<open>A costing store in front of a store that keeps the contract keeps it.\<close>

locale costing_store = run_store ops known
  for ops :: "('s, 'f) run_store_ops" and known :: "'s \<Rightarrow> string \<Rightarrow> bool" +
  fixes fo :: "'f float64_ops" and est :: "(actx \<Rightarrow> 'f run_record \<Rightarrow> error + 'f) option"

sublocale costing_store \<subseteq> costing: run_store "costing_ops fo (Some ops) est" known
proof
  fix k :: string and s :: 's
  assume "TrimSpace k \<noteq> []"
  then show "SeenEvent (costing_ops fo (Some ops) est) (Some None) k s = Inr (known s (TrimSpace k))"
    by (simp add: costing_ops_def cost_SeenEvent_def seen_known)
next
  fix ctx e and s s' :: 's
  assume "RecordEvent (costing_ops fo (Some ops) est) ctx e s = (None, s')"
  then show "known s' (DeduplicationKey e)"
    by (simp add: costing_ops_def cost_RecordEvent_def record_known)
next
  fix ctx e r k and s s' :: 's
  assume "RecordEvent (costing_ops fo (Some ops) est) ctx e s = (r, s')" "known s k"
  then show "known s' k"
    by (simp add: costing_ops_def cost_RecordEvent_def record_keeps)
next
  fix ctx rec r k and s s' :: 's
  assume "RecordRun (costing_ops fo (Some ops) est) ctx rec s = (r, s')"
  then show "known s' k \<longleftrightarrow> known s k"
    by (auto simp: costing_ops_def cost_RecordRun_def run_keeps
        split: option.splits sum.splits if_splits)
qed

lemma mem_RecordEvent_known:
  "mem_RecordEvent ctx e s = (r, s') \<Longrightarrow> r = None \<Longrightarrow> DeduplicationKey e \<in> Seen s'"
  "mem_RecordEvent ctx e s = (r, s') \<Longrightarrow> Seen s \<subseteq> Seen s'"
  by (auto simp: mem_RecordEvent_def Let_def split: option.splits if_splits)

interpretation memory: run_store memory_ops "\<lambda>s k. k \<in> Seen s"
proof
  fix k :: string and s :: "'f memory_store"
  assume "TrimSpace k \<noteq> []"
  then show "SeenEvent memory_ops (Some None) k s = Inr (TrimSpace k \<in> Seen s)"
    by (simp add: memory_ops_def mem_SeenEvent_def checkStoreInput_def Let_def)
next
  fix ctx e and s s' :: "'f memory_store"
  assume "RecordEvent memory_ops ctx e s = (None, s')"
  then show "DeduplicationKey e \<in> Seen s'"
    by (simp add: memory_ops_def mem_RecordEvent_known(1))
next
  fix ctx e r k and s s' :: "'f memory_store"
  assume "RecordEvent memory_ops ctx e s = (r, s')" "k \<in> Seen s"
  then show "k \<in> Seen s'"
    using mem_RecordEvent_known(2) by (fastforce simp: memory_ops_def)
next
  fix ctx rec r k and s s' :: "'f memory_store"
  assume "RecordRun memory_ops ctx rec s = (r, s')"
  then show "k \<in> Seen s' \<longleftrightarrow> k \<in> Seen s"
    by (auto simp: memory_ops_def mem_RecordRun_def split: option.splits if_splits)
qed

interpretation costing_memory: costing_store memory_ops "\<lambda>s k. k \<in> Seen s" fo est
  for fo :: "'f float64_ops" and est
  by unfold_locales


section \<open>What the window query computes\<close>

text \<open>The usage of a window, read off the list of the runs in it.\<close>

definition window_usage :: "'f float64_ops \<Rightarrow> budget_window \<Rightarrow> 'f run_record list \<Rightarrow> 'f budget_usage" where
  "window_usage fo w runs =
     (let rs = filter (window_includes w) runs;
          total = (\<lambda>f. wrap64 (sum_list (map f rs)))
      in \<lparr>Runs = wrap64 (int (length rs)), UModelCalls = total ModelCalls, UToolCalls = total ToolCalls,
          UInputTokens = total InputTokens, UOutputTokens = total OutputTokens,
          TotalTokens = total (\<lambda>r. InputTokens r + OutputTokens r),
          UEstimatedCost = foldl (FAdd fo) (FZero fo) (map EstimatedCost rs)\<rparr>)"

lemma wrap64_shift: "wrap64 (wrap64 (a + b) + c) = wrap64 (a + (b + c))"
  by (simp add: add.assoc)

lemma usage_loop_eq:
  "usage_loop fo w runs u =
     (let rs = filter (window_includes w) runs;
          total = (\<lambda>i f. if rs = [] then i else wrap64 (i + sum_list (map f rs)))
      in \<lparr>Runs = total (Runs u) (\<lambda>_. 1), UModelCalls = total (UModelCalls u) ModelCalls,
          UToolCalls = total (UToolCalls u) ToolCalls, UInputTokens = total (UInputTokens u) InputTokens,
          UOutputTokens = total (UOutputTokens u) OutputTokens,
          TotalTokens = total (TotalTokens u) (\<lambda>r. InputTokens r + OutputTokens r),
          UEstimatedCost = foldl (FAdd fo) (UEstimatedCost u) (map EstimatedCost rs)\<rparr>)"
  by (induction runs arbitrary: u) (auto simp: addRun_def Let_def wrap64_shift add.assoc)

lemma mem_BudgetUsage_eq:
  "validateBudgetWindow w = None \<Longrightarrow>
     mem_BudgetUsage fo (Some None) w s = Inr (window_usage fo w (StoredRuns s))"
  by (simp add: mem_BudgetUsage_def checkStoreInput_def usage_loop_eq window_usage_def zero_usage_def
      Let_def wrap64_def sum_list_triv)

text \<open>The de-duplication set: every stored event was stored under a key of its own.\<close>

definition store_inv :: "'f memory_store \<Rightarrow> bool" where
  "store_inv s \<longleftrightarrow> distinct (map DeduplicationKey (StoredEvents s))
     \<and> (\<forall>e \<in> set (StoredEvents s). DeduplicationKey e \<in> Seen s)"

lemma store_inv_new: "store_inv NewMemoryRunStore"
  by (simp add: store_inv_def NewMemoryRunStore_def)

lemma store_inv_RecordEvent:
  "store_inv s \<Longrightarrow> mem_RecordEvent ctx e s = (r, s') \<Longrightarrow> store_inv s'"
  by (auto simp: store_inv_def mem_RecordEvent_def Let_def split: option.splits if_splits)

lemma store_inv_RecordRun:
  "store_inv s \<Longrightarrow> mem_RecordRun ctx rec s = (r, s') \<Longrightarrow> store_inv s'"
  by (auto simp: store_inv_def mem_RecordRun_def split: option.splits if_splits)

end
