(* ===== verification/Automation_Gate.thy ===== *)
theory Automation_Gate
  imports Run_Store
begin

text \<open>
  The gates of the automation runtime (\<open>pkg/loop/automation/gate/gate.go\<close> and
  \<open>budget.go\<close>): the rule gate, which pauses an event that matches one of its rules, and the
  budget gate, which pauses when the day's recorded usage has reached a limit.

  What the code reads from its environment is in a record: the clock, the first instants of the
  local day of an instant and of the next one (the time zone database), and the RFC 3339
  rendering of an instant.
\<close>

section \<open>Gate decisions and the rule gate\<close>

record gate_decision =
  GStopReason :: string
  GReason :: string
  GMetadata :: "(string \<times> string) list option"

definition no_stop :: gate_decision where
  "no_stop = \<lparr>GStopReason = [], GReason = [], GMetadata = None\<rparr>"

definition RequiresStop :: "gate_decision \<Rightarrow> bool" where
  "RequiresStop d \<longleftrightarrow> TrimSpace (GStopReason d) \<noteq> []"

record gate_rule =
  GRName :: string
  GRStopReason :: string
  GRReason :: string
  GRSourcePrefix :: string
  GRType :: string
  GRSubject :: string
  GREventLabels :: "string list"
  GRRouteLabels :: "string list"
  GRRouteLoopName :: string
  GRRouteAgentName :: string
  GREventExtensions :: "(string \<times> string) list option"
  GRRouteMetadata :: "(string \<times> string) list option"
  GRMetadata :: "(string \<times> string) list option"

definition entries :: "(string \<times> 'v) list option \<Rightarrow> (string \<times> 'v) list" where
  "entries m = (case m of None \<Rightarrow> [] | Some es \<Rightarrow> es)"

definition stringMapMatches :: "(string \<times> string) list option \<Rightarrow> (string \<times> string) list option \<Rightarrow> bool" where
  "stringMapMatches values required =
     list_all (\<lambda>(key, want). (case map_of (entries values) key of None \<Rightarrow> [] | Some v \<Rightarrow> v) = want)
       (entries required)"

definition anyMapMatchesStrings :: "gmap option \<Rightarrow> (string \<times> string) list option \<Rightarrow> bool" where
  "anyMapMatchesStrings values required =
     list_all (\<lambda>(key, want). case map_of (entries values) key of None \<Rightarrow> False | Some v \<Rightarrow> Sprint v = want)
       (entries required)"

definition gate_rule_matches :: "gate_rule \<Rightarrow> aevent \<Rightarrow> route_decision \<Rightarrow> bool" where
  "gate_rule_matches r e d =
     (if GRSourcePrefix r \<noteq> [] \<and> \<not> HasPrefix (Source e) (GRSourcePrefix r) then False
      else if GRType r \<noteq> [] \<and> GRType r \<noteq> Type e then False
      else if GRSubject r \<noteq> [] \<and> GRSubject r \<noteq> Subject e then False
      else if GRRouteLoopName r \<noteq> [] \<and> GRRouteLoopName r \<noteq> LoopName d then False
      else if GRRouteAgentName r \<noteq> [] \<and> GRRouteAgentName r \<noteq> AgentName d then False
      else if \<not> HasAllLabels (Labels e) (GREventLabels r) then False
      else if \<not> HasAllLabels (RouteLabels d) (GRRouteLabels r) then False
      else if \<not> stringMapMatches (Extensions e) (GREventExtensions r) then False
      else anyMapMatchesStrings (Metadata d) (GRRouteMetadata r))"

definition rule_gate_decision :: "gate_rule \<Rightarrow> gate_decision" where
  "rule_gate_decision r =
     (let stopReason = TrimSpace (GRStopReason r);
          stopReason = (if stopReason = [] then ''waiting_user'' else stopReason);
          metadata = CloneStringMap (GRMetadata r);
          metadata =
            (if TrimSpace (GRName r) \<noteq> [] then
               (let m = entries metadata in
                Some (if map_of m ''rule'' = None then AList.update ''rule'' (GRName r) m else m))
             else metadata)
      in \<lparr>GStopReason = stopReason, GReason = GRReason r, GMetadata = metadata\<rparr>)"

fun gate_loop :: "gate_rule list \<Rightarrow> aevent \<Rightarrow> route_decision \<Rightarrow> gate_decision" where
  "gate_loop [] e d = no_stop"
| "gate_loop (r # rs) e d = (if \<not> gate_rule_matches r e d then gate_loop rs e d else rule_gate_decision r)"

definition policy_Evaluate :: "gate_rule list \<Rightarrow> actx \<Rightarrow> aevent \<Rightarrow> route_decision \<Rightarrow> error + gate_decision" where
  "policy_Evaluate rules ctx e d =
     (case ctx of
        None \<Rightarrow> Inl errNilContext
      | Some (Some err) \<Rightarrow> Inl err
      | Some None \<Rightarrow> Inr (gate_loop rules e d))"

lemma rule_gate_decision_stops: "RequiresStop (rule_gate_decision r)"
proof -
  have "TrimSpace ''waiting_user'' = ''waiting_user''"
    by (rule TrimSpace_plain) (simp_all add: plain_def)
  then show ?thesis by (simp add: rule_gate_decision_def RequiresStop_def Let_def)
qed

lemma no_stop_continues [simp]: "\<not> RequiresStop no_stop"
  by (simp add: RequiresStop_def no_stop_def)

lemma gate_loop_stops_iff:
  "RequiresStop (gate_loop rules e d) \<longleftrightarrow> (\<exists>r \<in> set rules. gate_rule_matches r e d)"
  by (induction rules) (auto simp: rule_gate_decision_stops)

section \<open>The budget gate\<close>

record 'f budget_limit =
  MaxRuns :: int
  MaxTokens :: int
  MaxCost :: 'f

record 'f automation_budget =
  MaxRunsPerDay :: int
  MaxTokensPerDay :: int
  MaxCostPerDay :: 'f
  PerEventType :: "(string \<times> 'f budget_limit) list"
  PerLoop :: "(string \<times> 'f budget_limit) list"

record clock_env =
  TimeNow :: gtime
  DayOf :: "gtime \<Rightarrow> gtime \<times> gtime"
  FormatTime :: "gtime \<Rightarrow> string"

record ('s, 'f) budget_gate =
  BStore :: "(actx \<Rightarrow> budget_window \<Rightarrow> 's \<Rightarrow> error + 'f budget_usage) option"
  Budget :: "'f automation_budget"
  Now :: "gtime option"
  BStopReason :: string

definition limit_hasLimits :: "'f float64_ops \<Rightarrow> 'f budget_limit \<Rightarrow> bool" where
  "limit_hasLimits fo l \<longleftrightarrow> MaxRuns l > 0 \<or> MaxTokens l > 0 \<or> FLess fo (FZero fo) (MaxCost l)"

definition globalLimit :: "'f automation_budget \<Rightarrow> 'f budget_limit" where
  "globalLimit b = \<lparr>MaxRuns = MaxRunsPerDay b, MaxTokens = MaxTokensPerDay b, MaxCost = MaxCostPerDay b\<rparr>"

definition budget_hasLimits :: "'f float64_ops \<Rightarrow> 'f automation_budget \<Rightarrow> bool" where
  "budget_hasLimits fo b =
     (if limit_hasLimits fo (globalLimit b) then True
      else if list_ex (\<lambda>(k, l). limit_hasLimits fo l) (PerEventType b) then True
      else list_ex (\<lambda>(k, l). limit_hasLimits fo l) (PerLoop b))"

definition gate_now :: "('s, 'f) budget_gate \<Rightarrow> clock_env \<Rightarrow> gtime" where
  "gate_now g ce = (case Now g of Some t \<Rightarrow> t | None \<Rightarrow> TimeNow ce)"

definition dailyBudgetWindow :: "clock_env \<Rightarrow> gtime \<Rightarrow> budget_window" where
  "dailyBudgetWindow ce now =
     (let now = (if now = 0 then TimeNow ce else now);
          (start, next_day) = DayOf ce now
      in \<lparr>WStart = start, WEnd = next_day, WEventType = [], WLoopName = []\<rparr>)"

definition stopDecision :: "clock_env \<Rightarrow> ('s, 'f) budget_gate \<Rightarrow> string \<Rightarrow> string \<Rightarrow> string \<Rightarrow> string
    \<Rightarrow> string \<Rightarrow> budget_window \<Rightarrow> gate_decision" where
  "stopDecision ce g scope scopeValue name used limit w =
     (let stopReason = (if BStopReason g = [] then ''waiting_user'' else BStopReason g);
          m = [(''budget'', name), (''used'', used), (''limit'', limit),
               (''window_start'', FormatTime ce (WStart w)), (''window_end'', FormatTime ce (WEnd w))];
          m = (if scope \<noteq> [] then AList.update ''scope'' scope m else m);
          m = (if scopeValue \<noteq> [] then AList.update ''scope_value'' scopeValue m else m)
      in \<lparr>GStopReason = stopReason, GReason = ''automation budget exceeded: '' @ name,
          GMetadata = Some m\<rparr>)"

definition evaluateLimit :: "'f float64_ops \<Rightarrow> clock_env \<Rightarrow> ('s, 'f) budget_gate
    \<Rightarrow> (actx \<Rightarrow> budget_window \<Rightarrow> 's \<Rightarrow> error + 'f budget_usage) \<Rightarrow> actx \<Rightarrow> string \<Rightarrow> string
    \<Rightarrow> budget_window \<Rightarrow> 'f budget_limit \<Rightarrow> 's \<Rightarrow> error + gate_decision" where
  "evaluateLimit fo ce g st ctx scope scopeValue w l s =
     (if \<not> limit_hasLimits fo l then Inr no_stop
      else case st ctx w s of
        Inl e \<Rightarrow> Inl e
      | Inr u \<Rightarrow>
          if MaxRuns l > 0 \<and> Runs u \<ge> MaxRuns l
          then Inr (stopDecision ce g scope scopeValue ''runs_per_day'' (Itoa (Runs u)) (Itoa (MaxRuns l)) w)
          else if MaxTokens l > 0 \<and> TotalTokens u \<ge> MaxTokens l
          then Inr (stopDecision ce g scope scopeValue ''tokens_per_day'' (Itoa (TotalTokens u)) (Itoa (MaxTokens l)) w)
          else if FLess fo (FZero fo) (MaxCost l) \<and> FGeq fo (UEstimatedCost u) (MaxCost l)
          then Inr (stopDecision ce g scope scopeValue ''cost_per_day'' (FText fo (UEstimatedCost u)) (FText fo (MaxCost l)) w)
          else Inr no_stop)"

text \<open>A result that ends the evaluation: an error or a decision that stops.\<close>

definition gate_final :: "error + gate_decision \<Rightarrow> bool" where
  "gate_final r = (case r of Inl e \<Rightarrow> True | Inr d \<Rightarrow> RequiresStop d)"

text \<open>
  The limits that apply to an event and its route, in the order \<open>Evaluate\<close> checks them, with
  the scope, the scope value and the window of each; the first that fails or stops is returned.
\<close>

definition budget_scopes :: "clock_env \<Rightarrow> ('s, 'f) budget_gate \<Rightarrow> aevent \<Rightarrow> route_decision
    \<Rightarrow> (string \<times> string \<times> budget_window \<times> 'f budget_limit) list" where
  "budget_scopes ce g e d =
     (let w = dailyBudgetWindow ce (gate_now g ce);
          t = TrimSpace (Type e);
          n = TrimSpace (LoopName d)
      in (''global'', [], w, globalLimit (Budget g))
         # (case map_of (PerEventType (Budget g)) t of
              None \<Rightarrow> [] | Some l \<Rightarrow> [(''event_type'', t, w\<lparr>WEventType := t\<rparr>, l)])
         @ (case map_of (PerLoop (Budget g)) n of
              None \<Rightarrow> [] | Some l \<Rightarrow> [(''loop'', n, w\<lparr>WLoopName := n\<rparr>, l)]))"

fun scopes_loop :: "(string \<times> string \<times> budget_window \<times> 'f budget_limit \<Rightarrow> error + gate_decision)
    \<Rightarrow> (string \<times> string \<times> budget_window \<times> 'f budget_limit) list \<Rightarrow> error + gate_decision" where
  "scopes_loop evaluate [] = Inr no_stop"
| "scopes_loop evaluate (sc # scs) =
     (let r = evaluate sc in if gate_final r then r else scopes_loop evaluate scs)"

definition budget_Evaluate :: "'f float64_ops \<Rightarrow> clock_env \<Rightarrow> ('s, 'f) budget_gate \<Rightarrow> actx
    \<Rightarrow> aevent \<Rightarrow> route_decision \<Rightarrow> 's \<Rightarrow> error + gate_decision" where
  "budget_Evaluate fo ce g ctx e d s =
     (case ctx of
        None \<Rightarrow> Inl errNilContext
      | Some (Some err) \<Rightarrow> Inl err
      | Some None \<Rightarrow>
          if \<not> budget_hasLimits fo (Budget g) then Inr no_stop
          else case BStore g of
            None \<Rightarrow> Inl (Err ''automation: budget store is nil'')
          | Some st \<Rightarrow>
              scopes_loop (\<lambda>(scope, v, w, l). evaluateLimit fo ce g st ctx scope v w l s)
                (budget_scopes ce g e d))"

subsection \<open>When the budget gate stops\<close>

definition limit_reached :: "'f float64_ops \<Rightarrow> 'f budget_limit \<Rightarrow> 'f budget_usage \<Rightarrow> bool" where
  "limit_reached fo l u \<longleftrightarrow>
     MaxRuns l > 0 \<and> Runs u \<ge> MaxRuns l
     \<or> MaxTokens l > 0 \<and> TotalTokens u \<ge> MaxTokens l
     \<or> FLess fo (FZero fo) (MaxCost l) \<and> FGeq fo (UEstimatedCost u) (MaxCost l)"

text \<open>A stop reason the code can act on: the default, or one that is not blank.\<close>

definition usable_reason :: "('s, 'f) budget_gate \<Rightarrow> bool" where
  "usable_reason g \<longleftrightarrow> BStopReason g = [] \<or> TrimSpace (BStopReason g) \<noteq> []"

lemma stopDecision_stops: "RequiresStop (stopDecision ce g sc sv n u l w) \<longleftrightarrow> usable_reason g"
proof -
  have "TrimSpace ''waiting_user'' = ''waiting_user''"
    by (rule TrimSpace_plain) (simp_all add: plain_def)
  then show ?thesis by (auto simp: stopDecision_def RequiresStop_def Let_def usable_reason_def)
qed

lemma evaluateLimit_stops:
  assumes "st ctx w s = Inr u"
  shows "\<exists>dec. evaluateLimit fo ce g st ctx sc sv w l s = Inr dec
    \<and> (RequiresStop dec \<longleftrightarrow> limit_reached fo l u \<and> usable_reason g)"
  using assms
  by (auto simp: evaluateLimit_def limit_reached_def limit_hasLimits_def stopDecision_stops)

lemma scopes_loop_stops:
  assumes "\<forall>sc \<in> set scs. \<exists>dec. evaluate sc = Inr dec \<and> (RequiresStop dec \<longleftrightarrow> P sc)"
  shows "\<exists>dec. scopes_loop evaluate scs = Inr dec \<and> (RequiresStop dec \<longleftrightarrow> (\<exists>sc \<in> set scs. P sc))"
  using assms
proof (induction scs)
  case Nil
  then show ?case by simp
next
  case (Cons sc scs)
  from Cons.prems obtain dec where "evaluate sc = Inr dec" "RequiresStop dec \<longleftrightarrow> P sc" by auto
  with Cons show ?case by (auto simp: gate_final_def)
qed

lemma budget_windows_valid:
  assumes "validateBudgetWindow (dailyBudgetWindow ce (gate_now g ce)) = None"
    and "(sc, v, w, l) \<in> set (budget_scopes ce g e d)"
  shows "validateBudgetWindow w = None"
  using assms by (auto simp: budget_scopes_def validateBudgetWindow_def Let_def
      split: option.splits if_splits)

lemma no_limits_none_reached:
  assumes "\<not> budget_hasLimits fo (Budget g)" and "(sc, v, w, l) \<in> set (budget_scopes ce g e d)"
  shows "\<not> limit_reached fo l u"
proof -
  have "l = globalLimit (Budget g) \<or> (\<exists>k. (k, l) \<in> set (PerEventType (Budget g)))
      \<or> (\<exists>k. (k, l) \<in> set (PerLoop (Budget g)))"
    using assms(2)
    by (cases "map_of (PerEventType (Budget g)) (TrimSpace (Type e))";
        cases "map_of (PerLoop (Budget g)) (TrimSpace (LoopName d))")
      (auto simp: budget_scopes_def Let_def dest: map_of_SomeD)
  then have "\<not> limit_hasLimits fo l"
    using assms(1) by (auto simp: budget_hasLimits_def list_ex_iff split: if_splits)
  then show ?thesis by (auto simp: limit_reached_def limit_hasLimits_def)
qed

lemma budget_gate_stops:
  assumes "BStore g = Some (mem_BudgetUsage fo)"
    and "validateBudgetWindow (dailyBudgetWindow ce (gate_now g ce)) = None"
  shows "\<exists>dec. budget_Evaluate fo ce g (Some None) e d s = Inr dec
    \<and> (RequiresStop dec \<longleftrightarrow> (BStopReason g = [] \<or> TrimSpace (BStopReason g) \<noteq> [])
         \<and> (\<exists>(sc, v, w, l) \<in> set (budget_scopes ce g e d).
              limit_reached fo l (window_usage fo w (StoredRuns s))))"
proof (cases "budget_hasLimits fo (Budget g)")
  case False
  with no_limits_none_reached [OF False] show ?thesis
    by (fastforce simp: budget_Evaluate_def)
next
  case True
  define P where "P = (\<lambda>(sc :: string, v :: string, w, l).
      limit_reached fo l (window_usage fo w (StoredRuns s)) \<and> usable_reason g)"
  have "\<forall>sc \<in> set (budget_scopes ce g e d). \<exists>dec.
      (\<lambda>(scope, v, w, l). evaluateLimit fo ce g (mem_BudgetUsage fo) (Some None) scope v w l s) sc = Inr dec
      \<and> (RequiresStop dec \<longleftrightarrow> P sc)"
  proof (clarsimp simp: P_def)
    fix sc v w l assume "(sc, v, w, l) \<in> set (budget_scopes ce g e d)"
    then have "mem_BudgetUsage fo (Some None) w s = Inr (window_usage fo w (StoredRuns s))"
      by (rule mem_BudgetUsage_eq [OF budget_windows_valid [OF assms(2)]])
    then show "\<exists>dec. evaluateLimit fo ce g (mem_BudgetUsage fo) (Some None) sc v w l s = Inr dec
        \<and> (RequiresStop dec \<longleftrightarrow> limit_reached fo l (window_usage fo w (StoredRuns s)) \<and> usable_reason g)"
      by (rule evaluateLimit_stops [of "mem_BudgetUsage fo" "Some None" w s])
  qed
  from scopes_loop_stops [OF this] show ?thesis
    using True by (auto simp: budget_Evaluate_def assms(1) P_def usable_reason_def split_def)
qed

text \<open>C35: With the in-memory store behind it, the budget gate stops an event exactly when a limit
  that applies to it (the global one, the one of its event type, the one of its loop) is reached by
  the runs the store holds in the day's window of that scope, counted as the store counts them
  (runs, input plus output tokens, estimated cost), provided the configured stop reason is empty or
  not blank: with a blank stop reason no limit ever stops an event.\<close>

theorem budget_gate_stops_at_the_limit:
  assumes "BStore g = Some (mem_BudgetUsage fo)"
    and "validateBudgetWindow (dailyBudgetWindow ce (gate_now g ce)) = None"
  shows "\<exists>dec. budget_Evaluate fo ce g (Some None) e d s = Inr dec
    \<and> (RequiresStop dec \<longleftrightarrow> (BStopReason g = [] \<or> TrimSpace (BStopReason g) \<noteq> [])
         \<and> (\<exists>(sc, v, w, l) \<in> set (budget_scopes ce g e d).
              limit_reached fo l (window_usage fo w (StoredRuns s))))"
  by (rule budget_gate_stops [OF assms])

text \<open>Concrete values for the examples: costs in whole cents, days of 100 instants.\<close>

definition cents :: "int float64_ops" where
  "cents = \<lparr>FZero = 0, FAdd = (+), FLess = (<), FGeq = (\<ge>), FText = Itoa\<rparr>"

definition sample_clock :: clock_env where
  "sample_clock = \<lparr>TimeNow = 150, DayOf = (\<lambda>t. (100, 200)), FormatTime = Itoa\<rparr>"

definition sample_event :: "string \<Rightarrow> aevent" where
  "sample_event t = \<lparr>EID = ''e1'', Source = ''git'', Type = t, Subject = [], Time = 0, DataContentType = [],
     Data = [], Extensions = None, CorrelationID = [], CausationID = [], DedupKey = [], Labels = [],
     Priority = 0\<rparr>"

definition sample_run :: "string \<Rightarrow> int run_record" where
  "sample_run t = \<lparr>RunID = ''r1'', REventID = ''e1'', REventSource = ''git'', REventType = t,
     RDedupKey = ''e1'', RLoopName = [], RAgentName = [], ReplyID = [], SessionID = [],
     WorkspaceRoot = [], WorkspaceMetadata = None, GateReason = [], GateMetadata = None,
     ModelCalls = 1, ToolCalls = 0, InputTokens = 10, OutputTokens = 5, EstimatedCost = 3,
     StartedAt = 120, FinishedAt = 130, StopReason = ''completed'', RunError = []\<rparr>"

definition sample_store :: "string \<Rightarrow> int memory_store" where
  "sample_store t = snd (mem_RecordRun (Some None) (sample_run t) NewMemoryRunStore)"

definition sample_gate :: "(int memory_store, int) budget_gate" where
  "sample_gate = \<lparr>BStore = Some (mem_BudgetUsage cents),
     Budget = \<lparr>MaxRunsPerDay = 0, MaxTokensPerDay = 0, MaxCostPerDay = 0,
       PerEventType = [(''push'', \<lparr>MaxRuns = 1, MaxTokens = 0, MaxCost = 0\<rparr>)], PerLoop = []\<rparr>,
     Now = None, BStopReason = []\<rparr>"

lemma push_trimmed: "TrimSpace ''push'' = ''push''" "TrimSpace ''r1'' = ''r1''" "TrimSpace '' push'' = ''push''"
  by (simp_all add: TrimSpace_plain TrimSpace_left plain_def)

lemma sample_store_runs: "StoredRuns (sample_store t) = [sample_run t]"
  by (simp add: sample_store_def mem_RecordRun_def checkStoreInput_def NewMemoryRunStore_def
      sample_run_def push_trimmed)

lemma sample_window_valid: "validateBudgetWindow (dailyBudgetWindow sample_clock (gate_now sample_gate sample_clock)) = None"
  by (simp add: validateBudgetWindow_def dailyBudgetWindow_def sample_clock_def Let_def)

lemma sample_scopes: "budget_scopes sample_clock sample_gate (sample_event ''push'') zero_decision =
    [(''global'', [], dailyBudgetWindow sample_clock 150, \<lparr>MaxRuns = 0, MaxTokens = 0, MaxCost = 0\<rparr>),
     (''event_type'', ''push'', (dailyBudgetWindow sample_clock 150)\<lparr>WEventType := ''push''\<rparr>,
       \<lparr>MaxRuns = 1, MaxTokens = 0, MaxCost = 0\<rparr>)]"
  by (simp add: budget_scopes_def sample_gate_def sample_event_def zero_decision_def globalLimit_def
      push_trimmed gate_now_def Let_def sample_clock_def)

theorem budget_gate_stops_at_the_limit_witness:
  "\<exists>dec. budget_Evaluate cents sample_clock sample_gate (Some None) (sample_event ''push'')
      zero_decision (sample_store ''push'') = Inr dec \<and> RequiresStop dec"
proof -
  have "BStore sample_gate = Some (mem_BudgetUsage cents)" "BStopReason sample_gate = []"
    by (simp_all add: sample_gate_def)
  moreover have "\<exists>(sc, v, w, l) \<in> set (budget_scopes sample_clock sample_gate (sample_event ''push'') zero_decision).
      limit_reached cents l (window_usage cents w (StoredRuns (sample_store ''push'')))"
    unfolding sample_scopes sample_store_runs
    by (simp add: limit_reached_def window_usage_def window_includes_def Let_def
        sample_run_def containsTime_def runTime_def dailyBudgetWindow_def sample_clock_def cents_def wrap64_def)
  ultimately show ?thesis
    using budget_gate_stops_at_the_limit [of sample_gate cents sample_clock "sample_event ''push''"
        zero_decision "sample_store ''push''"] sample_window_valid
    by auto
qed

text \<open>A per-event-type budget never stops an event whose type carries surrounding white space:
  the limit is looked up, and the window filtered, under the trimmed type, but the runs were
  recorded under the type as it came, so none is counted, however many there were.\<close>

theorem padded_event_type_escapes_its_budget:
  assumes "BStore g = Some (mem_BudgetUsage fo)"
    and "validateBudgetWindow (dailyBudgetWindow ce (gate_now g ce)) = None"
    and "\<forall>a b. FLess fo a b \<longrightarrow> \<not> FGeq fo a b"
    and "\<not> limit_hasLimits fo (globalLimit (Budget g))" and "PerLoop (Budget g) = []"
    and "TrimSpace (Type e) \<noteq> []" and "TrimSpace (Type e) \<noteq> Type e"
    and "\<forall>r \<in> set (StoredRuns s). REventType r = Type e"
  shows "\<exists>dec. budget_Evaluate fo ce g (Some None) e d s = Inr dec \<and> \<not> RequiresStop dec"
proof -
  have none: "window_usage fo (w\<lparr>WEventType := TrimSpace (Type e)\<rparr>) (StoredRuns s) = zero_usage fo" for w
  proof -
    have "filter (window_includes (w\<lparr>WEventType := TrimSpace (Type e)\<rparr>)) (StoredRuns s) = []"
      using assms(6-8) by (auto simp: filter_empty_conv window_includes_def)
    then show ?thesis by (simp add: window_usage_def zero_usage_def Let_def wrap64_def)
  qed
  have global: "\<not> limit_reached fo (globalLimit (Budget g)) u" for u
    using assms(4) by (auto simp: limit_reached_def limit_hasLimits_def)
  have zero: "\<not> limit_reached fo l (zero_usage fo)" for l
    using assms(3) by (auto simp: limit_reached_def zero_usage_def)
  have "\<not> (\<exists>(sc, v, w, l) \<in> set (budget_scopes ce g e d).
      limit_reached fo l (window_usage fo w (StoredRuns s)))"
    using assms(5) global zero none
    by (cases "map_of (PerEventType (Budget g)) (TrimSpace (Type e))") (auto simp: budget_scopes_def Let_def)
  moreover obtain dec where "budget_Evaluate fo ce g (Some None) e d s = Inr dec"
      "RequiresStop dec \<longrightarrow> (\<exists>(sc, v, w, l) \<in> set (budget_scopes ce g e d).
         limit_reached fo l (window_usage fo w (StoredRuns s)))"
    using budget_gate_stops [OF assms(1,2)] by blast
  ultimately show ?thesis by blast
qed

theorem padded_event_type_escapes_its_budget_witness:
  "\<exists>dec. budget_Evaluate cents sample_clock sample_gate (Some None) (sample_event '' push'')
      zero_decision (sample_store '' push'') = Inr dec \<and> \<not> RequiresStop dec"
  by (rule padded_event_type_escapes_its_budget)
    (simp_all add: sample_window_valid sample_store_runs, simp_all add: sample_gate_def cents_def
      globalLimit_def limit_hasLimits_def sample_event_def sample_run_def push_trimmed)

end
