(* ===== verification/Utf8.thy ===== *)
theory Utf8
  imports Prelude
begin

text \<open>
  What the modelled code uses of Go's UTF-8 handling: \<open>for index, r := range text\<close> and
  \<open>utf8.DecodeRuneInString\<close> decode one rune at a time, an invalid byte as U+FFFD of width 1;
  \<open>utf8.RuneLen\<close> is the width of a rune's encoding. On top of it, the encoding of a string by
  \<open>encoding/json\<close> (with HTML escaping, as \<open>json.Marshal\<close> does it).
\<close>

section \<open>Decoding one rune\<close>

definition RuneError :: nat where "RuneError = 65533"

definition cont_byte :: "nat \<Rightarrow> nat \<Rightarrow> char \<Rightarrow> bool" where
  "cont_byte lo hi c \<longleftrightarrow> lo \<le> (of_char c :: nat) \<and> (of_char c :: nat) \<le> hi"

definition low_bits :: "char \<Rightarrow> nat" where
  "low_bits c = of_char c mod 64"

definition decode2 :: "nat \<Rightarrow> string \<Rightarrow> nat \<times> nat" where
  "decode2 b s =
     (case s of
        c1 # _ \<Rightarrow> if cont_byte 128 191 c1 then ((b - 192) * 64 + low_bits c1, 2) else (RuneError, 1)
      | _ \<Rightarrow> (RuneError, 1))"

definition decode3 :: "nat \<Rightarrow> string \<Rightarrow> nat \<times> nat" where
  "decode3 b s =
     (case s of
        c1 # c2 # _ \<Rightarrow>
          if cont_byte (if b = 224 then 160 else 128) (if b = 237 then 159 else 191) c1 \<and> cont_byte 128 191 c2
          then ((b - 224) * 4096 + low_bits c1 * 64 + low_bits c2, 3) else (RuneError, 1)
      | _ \<Rightarrow> (RuneError, 1))"

definition decode4 :: "nat \<Rightarrow> string \<Rightarrow> nat \<times> nat" where
  "decode4 b s =
     (case s of
        c1 # c2 # c3 # _ \<Rightarrow>
          if cont_byte (if b = 240 then 144 else 128) (if b = 244 then 143 else 191) c1
             \<and> cont_byte 128 191 c2 \<and> cont_byte 128 191 c3
          then ((b - 240) * 262144 + low_bits c1 * 4096 + low_bits c2 * 64 + low_bits c3, 4)
          else (RuneError, 1)
      | _ \<Rightarrow> (RuneError, 1))"

definition decode_lead :: "nat \<Rightarrow> string \<Rightarrow> nat \<times> nat" where
  "decode_lead b s =
     (if b < 128 then (b, 1)
      else if 194 \<le> b \<and> b \<le> 223 then decode2 b s
      else if 224 \<le> b \<and> b \<le> 239 then decode3 b s
      else if 240 \<le> b \<and> b \<le> 244 then decode4 b s
      else (RuneError, 1))"

fun decode_rune :: "string \<Rightarrow> nat \<times> nat" where
  "decode_rune [] = (RuneError, 0)"
| "decode_rune (c # s) = decode_lead (of_char c) s"

text \<open>\<open>utf8.RuneLen\<close> of a rune that decoding can return.\<close>

definition RuneLen :: "nat \<Rightarrow> nat" where
  "RuneLen r = (if r < 128 then 1 else if r < 2048 then 2 else if r < 65536 then 3 else 4)"

definition rune_size :: "string \<Rightarrow> nat" where
  "rune_size s = snd (decode_rune s)"

text \<open>An invalid byte: decoding reports U+FFFD of width 1.\<close>

definition bad_rune :: "string \<Rightarrow> bool" where
  "bad_rune s \<longleftrightarrow> decode_rune s = (RuneError, 1)"

lemma mod_64_cont: "128 \<le> (x :: nat) \<Longrightarrow> x \<le> 191 \<Longrightarrow> x mod 64 = x - 128"
  using mod_mult_self2 [of "x - 128" 64 2] by simp

lemma cont_byte_low: "cont_byte lo hi c \<Longrightarrow> 128 \<le> lo \<Longrightarrow> hi \<le> 191 \<Longrightarrow> low_bits c = (of_char c :: nat) - 128"
  unfolding cont_byte_def low_bits_def by (rule mod_64_cont) linarith+

lemma low_bits_less [simp]: "low_bits c < 64"
  by (simp add: low_bits_def)

lemma decode_lead_width: "1 \<le> snd (decode_lead b s) \<and> snd (decode_lead b s) \<le> 4
    \<and> snd (decode_lead b s) \<le> Suc (length s)"
  by (auto simp: decode_lead_def decode2_def decode3_def decode4_def split: list.splits)

lemma rune_size_pos: "s \<noteq> [] \<Longrightarrow> 0 < rune_size s"
  using decode_lead_width [of "of_char (hd s)" "tl s"] by (cases s) (auto simp: rune_size_def)

lemma rune_size_le: "rune_size s \<le> length s"
  using decode_lead_width [of "of_char (hd s)" "tl s"] by (cases s) (auto simp: rune_size_def)

lemma rune_size_le4: "rune_size s \<le> 4"
  using decode_lead_width [of "of_char (hd s)" "tl s"] by (cases s) (auto simp: rune_size_def)

lemma of_char_less: "(of_char c :: nat) < 256"
  by (metis of_char_mod_256 mod_less_divisor zero_less_numeral)

lemma cont_low_ge: "cont_byte lo 191 c \<Longrightarrow> 128 \<le> lo \<Longrightarrow> lo - 128 \<le> low_bits c"
  using cont_byte_low [of lo 191 c] diff_le_mono [of lo "of_char c :: nat" 128] by (simp add: cont_byte_def)

lemma decode2_valid:
  assumes "194 \<le> b" "b \<le> 223"
  shows "decode2 b s = (RuneError, 1) \<or> (\<exists>v. decode2 b s = (v, 2) \<and> 128 \<le> v \<and> v < 2048)"
proof -
  have "128 \<le> (b - 192) * 64 + low_bits c \<and> (b - 192) * 64 + low_bits c < 2048" for c
    using assms low_bits_less [of c] by linarith
  then show ?thesis by (auto simp: decode2_def split: list.splits)
qed

lemma decode3_valid:
  assumes "224 \<le> b" "b \<le> 239"
  shows "decode3 b s = (RuneError, 1) \<or> (\<exists>v. decode3 b s = (v, 3) \<and> 2048 \<le> v \<and> v < 65536)"
proof -
  have "2048 \<le> (b - 224) * 4096 + low_bits c * 64 + low_bits d
      \<and> (b - 224) * 4096 + low_bits c * 64 + low_bits d < 65536"
    if "cont_byte (if b = 224 then 160 else 128) (if b = 237 then 159 else 191) c" for c d
  proof -
    have "b = 224 \<Longrightarrow> 32 \<le> low_bits c" using that cont_low_ge [of 160 c] by simp
    with assms low_bits_less [of c] low_bits_less [of d] show ?thesis by linarith
  qed
  then show ?thesis by (auto simp: decode3_def split: list.splits)
qed

lemma decode4_valid:
  assumes "240 \<le> b" "b \<le> 244"
  shows "decode4 b s = (RuneError, 1) \<or> (\<exists>v. decode4 b s = (v, 4) \<and> 65536 \<le> v)"
proof -
  have "65536 \<le> (b - 240) * 262144 + low_bits c * 4096 + low_bits d * 64 + low_bits e"
    if "cont_byte (if b = 240 then 144 else 128) (if b = 244 then 143 else 191) c" for c d e
  proof -
    have "b = 240 \<Longrightarrow> 16 \<le> low_bits c" using that cont_low_ge [of 144 c] by simp
    with assms show ?thesis by linarith
  qed
  then show ?thesis by (auto simp: decode4_def split: list.splits)
qed

text \<open>A valid rune is as wide as its \<open>RuneLen\<close>.\<close>

lemma RuneLen_decode_lead:
  "decode_lead b s = (RuneError, 1) \<or> RuneLen (fst (decode_lead b s)) = snd (decode_lead b s)"
  using decode2_valid [of b s] decode3_valid [of b s] decode4_valid [of b s]
  by (auto simp: decode_lead_def RuneLen_def)

lemma RuneLen_decode:
  "s \<noteq> [] \<Longrightarrow> \<not> bad_rune s \<Longrightarrow> RuneLen (fst (decode_rune s)) = rune_size s"
  using RuneLen_decode_lead [of "of_char (hd s)" "tl s"]
  by (cases s) (auto simp: bad_rune_def rune_size_def)

section \<open>JSON strings\<close>

definition hex_digit :: "nat \<Rightarrow> char" where
  "hex_digit d = (if d < 10 then char_of (48 + d) else char_of (87 + d))"

definition json_u :: "nat \<Rightarrow> string" where
  "json_u r = [CHR 0x5C, CHR ''u'', hex_digit (r div 4096 mod 16), hex_digit (r div 256 mod 16),
               hex_digit (r div 16 mod 16), hex_digit (r mod 16)]"

definition json_ascii :: "nat \<Rightarrow> string" where
  "json_ascii b =
     (if b = 34 then [CHR 0x5C, CHR 0x22]
      else if b = 92 then [CHR 0x5C, CHR 0x5C]
      else if b = 8 then [CHR 0x5C, CHR ''b'']
      else if b = 12 then [CHR 0x5C, CHR ''f'']
      else if b = 10 then [CHR 0x5C, CHR ''n'']
      else if b = 13 then [CHR 0x5C, CHR ''r'']
      else if b = 9 then [CHR 0x5C, CHR ''t'']
      else if b < 32 \<or> b = 60 \<or> b = 62 \<or> b = 38 then json_u b
      else [char_of b])"

function json_chars :: "string \<Rightarrow> string" where
  "json_chars s =
     (if s = [] then []
      else let (r, n) = decode_rune s in
        (if r < 128 then json_ascii r
         else if (r, n) = (RuneError, 1) then json_u RuneError
         else if r = 8232 \<or> r = 8233 then json_u r
         else take n s) @ json_chars (drop n s))"
  by pat_completeness auto
termination
proof (relation "measure length")
  fix s :: string and p r n
  assume "s \<noteq> []" "p = decode_rune s" "(r, n) = p"
  then have "n = rune_size s" by (simp add: rune_size_def) (metis snd_conv)
  with \<open>s \<noteq> []\<close> rune_size_pos [of s] show "(drop n s, s) \<in> measure length" by simp
qed simp

declare json_chars.simps [simp del]

definition json_string :: "string \<Rightarrow> string" where
  "json_string s = CHR 0x22 # json_chars s @ [CHR 0x22]"

lemma json_chars_Nil [simp]: "json_chars [] = []"
  by (simp add: json_chars.simps)

lemma json_ascii_length: "1 \<le> length (json_ascii b)"
  by (simp add: json_ascii_def json_u_def)

definition json_piece :: "string \<Rightarrow> string" where
  "json_piece s =
     (let (r, n) = decode_rune s in
        if r < 128 then json_ascii r
        else if (r, n) = (RuneError, 1) then json_u RuneError
        else if r = 8232 \<or> r = 8233 then json_u r
        else take n s)"

lemma json_chars_unfold: "s \<noteq> [] \<Longrightarrow> json_chars s = json_piece s @ json_chars (drop (rune_size s) s)"
  by (subst json_chars.simps) (simp add: json_piece_def rune_size_def split_def Let_def)

lemma ascii_width: "s \<noteq> [] \<Longrightarrow> fst (decode_rune s) < 128 \<Longrightarrow> rune_size s = 1"
  using RuneLen_decode [of s] by (cases "bad_rune s") (auto simp: bad_rune_def RuneLen_def rune_size_def RuneError_def)

lemma json_piece_length: "s \<noteq> [] \<Longrightarrow> rune_size s \<le> length (json_piece s)"
  using ascii_width [of s] json_ascii_length rune_size_le [of s] rune_size_le4 [of s]
  by (simp add: json_piece_def split_def json_u_def rune_size_def Let_def)

text \<open>Encoding never shortens a text.\<close>

lemma json_chars_length: "length s \<le> length (json_chars s)"
proof (induction s rule: json_chars.induct)
  case (1 s)
  show ?case
  proof (cases "s = []")
    case False
    have "length (drop (rune_size s) s) \<le> length (json_chars (drop (rune_size s) s))"
      using 1 [OF False, of "decode_rune s" "fst (decode_rune s)" "rune_size s"]
      by (simp add: rune_size_def)
    with json_piece_length [OF False] show ?thesis
      by (simp add: json_chars_unfold False)
  qed simp
qed

end
