(* ===== verification/Chat_Model.thy ===== *)
theory Chat_Model
  imports Toolkit Message_Events
begin

text \<open>
  The shared vocabulary of the model providers (\<open>pkg/model/core.go\<close>, \<open>adapter.go\<close>) and
  the tool choice of a call (\<open>pkg/types/tool_choice.go\<close>): call requests, responses, the token
  estimate and the normalisation of provider responses. A provider is the record
  \<open>chat_model\<close> of the operations the agent calls.
\<close>

section \<open>Tool choice\<close>

record tool_choice =
  ChoiceMode :: string
  ChoiceTools :: "string list"

definition isBuiltInMode :: "tool_choice \<Rightarrow> bool" where
  "isBuiltInMode c \<longleftrightarrow> ChoiceMode c \<in> {''auto'', ''none'', ''required''}"

definition errForcedNotInFilter :: "string \<Rightarrow> error" where
  "errForcedNotInFilter m =
     Err (''agentscope/types: forced tool '' @ go_quote m @ '' is not included in tools filter'')"

definition NewToolChoice :: "string \<Rightarrow> string list \<Rightarrow> error + tool_choice" where
  "NewToolChoice mode tools =
     (if mode = [] then Inl (Err ''agentscope/types: tool choice mode is empty'')
      else let c = \<lparr>ChoiceMode = mode, ChoiceTools = tools\<rparr> in
        if tools \<noteq> [] \<and> \<not> isBuiltInMode c \<and> mode \<notin> set tools
        then Inl (errForcedNotInFilter mode) else Inr c)"

fun choice_filter_loop :: "string list \<Rightarrow> string list \<Rightarrow> error option" where
  "choice_filter_loop available [] = None"
| "choice_filter_loop available (name # names) =
     (if available \<noteq> [] \<and> name \<notin> set available
      then Some (Err (''agentscope/types: tool '' @ go_quote name @ '' in tools filter is not available''))
      else choice_filter_loop available names)"

definition choice_Validate :: "tool_choice option \<Rightarrow> string list \<Rightarrow> error option" where
  "choice_Validate co available =
     (case co of
        None \<Rightarrow> None
      | Some c \<Rightarrow>
          if ChoiceMode c = [] then Some (Err ''agentscope/types: tool choice mode is empty'')
          else case choice_filter_loop available (ChoiceTools c) of
            Some e \<Rightarrow> Some e
          | None \<Rightarrow>
              if isBuiltInMode c then None
              else if ChoiceTools c \<noteq> [] \<and> ChoiceMode c \<notin> set (ChoiceTools c)
              then Some (errForcedNotInFilter (ChoiceMode c))
              else if available \<noteq> [] \<and> ChoiceMode c \<notin> set available
              then Some (Err (''agentscope/types: forced tool '' @ go_quote (ChoiceMode c) @ '' is not available''))
              else None)"

lemma NewToolChoice_valid: "NewToolChoice m ts = Inr c \<Longrightarrow> choice_Validate (Some c) [] = None"
proof -
  have "choice_filter_loop [] ts = None" by (induction ts) auto
  then show "NewToolChoice m ts = Inr c \<Longrightarrow> choice_Validate (Some c) [] = None"
    by (auto simp: NewToolChoice_def choice_Validate_def Let_def split: if_splits)
qed

section \<open>Requests and responses\<close>

record chat_usage =
  ChatInputTokens :: int
  ChatOutputTokens :: int
  UsageTime :: int
  CacheCreationInputTokens :: int
  CacheInputTokens :: int
  UsageType :: string
  UsageMetadata :: "gmap option"

definition usage_Clone :: "chat_usage option \<Rightarrow> chat_usage option" where
  "usage_Clone uo =
     (case uo of
        None \<Rightarrow> None
      | Some u \<Rightarrow> Some (u\<lparr>UsageType := (if UsageType u = [] then ''chat'' else UsageType u),
                        UsageMetadata := CloneAnyMap (UsageMetadata u)\<rparr>))"

record chat_response =
  RespContent :: blocks
  IsLast :: bool
  RespError :: "error option"
  RespID :: string
  RespCreatedAt :: string
  RespType :: string
  RespUsage :: "chat_usage option"
  RespMetadata :: "gmap option"

type_synonym response_option = "chat_response \<Rightarrow> chat_response"

definition WithChatResponseID :: "string \<Rightarrow> response_option" where
  "WithChatResponseID i r = r\<lparr>RespID := i\<rparr>"

definition WithChatResponseCreatedAt :: "string \<Rightarrow> response_option" where
  "WithChatResponseCreatedAt t r = r\<lparr>RespCreatedAt := t\<rparr>"

definition WithChatResponseUsage :: "chat_usage option \<Rightarrow> response_option" where
  "WithChatResponseUsage u r = r\<lparr>RespUsage := usage_Clone u\<rparr>"

definition WithChatResponseMetadata :: "gmap option \<Rightarrow> response_option" where
  "WithChatResponseMetadata md r = r\<lparr>RespMetadata := CloneAnyMap md\<rparr>"

definition WithChatResponseError :: "error option \<Rightarrow> response_option" where
  "WithChatResponseError e r = r\<lparr>RespError := e\<rparr>"

definition NewChatResponse :: "env \<Rightarrow> blocks \<Rightarrow> bool \<Rightarrow> response_option list \<Rightarrow> (chat_response \<times> env) go" where
  "NewChatResponse w content isLast opts =
     go_bind (clone_list content) (\<lambda>bs.
       let (i, w) = newID w;
           (t, w) = nowISO w;
           r = \<lparr>RespContent = bs, IsLast = isLast, RespError = None, RespID = i, RespCreatedAt = t,
                RespType = ''chat_response'', RespUsage = None, RespMetadata = Some []\<rparr>;
           r = fold (\<lambda>opt r. opt r) opts r;
           (r, w) = (if RespID r = [] then let (i, w) = newID w in (r\<lparr>RespID := i\<rparr>, w) else (r, w));
           (r, w) = (if RespCreatedAt r = [] then let (t, w) = nowISO w in (r\<lparr>RespCreatedAt := t\<rparr>, w) else (r, w));
           r = (if RespType r = [] then r\<lparr>RespType := ''chat_response''\<rparr> else r);
           r = (if RespMetadata r = None then r\<lparr>RespMetadata := Some []\<rparr> else r);
           r = (case RespUsage r of
                  Some u \<Rightarrow> if UsageType u = [] then r\<lparr>RespUsage := Some (u\<lparr>UsageType := ''chat''\<rparr>)\<rparr> else r
                | None \<Rightarrow> r)
       in Ret (r, w))"

definition response_Clone :: "chat_response \<Rightarrow> chat_response go" where
  "response_Clone r =
     go_bind (clone_list (RespContent r)) (\<lambda>bs.
       Ret (r\<lparr>RespContent := bs, RespUsage := usage_Clone (RespUsage r),
              RespMetadata := CloneAnyMap (RespMetadata r)\<rparr>))"

record call_request =
  ReqMessages :: "message option list"
  ReqTools :: "tool_schema list"
  ReqToolChoice :: "tool_choice option"
  ReqStream :: bool
  ReqMetadata :: "gmap option"
  ReqParameters :: "gmap option"

definition request_Clone :: "call_request \<Rightarrow> call_request go" where
  "request_Clone r =
     go_bind (clone_messages (ReqMessages r)) (\<lambda>ms.
       Ret (r\<lparr>ReqMessages := ms, ReqMetadata := CloneAnyMap (ReqMetadata r),
              ReqParameters := CloneAnyMap (ReqParameters r)\<rparr>))"

text \<open>
  A provider, with its own state. A stream is the list of chunks its channel delivers before it is
  closed; \<open>None\<close> is a nil channel, and a nil response of \<open>Call\<close>.
\<close>

record 'm chat_model =
  ModelName :: string
  ModelCall :: "call_request \<Rightarrow> 'm \<Rightarrow> (error + chat_response option) \<times> 'm"
  ModelStream :: "call_request \<Rightarrow> 'm \<Rightarrow> (error + chat_response list option) \<times> 'm"
  CountTokens :: "call_request \<Rightarrow> error + int"

section \<open>The token estimate\<close>

text \<open>
  \<open>math.Ceil(float64(bytes) / 4)\<close> is exact for every length of a string in memory. The length of
  a tool schema's JSON text is a parameter.
\<close>

definition approximateBytes :: "int \<Rightarrow> int" where
  "approximateBytes n = (if n \<le> 0 then 0 else (n + 3) div 4)"

fun approximateBlockTokens :: "block \<Rightarrow> int"
  and approximateTokens :: "blocks \<Rightarrow> int" where
  "approximateBlockTokens (TextBlock t i) = approximateBytes (int (length t))"
| "approximateBlockTokens (ThinkingBlock t i x) = approximateBytes (int (length t))"
| "approximateBlockTokens (HintBlock h None i src) = approximateBytes (int (length h))"
| "approximateBlockTokens (HintBlock h (Some bs) i src) = approximateTokens bs"
| "approximateBlockTokens (ToolCallBlock i n inp st rs x) = approximateBytes (int (length n) + int (length inp))"
| "approximateBlockTokens (ToolResultBlock i n raw bs st md) = approximateBytes (int (length raw))"
| "approximateBlockTokens (DataBlock i None n) = 0"
| "approximateBlockTokens (DataBlock i (Some (Base64Source d mt)) n) = approximateBytes (int (length d))"
| "approximateBlockTokens (DataBlock i (Some (URLSource u mt)) n) = approximateBytes (int (length u))"
| "approximateTokens [] = 0"
| "approximateTokens (None # bs) = approximateTokens bs"
| "approximateTokens (Some b # bs) = approximateBlockTokens b + approximateTokens bs"

fun messages_tokens :: "message option list \<Rightarrow> int" where
  "messages_tokens [] = 0"
| "messages_tokens (None # ms) = messages_tokens ms"
| "messages_tokens (Some m # ms) = approximateTokens (Content m) + messages_tokens ms"

definition ApproximateTokenCount :: "(tool_schema \<Rightarrow> nat option) \<Rightarrow> message option list \<Rightarrow> tool_schema list \<Rightarrow> int" where
  "ApproximateTokenCount json_length ms tools =
     messages_tokens ms
     + sum_list (map (\<lambda>t. case json_length t of None \<Rightarrow> 0 | Some n \<Rightarrow> approximateBytes (int n)) tools)"

section \<open>Normalised responses\<close>

datatype ResponsePartKind = PartText | PartThinking | PartToolCall | PartBase64Data | PartURLData | PartOther string

record response_part =
  PartKind :: ResponsePartKind
  PartID :: string
  PartTextOf :: string
  PartThinkingOf :: string
  PartToolName :: string
  PartToolInput :: string
  PartData :: string
  PartURL :: string
  PartMediaType :: string
  PartName :: string

definition data_options :: "string \<Rightarrow> string \<Rightarrow> block_option list" where
  "data_options i n = WithDataBlockID i # (if n \<noteq> [] then [WithDataBlockName n] else [])"

definition normalizePart :: "env \<Rightarrow> response_part \<Rightarrow> (error + block) \<times> env" where
  "normalizePart w p =
     (let (i, w) = (if PartID p = [] then newID w else (PartID p, w)) in
      case PartKind p of
        PartText \<Rightarrow> (let (b, w) = NewTextBlockWith w (PartTextOf p) [WithBlockID i] in (Inr b, w))
      | PartThinking \<Rightarrow>
          (let (b, w) = NewThinkingBlockWith w (PartThinkingOf p) [WithThinkingBlockID i] in (Inr b, w))
      | PartToolCall \<Rightarrow> (Inr (NewToolCallBlock i (PartToolName p) (PartToolInput p)), w)
      | PartBase64Data \<Rightarrow>
          (let (b, w) = NewDataBlockWith w (Some (Base64Source (PartData p) (PartMediaType p)))
                          (data_options i (PartName p)) in (Inr b, w))
      | PartURLData \<Rightarrow>
          (let (b, w) = NewDataBlockWith w (Some (URLSource (PartURL p) (PartMediaType p)))
                          (data_options i (PartName p)) in (Inr b, w))
      | PartOther k \<Rightarrow>
          (Inl (Err (''agentscope/model: unsupported response part kind '' @ go_quote k)), w))"

fun normalize_parts :: "env \<Rightarrow> response_part list \<Rightarrow> (error + blocks) \<times> env" where
  "normalize_parts w [] = (Inr [], w)"
| "normalize_parts w (p # ps) =
     (case normalizePart w p of
        (Inl e, w) \<Rightarrow> (Inl e, w)
      | (Inr b, w) \<Rightarrow>
          (case normalize_parts w ps of
             (Inl e, w) \<Rightarrow> (Inl e, w)
           | (Inr bs, w) \<Rightarrow> (Inr (Some b # bs), w)))"

definition NormalizeChatResponse :: "env \<Rightarrow> response_part list \<Rightarrow> bool \<Rightarrow> chat_usage option \<Rightarrow> gmap option
    \<Rightarrow> ((error + chat_response) \<times> env) go" where
  "NormalizeChatResponse w parts isLast us md =
     (case normalize_parts w parts of
        (Inl e, w) \<Rightarrow> Ret (Inl e, w)
      | (Inr bs, w) \<Rightarrow>
          go_bind (NewChatResponse w bs isLast [WithChatResponseUsage us, WithChatResponseMetadata md])
            (\<lambda>(r, w). Ret (Inr r, w)))"


section \<open>The estimate of streamed tool results\<close>

lemma approximateTokens_append [simp]:
  "approximateTokens (a @ b) = approximateTokens a + approximateTokens b"
  by (induction a) (auto split: option.splits, metis approximateTokens.simps(2,3) option.exhaust add.assoc)

lemma approximateBytes_nonneg: "0 \<le> approximateBytes n"
  by (auto simp: approximateBytes_def intro: pos_imp_zdiv_nonneg_iff [THEN iffD2])

text \<open>Replacing the block \<open>FindBlock\<close> found by a cheaper one does not raise the estimate.\<close>

lemma edit_block_tokens:
  assumes "\<And>b. FindBlock (Content m) ty i = Some b \<Longrightarrow> approximateBlockTokens (f b) \<le> approximateBlockTokens b"
  shows "approximateTokens (Content (edit_block ty i f m)) \<le> approximateTokens (Content m)"
proof -
  have "approximateTokens (update_first (block_matches ty i) (map_option f) bs) \<le> approximateTokens bs"
    if "\<And>b. FindBlock bs ty i = Some b \<Longrightarrow> approximateBlockTokens (f b) \<le> approximateBlockTokens b" for bs
    using that
  proof (induction bs)
    case Nil
    then show ?case by simp
  next
    case (Cons bo bs)
    show ?case
    proof (cases "block_matches ty i bo")
      case True
      then obtain b where b: "bo = Some b" by (cases bo) (auto simp: block_matches_def)
      with True Cons.prems [of b] show ?thesis by (simp add: FindBlock_def)
    next
      case False
      then have "FindBlock (bo # bs) ty i = FindBlock bs ty i" by (simp add: FindBlock_def)
      with Cons False show ?thesis by (cases bo) auto
    qed
  qed
  with assms show ?thesis by (simp add: edit_block_def)
qed

lemma ensure_tokens: "ensureToolResultBlocks w raw bs = ((raw', bs'), w') \<Longrightarrow> raw' = raw \<or> raw' = []"
  by (auto simp: ensureToolResultBlocks_def Let_def split_def split: option.splits if_splits)

lemma appendToolResultText_tokens:
  "appendToolResultText w b d = Ret (b', w') \<Longrightarrow> approximateBlockTokens b' \<le> approximateBlockTokens b"
proof (cases b)
  case (ToolResultBlock i n raw bs st md)
  assume "appendToolResultText w b d = Ret (b', w')"
  moreover obtain raw' bs' w1 where e: "ensureToolResultBlocks w raw bs = ((raw', bs'), w1)"
    by (metis surj_pair)
  ultimately show ?thesis
    using ensure_tokens [OF e] approximateBytes_nonneg
    by (auto simp: ToolResultBlock go_bind_eq_Ret approximateBytes_def)
qed (auto)

lemma appendToolResultData_tokens:
  "approximateBlockTokens (fst (appendToolResultData w b bid mt d u)) \<le> approximateBlockTokens b"
proof (cases b)
  case (ToolResultBlock i n raw bs st md)
  obtain raw' bs' w1 where e: "ensureToolResultBlocks w raw bs = ((raw', bs'), w1)"
    by (metis surj_pair)
  show ?thesis
    using ensure_tokens [OF e] approximateBytes_nonneg
    by (auto simp: ToolResultBlock e Let_def approximateBytes_def)
qed auto

lemma set_call_state_tokens [simp]: "approximateBlockTokens (set_call_state st b) = approximateBlockTokens b"
  by (cases b) auto

lemma end_result_tokens [simp]: "approximateBlockTokens (end_result st md b) = approximateBlockTokens b"
  by (cases b) auto

lemma applyToolResultEvent_tokens:
  assumes "applyToolResultEvent w m e = Ret ((h, m'), w')"
  shows "approximateTokens (Content m') \<le> approximateTokens (Content m)"
proof (cases "Body e")
  case (ToolResultStart i n)
  with assms show ?thesis
    by (auto simp: applyToolResultEvent_def append_block_def NewToolResultBlock_def approximateBytes_def)
next
  case (ToolResultTextDelta i d)
  show ?thesis
  proof (cases "FindBlock (Content m) ''tool_result'' i")
    case None
    with assms ToolResultTextDelta show ?thesis by (simp add: applyToolResultEvent_def)
  next
    case (Some b)
    with assms ToolResultTextDelta obtain b' where b': "appendToolResultText w b d = Ret (b', w')"
        "m' = edit_block ''tool_result'' i (\<lambda>_. b') m"
      by (auto simp: applyToolResultEvent_def go_bind_eq_Ret)
    show ?thesis
      unfolding b'(2) by (rule edit_block_tokens) (use Some appendToolResultText_tokens [OF b'(1)] in auto)
  qed
next
  case (ToolResultDataDelta i bid mt d u)
  show ?thesis
  proof (cases "FindBlock (Content m) ''tool_result'' i")
    case None
    with assms ToolResultDataDelta show ?thesis by (simp add: applyToolResultEvent_def)
  next
    case (Some b)
    define b' where "b' = fst (appendToolResultData w b bid mt d u)"
    from Some assms ToolResultDataDelta have m': "m' = edit_block ''tool_result'' i (\<lambda>_. b') m"
      by (auto simp: applyToolResultEvent_def b'_def split: prod.splits)
    show ?thesis
      unfolding m'
      by (rule edit_block_tokens) (use Some appendToolResultData_tokens [of w b bid mt d u] in \<open>auto simp: b'_def\<close>)
  qed
next
  case (ToolResultEnd i st md)
  with assms have m': "m' = edit_block ''tool_call'' i (set_call_state ToolCallFinished)
      (edit_block ''tool_result'' i (end_result st md) m)"
    by (simp add: applyToolResultEvent_def)
  show ?thesis
    unfolding m' by (rule order_trans [OF edit_block_tokens edit_block_tokens]) simp_all
qed (use assms in \<open>auto simp: applyToolResultEvent_def\<close>)

definition tool_result_body :: "event_body \<Rightarrow> bool" where
  "tool_result_body b \<longleftrightarrow> (case b of
     ToolResultStart _ _ \<Rightarrow> True | ToolResultTextDelta _ _ \<Rightarrow> True
   | ToolResultDataDelta _ _ _ _ _ \<Rightarrow> True | ToolResultEnd _ _ _ \<Rightarrow> True | _ \<Rightarrow> False)"

text \<open>The token estimate ignores streamed tool output: applying the events of a tool result to a
  message, however much text or data they carry, never raises the estimate of the message (the
  estimate reads the raw output of a result, and streaming moves the output into blocks).\<close>

theorem streamed_tool_output_is_not_counted:
  assumes "ApplyEvent w m (Some e) = Ret ((err, m'), w')" and "tool_result_body (Body e)"
  shows "approximateTokens (Content m') \<le> approximateTokens (Content m)"
proof (cases "ReplyID e = MsgID m")
  case False
  with assms(1) show ?thesis by (simp add: ApplyEvent_foreign)
next
  case True
  obtain h where "applyToolResultEvent w m e = Ret ((h, m'), w')"
    using assms by (cases "Body e")
      (auto simp: tool_result_body_def ApplyEvent_own [OF True] applyToolResultEvent_def go_bind_eq_Ret)
  then show ?thesis by (rule applyToolResultEvent_tokens)
qed

theorem streamed_tool_output_is_not_counted_witness:
  "\<exists>m' w'. ApplyEvent demo_env (demo_message\<lparr>Content := [Some (ToolResultBlock ''c'' ''Bash'' [] (Some []) ToolResultRunning None)]\<rparr>)
      (Some (demo_event (ToolResultTextDelta ''c'' ''a very long output''))) = Ret ((None, m'), w')
    \<and> approximateTokens (Content m') \<le> 0"
proof -
  define m where "m = demo_message\<lparr>Content := [Some (ToolResultBlock ''c'' ''Bash'' [] (Some []) ToolResultRunning None)]\<rparr>"
  define e where "e = demo_event (ToolResultTextDelta ''c'' ''a very long output'')"
  obtain m' w' where r: "ApplyEvent demo_env m (Some e) = Ret ((None, m'), w')"
    by (simp add: m_def e_def demo_message_def demo_event_def ApplyEvent_own ReplyID_def
        applyToolResultEvent_def FindBlock_def block_matches_def ensureToolResultBlocks_def
        append_text_block_def NewTextBlock_def newID_def)
  have "tool_result_body (Body e)" by (simp add: e_def demo_event_def tool_result_body_def)
  from streamed_tool_output_is_not_counted [OF r this] have "approximateTokens (Content m') \<le> 0"
    by (simp add: m_def approximateBytes_def)
  with r show ?thesis unfolding m_def e_def by blast
qed

end
