(* ===== verification/Agent_Context.thy ===== *)
theory Agent_Context
  imports Chat_Model Utf8
begin

text \<open>
  The context compression of the agent (\<open>pkg/agent/context.go\<close> and
  \<open>context_strategy.go\<close>): cutting text at rune boundaries, truncating and offloading large
  tool results, the split of the conversation into the part to summarise and the part to keep, and
  the thresholds that decide when to compress and when to refuse.

  The model (token counts, the summary call), the offloader and \<open>json.Unmarshal\<close> are
  parameters. A context is what \<open>ctx.Err()\<close> answers at each check.
\<close>

section \<open>Cutting text\<close>

function trunc_loop :: "nat \<Rightarrow> nat \<Rightarrow> nat \<Rightarrow> string \<Rightarrow> nat" where
  "trunc_loop limit index fin s =
     (if s = [] then fin
      else let nxt = index + RuneLen (fst (decode_rune s)) in
        if nxt > limit then fin
        else trunc_loop limit (index + rune_size s) nxt (drop (rune_size s) s))"
  by pat_completeness auto
termination
  by (relation "measure (\<lambda>(limit, index, fin, s). length s)") (auto simp: rune_size_pos)

declare trunc_loop.simps [simp del]

definition truncateUTF8 :: "string \<Rightarrow> int \<Rightarrow> string" where
  "truncateUTF8 text limit =
     (if limit \<le> 0 then []
      else if int (length text) \<le> limit then text
      else take (trunc_loop (nat limit) 0 0 text) text)"

definition splitUTF8 :: "string \<Rightarrow> int \<Rightarrow> string \<times> string" where
  "splitUTF8 text limit =
     (if limit \<le> 0 then ([], text)
      else if int (length text) \<le> limit then (text, [])
      else let head = truncateUTF8 text limit in (head, drop (length head) text))"

lemma trunc_loop_le: "fin \<le> limit \<Longrightarrow> trunc_loop limit index fin s \<le> limit"
proof (induction limit index fin s rule: trunc_loop.induct)
  case (1 limit index fin s)
  then show ?case by (subst trunc_loop.simps) (auto simp: Let_def)
qed

lemma truncateUTF8_le: "0 \<le> limit \<Longrightarrow> int (length (truncateUTF8 text limit)) \<le> limit"
  using trunc_loop_le [of 0 "nat limit" 0 "text"] by (auto simp: truncateUTF8_def min_def)

lemma truncateUTF8_prefix: "\<exists>rest. text = truncateUTF8 text limit @ rest"
  by (auto simp: truncateUTF8_def intro: exI [of _ "drop (trunc_loop (nat limit) 0 0 text) text"])

lemma splitUTF8_append: "splitUTF8 text limit = (h, t) \<Longrightarrow> h @ t = text"
proof -
  assume s: "splitUTF8 text limit = (h, t)"
  obtain rest where "text = truncateUTF8 text limit @ rest" using truncateUTF8_prefix by blast
  with s show ?thesis
    by (auto simp: splitUTF8_def Let_def split: if_splits)
qed

lemma splitUTF8_le: "0 \<le> limit \<Longrightarrow> splitUTF8 text limit = (h, t) \<Longrightarrow> int (length h) \<le> limit"
  using truncateUTF8_le [of limit "text"] by (auto simp: splitUTF8_def Let_def split: if_splits)

text \<open>Texts without invalid bytes, as the list of their runes.\<close>

inductive valid_utf8 :: "string \<Rightarrow> bool" where
  Nil_valid: "valid_utf8 []"
| Rune_valid: "s \<noteq> [] \<Longrightarrow> \<not> bad_rune s \<Longrightarrow> valid_utf8 (drop (rune_size s) s) \<Longrightarrow> valid_utf8 s"

inductive_cases valid_utf8_consE: "valid_utf8 (c # s)"

text \<open>How many bytes of whole runes fit in \<open>n\<close> bytes.\<close>

function whole_runes :: "nat \<Rightarrow> string \<Rightarrow> nat" where
  "whole_runes n s =
     (if s = [] \<or> rune_size s > n then 0
      else rune_size s + whole_runes (n - rune_size s) (drop (rune_size s) s))"
  by pat_completeness auto
termination
  by (relation "measure (\<lambda>(n, s). length s)") (auto simp: rune_size_pos)

declare whole_runes.simps [simp del]

lemma trunc_loop_valid:
  "valid_utf8 s \<Longrightarrow> index \<le> limit \<Longrightarrow>
     trunc_loop limit index index s = index + whole_runes (limit - index) s"
proof (induction s arbitrary: index rule: valid_utf8.induct)
  case Nil_valid
  then show ?case by (simp add: trunc_loop.simps [of limit index index "[]"] whole_runes.simps [of _ "[]"])
next
  case (Rune_valid s)
  have w: "RuneLen (fst (decode_rune s)) = rune_size s"
    using Rune_valid(1,2) by (rule RuneLen_decode)
  show ?case
  proof (cases "index + rune_size s > limit")
    case True
    then show ?thesis
      using Rune_valid(1) Rune_valid.prems
      by (simp add: trunc_loop.simps [of limit index index s] whole_runes.simps [of _ s] w Let_def)
  next
    case False
    then show ?thesis
      using Rune_valid(1) Rune_valid.IH [of "index + rune_size s"] Rune_valid.prems
      by (simp add: trunc_loop.simps [of limit index index s] whole_runes.simps [of _ s] w Let_def)
  qed
qed


section \<open>Large tool results\<close>

text \<open>
  A tool result block is \<open>ToolResultBlock id name raw blocks state metadata\<close>; a nil list of
  output blocks is empty. The limit is in bytes. \<open>splitToolResult\<close> walks the output blocks with
  the bytes used so far and, once one text did not fit, moves everything else to the offloaded part.
\<close>

definition out_blocks :: "blocks option \<Rightarrow> blocks" where
  "out_blocks bs = (case bs of None \<Rightarrow> [] | Some l \<Rightarrow> l)"

fun split_blocks :: "int \<Rightarrow> env \<Rightarrow> blocks \<Rightarrow> int \<Rightarrow> bool \<Rightarrow> blocks \<Rightarrow> blocks
    \<Rightarrow> ((blocks \<times> blocks) \<times> env) go" where
  "split_blocks limit w [] used offloading res off = Ret ((res, off), w)"
| "split_blocks limit w (None # bs) used offloading res off =
     split_blocks limit w bs used offloading res off"
| "split_blocks limit w (Some b # bs) used offloading res off =
     (if offloading then
        go_bind (clone_block b) (\<lambda>c. split_blocks limit w bs used True res (off @ [Some c]))
      else case b of
        TextBlock t i \<Rightarrow>
          (let remaining = limit - used in
           if remaining \<le> 0 then
             go_bind (clone_block b) (\<lambda>c. split_blocks limit w bs used True res (off @ [Some c]))
           else if int (length t) \<le> remaining then
             go_bind (clone_block b)
               (\<lambda>c. split_blocks limit w bs (used + int (length t)) False (res @ [Some c]) off)
           else
             (let (head, tail) = splitUTF8 t remaining;
                  (res, w) = (if head \<noteq> []
                              then let (c, w) = NewTextBlockWith w head [WithBlockID i] in (res @ [Some c], w)
                              else (res, w));
                  (off, w) = (if tail \<noteq> []
                              then let (c, w) = NewTextBlockWith w tail [WithBlockID i] in (off @ [Some c], w)
                              else (off, w))
              in split_blocks limit w bs used True res off))
      | _ \<Rightarrow> go_bind (clone_block b) (\<lambda>c. split_blocks limit w bs used False (res @ [Some c]) off))"

definition splitToolResult :: "env \<Rightarrow> block \<Rightarrow> int \<Rightarrow> ((block \<times> block option \<times> bool) \<times> env) go" where
  "splitToolResult w result limit =
     (case result of
        ToolResultBlock i n raw bs st md \<Rightarrow>
          if limit \<le> 0 then Ret ((result, None, False), w)
          else if raw \<noteq> [] then
            (if int (length raw) \<le> limit then Ret ((result, None, False), w)
             else let (head, tail) = splitUTF8 raw limit in
               Ret ((NewToolResultBlock i n head None [st],
                     Some (NewToolResultBlock i n tail None [st]), True), w))
          else
            go_bind (split_blocks limit w (out_blocks bs) 0 False [] [])
              (\<lambda>((res, off), w).
                 if off = [] then Ret ((result, None, False), w)
                 else Ret ((NewToolResultBlock i n [] (Some res) [st],
                            Some (NewToolResultBlock i n [] (Some off) [st]), True), w))
      | _ \<Rightarrow> Ret ((result, None, False), w))"

definition reminder :: "string \<Rightarrow> string" where
  "reminder path =
     [CHR 0x0A] @ ''<<<TRUNCATED>>>'' @ [CHR 0x0A]
     @ ''<system-reminder>The remaining content has been omitted for limited context and offloaded to ''
     @ [CHR 0x27] @ path @ [CHR 0x27] @ ''.</system-reminder>''"

definition appendToolResultReminder :: "env \<Rightarrow> block \<Rightarrow> string \<Rightarrow> block \<times> env" where
  "appendToolResultReminder w result path =
     (case result of
        ToolResultBlock i n raw bs st md \<Rightarrow>
          if raw \<noteq> [] then (ToolResultBlock i n (raw @ reminder path) bs st md, w)
          else let (b, w) = NewTextBlock w (reminder path)
               in (ToolResultBlock i n raw (Some (out_blocks bs @ [Some b])) st md, w)
      | _ \<Rightarrow> (result, w))"

definition text_contains :: "string \<Rightarrow> block option \<Rightarrow> bool" where
  "text_contains t bo = (case bo of Some (TextBlock s i) \<Rightarrow> Contains s t | _ \<Rightarrow> False)"

definition toolResultHasOffloadReminder :: "block \<Rightarrow> bool" where
  "toolResultHasOffloadReminder result =
     (case result of
        ToolResultBlock i n raw bs st md \<Rightarrow>
          if Contains raw ''offloaded to'' then True
          else list_ex (text_contains ''offloaded to'') (out_blocks bs)
      | _ \<Rightarrow> False)"

definition truncation_note :: string where
  "truncation_note = [CHR 0x0A] @ ''... (tool result truncated)''"

fun truncate_text :: "int \<Rightarrow> block option \<Rightarrow> block option" where
  "truncate_text limit (Some (TextBlock t i)) =
     (if int (length t) \<le> limit then Some (TextBlock t i)
      else Some (TextBlock (truncateUTF8 t limit @ truncation_note) i))"
| "truncate_text limit bo = bo"

definition truncateToolResult :: "block \<Rightarrow> int \<Rightarrow> block" where
  "truncateToolResult result limit =
     (if limit \<le> 0 then result
      else case result of
        ToolResultBlock i n raw bs st md \<Rightarrow>
          ToolResultBlock i n
            (if raw \<noteq> [] \<and> int (length raw) > limit then truncateUTF8 raw limit @ truncation_note else raw)
            (map_option (map (truncate_text limit)) bs) st md
      | _ \<Rightarrow> result)"

subsection \<open>Offloading\<close>

text \<open>The workspace offloader, with its own state.\<close>

record 'o offloader =
  OffloadDataBlock :: "block \<Rightarrow> 'o \<Rightarrow> (error + block option) \<times> 'o"
  OffloadToolResult :: "string \<Rightarrow> block \<Rightarrow> 'o \<Rightarrow> (error + string) \<times> 'o"
  OffloadContext :: "string \<Rightarrow> message option list \<Rightarrow> 'o \<Rightarrow> (error + string) \<times> 'o"

definition offloadToolResult :: "'o offloader \<Rightarrow> string \<Rightarrow> env \<Rightarrow> block \<Rightarrow> int \<Rightarrow> 'o
    \<Rightarrow> ((error + block) \<times> env \<times> 'o) go" where
  "offloadToolResult ol sid w result limit s =
     (if limit \<le> 0 \<or> toolResultHasOffloadReminder result then Ret (Inr result, w, s)
      else go_bind (splitToolResult w result limit) (\<lambda>((reserved, offloaded, ok), w).
        if \<not> ok then Ret (Inr result, w, s)
        else case OffloadToolResult ol sid (the offloaded) s of
          (Inl e, s) \<Rightarrow> Ret (Inl e, w, s)
        | (Inr path, s) \<Rightarrow>
            let (b, w) = appendToolResultReminder w reserved path in Ret (Inr b, w, s)))"

text \<open>
  \<open>offloadDataBlocksInList\<close> replaces every base64 data block by what the offloader returns, in
  place, also inside tool results; the blocks changed before an error stay changed. A cancelled
  context ends the pass at the next block.
\<close>

fun offload_block :: "'o offloader \<Rightarrow> error option \<Rightarrow> block \<Rightarrow> 'o \<Rightarrow> (error option \<times> block) \<times> 'o"
  and offload_list :: "'o offloader \<Rightarrow> error option \<Rightarrow> blocks \<Rightarrow> 'o \<Rightarrow> (error option \<times> blocks) \<times> 'o" where
  "offload_block ol ctx (DataBlock i src n) s =
     (case src of
        Some (Base64Source d mt) \<Rightarrow>
          (case OffloadDataBlock ol (DataBlock i src n) s of
             (Inl e, s) \<Rightarrow> ((Some e, DataBlock i src n), s)
           | (Inr None, s) \<Rightarrow> ((None, DataBlock i src n), s)
           | (Inr (Some b), s) \<Rightarrow> ((None, b), s))
      | _ \<Rightarrow> ((None, DataBlock i src n), s))"
| "offload_block ol ctx (ToolResultBlock i n raw (Some bs) st md) s =
     (let ((e, bs), s) = offload_list ol ctx bs s in ((e, ToolResultBlock i n raw (Some bs) st md), s))"
| "offload_block ol ctx b s = ((None, b), s)"
| "offload_list ol ctx [] s = ((None, []), s)"
| "offload_list ol ctx (bo # bs) s =
     (case ctx of
        Some e \<Rightarrow> ((Some e, bo # bs), s)
      | None \<Rightarrow>
          (case bo of
             None \<Rightarrow> (let ((e, bs), s) = offload_list ol ctx bs s in ((e, None # bs), s))
           | Some b \<Rightarrow>
               (case offload_block ol ctx b s of
                  ((Some e, b), s) \<Rightarrow> ((Some e, Some b # bs), s)
                | ((None, b), s) \<Rightarrow>
                    (let ((e, bs), s) = offload_list ol ctx bs s in ((e, Some b # bs), s)))))"

fun offload_messages :: "'o offloader \<Rightarrow> error option \<Rightarrow> message option list \<Rightarrow> 'o
    \<Rightarrow> (error option \<times> message option list) \<times> 'o" where
  "offload_messages ol ctx [] s = ((None, []), s)"
| "offload_messages ol ctx (None # ms) s =
     (let ((e, ms), s) = offload_messages ol ctx ms s in ((e, None # ms), s))"
| "offload_messages ol ctx (Some m # ms) s =
     (case offload_list ol ctx (Content m) s of
        ((Some e, bs), s) \<Rightarrow> ((Some e, Some (m\<lparr>Content := bs\<rparr>) # ms), s)
      | ((None, bs), s) \<Rightarrow>
          (let ((e, ms), s) = offload_messages ol ctx ms s
           in ((e, Some (m\<lparr>Content := bs\<rparr>) # ms), s)))"

definition offloadDataBlocks :: "'o offloader option \<Rightarrow> error option \<Rightarrow> agent_state \<Rightarrow> 'o
    \<Rightarrow> (error option \<times> agent_state) \<times> 'o" where
  "offloadDataBlocks olo ctx st s =
     (case olo of
        None \<Rightarrow> ((None, st), s)
      | Some ol \<Rightarrow>
          (case offload_messages ol ctx (Messages st) s of
             ((Some e, ms), s) \<Rightarrow> ((Some e, st\<lparr>Messages := ms\<rparr>), s)
           | ((None, ms), s) \<Rightarrow>
               (let st = st\<lparr>Messages := ms\<rparr> in
                if SummaryBlocks (Summary st) \<noteq> []
                then (let ((e, bs), s) = offload_list ol ctx (SummaryBlocks (Summary st)) s
                      in ((e, st\<lparr>Summary := (Summary st)\<lparr>SummaryBlocks := bs\<rparr>\<rparr>), s))
                else ((None, st), s))))"

text \<open>The tool results of a message, in place: offloaded when there is an offloader, else cut.\<close>

fun result_loop :: "'o offloader option \<Rightarrow> string \<Rightarrow> int \<Rightarrow> env \<Rightarrow> blocks \<Rightarrow> 'o
    \<Rightarrow> ((error option \<times> blocks) \<times> env \<times> 'o) go" where
  "result_loop olo sid limit w [] s = Ret ((None, []), w, s)"
| "result_loop olo sid limit w (bo # bs) s =
     (if \<not> has_type [''tool_result''] bo then
        go_bind (result_loop olo sid limit w bs s) (\<lambda>((e, bs), w, s). Ret ((e, bo # bs), w, s))
      else case olo of
        None \<Rightarrow>
          go_bind (result_loop olo sid limit w bs s)
            (\<lambda>((e, bs), w, s). Ret ((e, Some (truncateToolResult (the bo) limit) # bs), w, s))
      | Some ol \<Rightarrow>
          go_bind (offloadToolResult ol sid w (the bo) limit s) (\<lambda>(r, w, s).
            case r of
              Inl e \<Rightarrow> Ret ((Some e, bo # bs), w, s)
            | Inr b \<Rightarrow>
                go_bind (result_loop olo sid limit w bs s)
                  (\<lambda>((e, bs), w, s). Ret ((e, Some b # bs), w, s))))"

fun results_in_messages :: "'o offloader option \<Rightarrow> string \<Rightarrow> int \<Rightarrow> env \<Rightarrow> message option list \<Rightarrow> 'o
    \<Rightarrow> ((error option \<times> message option list) \<times> env \<times> 'o) go" where
  "results_in_messages olo sid limit w [] s = Ret ((None, []), w, s)"
| "results_in_messages olo sid limit w (None # ms) s =
     go_bind (results_in_messages olo sid limit w ms s) (\<lambda>((e, ms), w, s). Ret ((e, None # ms), w, s))"
| "results_in_messages olo sid limit w (Some m # ms) s =
     go_bind (result_loop olo sid limit w (Content m) s) (\<lambda>((e, bs), w, s).
       if e \<noteq> None then Ret ((e, Some (m\<lparr>Content := bs\<rparr>) # ms), w, s)
       else go_bind (results_in_messages olo sid limit w ms s)
              (\<lambda>((e, ms), w, s). Ret ((e, Some (m\<lparr>Content := bs\<rparr>) # ms), w, s)))"

definition compressToolResults :: "'o offloader option \<Rightarrow> error option \<Rightarrow> int \<Rightarrow> env \<Rightarrow> agent_state \<Rightarrow> 'o
    \<Rightarrow> ((error option \<times> agent_state) \<times> env \<times> 'o) go" where
  "compressToolResults olo ctx toolResultLimit w st s =
     (case offloadDataBlocks olo ctx st s of
        ((Some e, st), s) \<Rightarrow> Ret ((Some e, st), w, s)
      | ((None, st), s) \<Rightarrow>
          (let limit = (if toolResultLimit \<le> 0 then 50000 else toolResultLimit) in
           go_bind (results_in_messages olo (SessionID st) limit w (Messages st) s)
             (\<lambda>((e, ms), w, s). Ret ((e, st\<lparr>Messages := ms\<rparr>), w, s))))"

section \<open>Splitting the conversation\<close>

text \<open>
  Text a user sends is handed to the model as a JSON object that marks it as untrusted.
\<close>

definition wrapUntrustedUserText :: "string \<Rightarrow> string \<Rightarrow> string" where
  "wrapUntrustedUserText sender t =
     ''{'' @ json_string ''type'' @ '':'' @ json_string ''untrusted_user_text''
     @ (if sender \<noteq> [] then '','' @ json_string ''sender'' @ '':'' @ json_string sender else [])
     @ '','' @ json_string ''text'' @ '':'' @ json_string t @ ''}''"

fun wrap_block :: "string \<Rightarrow> block option \<Rightarrow> block option" where
  "wrap_block sender (Some (TextBlock t i)) = Some (TextBlock (wrapUntrustedUserText sender t) i)"
| "wrap_block sender bo = bo"

definition cloneMessageForModelInput :: "message \<Rightarrow> message go" where
  "cloneMessageForModelInput m =
     go_bind (message_Clone m) (\<lambda>c.
       Ret (if MsgRole c \<noteq> RoleUser then c
            else c\<lparr>Content := map (wrap_block (MsgName c)) (Content c)\<rparr>))"

fun cloneMessages :: "message option list \<Rightarrow> message option list go" where
  "cloneMessages [] = Ret []"
| "cloneMessages (None # ms) = go_bind (cloneMessages ms) (\<lambda>ms. Ret (None # ms))"
| "cloneMessages (Some m # ms) =
     go_bind (cloneMessageForModelInput m) (\<lambda>m.
       go_bind (cloneMessages ms) (\<lambda>ms. Ret (Some m # ms)))"

text \<open>The identifiers of the tool calls of some messages, and of the results of one.\<close>

definition call_ids :: "message option list \<Rightarrow> string list" where
  "call_ids ms = concat (map (\<lambda>mo. case mo of None \<Rightarrow> []
     | Some m \<Rightarrow> map (\<lambda>b. BlockID (the b)) (GetContentBlocks (Content m) [''tool_call''])) ms)"

definition result_ids :: "message option \<Rightarrow> string list" where
  "result_ids mo = (case mo of None \<Rightarrow> []
     | Some m \<Rightarrow> map (\<lambda>b. BlockID (the b)) (GetContentBlocks (Content m) [''tool_result'']))"

text \<open>
  \<open>firstUnpairedToolResultIndex\<close>: \<open>None\<close> for -1. The loop keeps the first index it finds.
\<close>

fun unpaired_loop :: "string list \<Rightarrow> message option list \<Rightarrow> nat \<Rightarrow> nat option" where
  "unpaired_loop reserved [] index = None"
| "unpaired_loop reserved (m # ms) index =
     (if list_ex (\<lambda>i. i \<notin> set reserved) (result_ids m) then Some index
      else unpaired_loop reserved ms (Suc index))"

definition firstUnpairedToolResultIndex :: "message option list \<Rightarrow> nat \<Rightarrow> nat option" where
  "firstUnpairedToolResultIndex ms reserveStart =
     unpaired_loop (call_ids (drop reserveStart ms)) (drop reserveStart ms) reserveStart"

text \<open>The loop that moves the boundary until no result is unpaired; it may never end.\<close>

partial_function (option) stable_boundary :: "message option list \<Rightarrow> nat \<Rightarrow> nat option" where
  "stable_boundary ms reserveStart =
     (case firstUnpairedToolResultIndex ms reserveStart of
        None \<Rightarrow> Some reserveStart
      | Some unpairedStart \<Rightarrow> stable_boundary ms unpairedStart)"

definition result_states :: "blocks \<Rightarrow> (string \<rightharpoonup> ToolResultState)" where
  "result_states bs = fold (\<lambda>bo m. case bo of
     Some (ToolResultBlock i n raw out st md) \<Rightarrow> m(i \<mapsto> st) | _ \<Rightarrow> m) bs Map.empty"

definition unresolved_state :: "ToolResultState \<Rightarrow> bool" where
  "unresolved_state st \<longleftrightarrow> st = ToolResultRunning \<or> st = ToolResultInterrupted"

definition unresolved_call :: "(string \<rightharpoonup> ToolResultState) \<Rightarrow> block option \<Rightarrow> bool" where
  "unresolved_call results bo =
     (case bo of
        Some (ToolCallBlock i n inp st rs x) \<Rightarrow>
          if st = ToolCallFinished then False
          else (case results i of None \<Rightarrow> True | Some rst \<Rightarrow> unresolved_state rst)
      | _ \<Rightarrow> False)"

definition hasUnresolvedToolWork :: "message option \<Rightarrow> bool" where
  "hasUnresolvedToolWork mo =
     (case mo of
        None \<Rightarrow> False
      | Some m \<Rightarrow>
          (let results = result_states (GetContentBlocks (Content m) [''tool_result''])
           in if list_ex (unresolved_call results) (GetContentBlocks (Content m) [''tool_call'']) then True
              else list_ex (\<lambda>i. case results i of None \<Rightarrow> False | Some st \<Rightarrow> unresolved_state st)
                     (result_ids mo)))"

fun first_index :: "('a \<Rightarrow> bool) \<Rightarrow> 'a list \<Rightarrow> nat \<Rightarrow> nat option" where
  "first_index p [] index = None"
| "first_index p (x # xs) index = (if p x then Some index else first_index p xs (Suc index))"

definition firstUnresolvedToolMessageIndex :: "message option list \<Rightarrow> nat option" where
  "firstUnresolvedToolMessageIndex ms = first_index hasUnresolvedToolWork ms 0"

text \<open>
  The scan from the end: the last message is always kept, and earlier ones while the token counts
  fit. \<open>i\<close> messages are still to be looked at; \<open>ctx i\<close> is the context's error at that check.
\<close>

fun reserve_scan :: "(message \<Rightarrow> error + int) \<Rightarrow> (nat \<Rightarrow> error option) \<Rightarrow> message option list \<Rightarrow> int
    \<Rightarrow> nat \<Rightarrow> int \<Rightarrow> nat \<Rightarrow> (error + nat) go" where
  "reserve_scan count ctx ms reserveLimit 0 used start = Ret (Inr start)"
| "reserve_scan count ctx ms reserveLimit (Suc i) used start =
     (case ctx i of
        Some e \<Rightarrow> Ret (Inl e)
      | None \<Rightarrow>
          (case ms ! i of
             None \<Rightarrow> reserve_scan count ctx ms reserveLimit i used i
           | Some m \<Rightarrow>
               go_bind (message_Clone m) (\<lambda>c.
                 case count c of
                   Inl e \<Rightarrow> Ret (Inl e)
                 | Inr n \<Rightarrow>
                     if Suc i = length ms then reserve_scan count ctx ms reserveLimit i (wrap64 (used + n)) i
                     else if reserveLimit > 0 \<and> wrap64 (used + n) \<le> reserveLimit
                     then reserve_scan count ctx ms reserveLimit i (wrap64 (used + n)) i
                     else Ret (Inr start))))"

text \<open>
  \<open>splitContextForSummary\<close>. Outside \<open>go\<close> for a panic, an option for not returning: \<open>None\<close>
  when the boundary loop runs forever.
\<close>

type_synonym messages = "message option list"

definition splitContextForSummary :: "(message \<Rightarrow> error + int) \<Rightarrow> (nat \<Rightarrow> error option) \<Rightarrow> messages \<Rightarrow> int
    \<Rightarrow> (error + messages \<times> messages) option go" where
  "splitContextForSummary count ctx ms reserveLimit =
     (if length ms \<le> 1 then go_bind (cloneMessages ms) (\<lambda>c. Ret (Some (Inr ([], c))))
      else
        go_bind (reserve_scan count ctx ms reserveLimit (length ms) 0 (length ms - 1)) (\<lambda>r.
          case r of
            Inl e \<Rightarrow> Ret (Some (Inl e))
          | Inr reserveStart \<Rightarrow>
              (let start = (case firstUnresolvedToolMessageIndex ms of
                              None \<Rightarrow> reserveStart
                            | Some u \<Rightarrow> if reserveStart > u then u else reserveStart)
               in case stable_boundary ms start of
                    None \<Rightarrow> Ret None
                  | Some start \<Rightarrow>
                      go_bind (cloneMessages (take start ms)) (\<lambda>a.
                        go_bind (cloneMessages (drop start ms)) (\<lambda>b. Ret (Some (Inr (a, b))))))))"


section \<open>Lemmas about the split\<close>

lemma unpaired_loop_Some:
  "unpaired_loop reserved ms index = Some i \<Longrightarrow>
     index \<le> i \<and> i < index + length ms \<and> (\<exists>r \<in> set (result_ids (ms ! (i - index))). r \<notin> set reserved)"
proof (induction ms arbitrary: index)
  case Nil
  then show ?case by simp
next
  case (Cons m ms)
  show ?case
  proof (cases "list_ex (\<lambda>i. i \<notin> set reserved) (result_ids m)")
    case True
    with Cons.prems show ?thesis by (auto simp: list_ex_iff)
  next
    case False
    then have "unpaired_loop reserved ms (Suc index) = Some i" using Cons.prems by simp
    from Cons.IH [OF this] show ?thesis by (auto simp: nth_Cons' Suc_diff_le)
  qed
qed

lemma unpaired_loop_None:
  "unpaired_loop reserved ms index = None \<longleftrightarrow> (\<forall>m \<in> set ms. set (result_ids m) \<subseteq> set reserved)"
  by (induction ms arbitrary: index) (auto simp: list_ex_iff)

lemma call_ids_drop: "s \<le> i \<Longrightarrow> set (call_ids (drop i ms)) \<subseteq> set (call_ids (drop s ms))"
  using set_drop_subset_set_drop [of s i ms] by (fastforce simp: call_ids_def)

text \<open>
  An unpaired result found at a boundary is still unpaired, and the first one, when the boundary
  moves to its message: the message with the result stays in the kept part and calls only leave it.
\<close>

lemma firstUnpaired_again:
  assumes "firstUnpairedToolResultIndex ms s = Some i"
  shows "firstUnpairedToolResultIndex ms i = Some i"
proof -
  from assms have i: "s \<le> i" "i < length ms"
    and r: "\<exists>r \<in> set (result_ids (ms ! i)). r \<notin> set (call_ids (drop s ms))"
    using unpaired_loop_Some [of "call_ids (drop s ms)" "drop s ms" s i]
    by (auto simp: firstUnpairedToolResultIndex_def)
  from i(2) have d: "drop i ms = ms ! i # drop (Suc i) ms" by (simp add: Cons_nth_drop_Suc)
  from r call_ids_drop [OF i(1)] have "\<exists>r \<in> set (result_ids (ms ! i)). r \<notin> set (call_ids (drop i ms))"
    by blast
  then have "list_ex (\<lambda>r. r \<notin> set (call_ids (drop i ms))) (result_ids (ms ! i))"
    by (simp add: list_ex_iff)
  then show ?thesis
    unfolding firstUnpairedToolResultIndex_def by (subst (2) d) simp
qed

lemma stable_boundary_returns:
  assumes "stable_boundary ms s = Some r"
  shows "firstUnpairedToolResultIndex ms s = None \<and> r = s"
proof (rule stable_boundary.raw_induct
    [where P = "\<lambda>ms s r. firstUnpairedToolResultIndex ms s = None \<and> r = s", OF _ assms])
  fix f ms s r
  assume IH: "\<And>ms s r. f ms s = Some r \<Longrightarrow> firstUnpairedToolResultIndex ms s = None \<and> r = s"
    and eq: "(case firstUnpairedToolResultIndex ms s of None \<Rightarrow> Some s | Some i \<Rightarrow> f ms i) = Some r"
  show "firstUnpairedToolResultIndex ms s = None \<and> r = s"
  proof (cases "firstUnpairedToolResultIndex ms s")
    case None
    with eq show ?thesis by simp
  next
    case (Some i)
    with eq IH have "firstUnpairedToolResultIndex ms i = None" by fastforce
    with firstUnpaired_again [OF Some] show ?thesis by simp
  qed
qed

text \<open>The loop returns exactly when there is nothing to do.\<close>

lemma stable_boundary_iff:
  "stable_boundary ms s = (if firstUnpairedToolResultIndex ms s = None then Some s else None)"
  using stable_boundary_returns [of ms s]
  by (cases "stable_boundary ms s") (auto simp: stable_boundary.simps [of ms s] split: option.splits)

definition paired_from :: "messages \<Rightarrow> nat \<Rightarrow> bool" where
  "paired_from ms s \<longleftrightarrow>
     (\<forall>m \<in> set (drop s ms). set (result_ids m) \<subseteq> set (call_ids (drop s ms)))"

lemma firstUnpaired_None: "firstUnpairedToolResultIndex ms s = None \<longleftrightarrow> paired_from ms s"
  by (simp add: firstUnpairedToolResultIndex_def unpaired_loop_None paired_from_def)

lemma first_index_Some:
  "first_index p xs k = Some i \<Longrightarrow> k \<le> i \<and> i < k + length xs \<and> (\<forall>j. k \<le> j \<longrightarrow> j < i \<longrightarrow> \<not> p (xs ! (j - k)))"
proof (induction xs arbitrary: k)
  case Nil
  then show ?case by simp
next
  case (Cons x xs)
  show ?case
  proof (cases "p x")
    case True
    with Cons.prems show ?thesis by auto
  next
    case False
    then have "first_index p xs (Suc k) = Some i" using Cons.prems by simp
    from Cons.IH [OF this] False show ?thesis
      by (auto simp: nth_Cons' Suc_diff_Suc)
  qed
qed

lemma first_index_None: "first_index p xs k = None \<longleftrightarrow> (\<forall>x \<in> set xs. \<not> p x)"
  by (induction xs arbitrary: k) auto

lemma reserve_scan_range:
  "reserve_scan count ctx ms limit i used start = Ret (Inr r) \<Longrightarrow> start < length ms \<Longrightarrow> i \<le> length ms \<Longrightarrow>
     r < length ms"
proof (induction i arbitrary: used start)
  case 0
  then show ?case by simp
next
  case (Suc i)
  from Suc.prems(3) have "i < length ms" by simp
  have ctx: "ctx i = None" using Suc.prems(1) by (cases "ctx i") auto
  show ?case
  proof (cases "ms ! i")
    case None
    with Suc ctx \<open>i < length ms\<close> show ?thesis by auto
  next
    case (Some m)
    with Suc.prems(1) ctx obtain c where c: "message_Clone m = Ret c"
      by (auto simp: go_bind_eq_Ret)
    obtain n where n: "count c = Inr n"
      using Suc.prems(1) ctx Some c by (cases "count c") auto
    show ?thesis
      using Suc.prems ctx Some c n Suc.IH \<open>i < length ms\<close> by (auto split: if_splits)
  qed
qed


section \<open>Lemmas about tool results\<close>

lemma all_text_cons: "all_text (bo # bs) = all_text [bo] @ all_text bs"
  using all_text_simps(2) [of "[bo]" bs] by simp

lemma all_text_walk [simp]:
  "all_text (None # bs) = all_text bs"
  "all_text (Some (TextBlock t i) # bs) = t @ all_text bs"
  "BlockType b \<noteq> ''text'' \<Longrightarrow> all_text (Some b # bs) = all_text bs"
  by (simp_all add: all_text_def) (cases b; simp add: all_text_def)

lemma text_block: "BlockType b = ''text'' \<Longrightarrow> \<exists>t i. b = TextBlock t i"
  by (cases b) auto

lemma NewTextBlockWith_id: "NewTextBlockWith w t [WithBlockID i] = (c, w') \<Longrightarrow> c = TextBlock t i"
  by (auto simp: NewTextBlockWith_def newID_def)

text \<open>Once offloading, the kept part stays, and every text goes to the offloaded part.\<close>

lemma split_blocks_offloading:
  "split_blocks limit w bs used True res off = Ret ((res', off'), w') \<Longrightarrow>
     res' = res \<and> all_text off' = all_text off @ all_text bs"
proof (induction bs arbitrary: off)
  case Nil
  then show ?case by (simp add: all_text_def)
next
  case (Cons bo bs)
  show ?case
  proof (cases bo)
    case None
    with Cons show ?thesis by simp
  next
    case (Some b)
    with Cons.prems obtain c where c: "clone_block b = Ret c"
        "split_blocks limit w bs used True res (off @ [Some c]) = Ret ((res', off'), w')"
      by (auto simp: go_bind_eq_Ret)
    from Cons.IH [OF c(2)] clone_identity(1) [OF c(1)] Some show ?thesis
      by (simp add: all_text_cons [of "Some b" bs])
  qed
qed

lemma split_blocks_text:
  "split_blocks limit w bs used False res [] = Ret ((res', off'), w') \<Longrightarrow>
     used = int (length (all_text res)) \<Longrightarrow> used \<le> limit \<Longrightarrow>
     all_text res' @ all_text off' = all_text res @ all_text bs \<and> int (length (all_text res')) \<le> limit"
proof (induction bs arbitrary: w used res)
  case Nil
  then show ?case by (auto simp: all_text_def)
next
  case (Cons bo bs)
  show ?case
  proof (cases "bo = None \<or> (\<exists>b. bo = Some b \<and> BlockType b \<noteq> ''text'')")
    case True
    then show ?thesis
    proof
      assume "bo = None"
      with Cons show ?thesis by simp
    next
      assume "\<exists>b. bo = Some b \<and> BlockType b \<noteq> ''text''"
      then obtain b where b: "bo = Some b" "BlockType b \<noteq> ''text''" by blast
      with Cons.prems(1) obtain c where c: "clone_block b = Ret c"
          "split_blocks limit w bs used False (res @ [Some c]) [] = Ret ((res', off'), w')"
        by (cases b) (auto simp: go_bind_eq_Ret)
      from clone_identity(1) [OF c(1)] have "all_text (res @ [Some c]) = all_text res" using b by simp
      with Cons.IH [OF c(2)] Cons.prems(2,3) b show ?thesis
        by (simp add: all_text_cons [of "Some b" bs])
    qed
  next
    case False
    then obtain t i where b: "bo = Some (TextBlock t i)"
      by (cases bo) (auto dest: text_block)
    consider "limit - used \<le> 0" | "limit - used > 0" "int (length t) \<le> limit - used"
      | "limit - used > 0" "int (length t) > limit - used" by linarith
    then show ?thesis
    proof cases
      case 1
      with Cons.prems(1) b have "split_blocks limit w bs used True res [Some (TextBlock t i)] = Ret ((res', off'), w')"
        by (simp add: Let_def)
      from split_blocks_offloading [OF this] Cons.prems b show ?thesis
        by simp
    next
      case 2
      with Cons.prems(1) b have
          "split_blocks limit w bs (used + int (length t)) False (res @ [Some (TextBlock t i)]) [] = Ret ((res', off'), w')"
        by (simp add: Let_def)
      from Cons.IH [OF this] Cons.prems 2 b show ?thesis
        by simp
    next
      case 3
      obtain h tl where ht: "splitUTF8 t (limit - used) = (h, tl)" by (cases "splitUTF8 t (limit - used)")
      have h: "h @ tl = t" "int (length h) \<le> limit - used"
        using splitUTF8_append [OF ht] splitUTF8_le [OF _ ht] 3 by simp_all
      define r where "r = (if h \<noteq> [] then res @ [Some (TextBlock h i)] else res)"
      define f where "f = (if tl \<noteq> [] then [Some (TextBlock tl i)] else [])"
      from Cons.prems(1) b 3 ht obtain w1 where
          "split_blocks limit w1 bs used True r f = Ret ((res', off'), w')"
        by (auto simp: Let_def r_def f_def NewTextBlockWith_def newID_def split: if_splits)
      from split_blocks_offloading [OF this] Cons.prems(2,3) h b show ?thesis
        by (auto simp: r_def f_def simp flip: h(1))
    qed
  qed
qed


section \<open>Properties\<close>

definition result_text :: "block \<Rightarrow> string" where
  "result_text r =
     (case r of ToolResultBlock i n raw bs st md \<Rightarrow> if raw \<noteq> [] then raw else all_text (out_blocks bs)
      | _ \<Rightarrow> [])"

text \<open>C40: When a tool result is split for offloading, the text kept in the conversation followed by
  the text handed to the offloader is exactly the text of the result, and the kept part stays within
  the limit; both parts keep the identifier and the name of the result.\<close>

theorem offload_split_loses_no_text:
  assumes "splitToolResult w r limit = Ret ((kept, Some off, True), w')"
  shows "result_text kept @ result_text off = result_text r
    \<and> int (length (result_text kept)) \<le> limit
    \<and> BlockID kept = BlockID r \<and> BlockID off = BlockID r"
proof -
  obtain i n raw bs st md where r: "r = ToolResultBlock i n raw bs st md"
    using assms by (cases r) (auto simp: splitToolResult_def)
  have limit: "0 < limit" using assms by (auto simp: r splitToolResult_def split: if_splits)
  show ?thesis
  proof (cases "raw = []")
    case False
    obtain h t where ht: "splitUTF8 raw limit = (h, t)" by (cases "splitUTF8 raw limit")
    have long: "\<not> int (length raw) \<le> limit"
        and parts: "kept = NewToolResultBlock i n h None [st]" "off = NewToolResultBlock i n t None [st]"
      using assms limit False ht by (auto simp: r splitToolResult_def split: if_splits)
    have "h @ t = raw" "int (length h) \<le> limit"
      using splitUTF8_append [OF ht] splitUTF8_le [OF _ ht] limit by simp_all
    moreover from this long have "t \<noteq> []" by auto
    ultimately show ?thesis
      using False by (auto simp: r parts result_text_def NewToolResultBlock_def out_blocks_def all_text_def)
  next
    case True
    then obtain res of' where s: "split_blocks limit w (out_blocks bs) 0 False [] [] = Ret ((res, of'), w')"
        and parts: "kept = NewToolResultBlock i n [] (Some res) [st]" "off = NewToolResultBlock i n [] (Some of') [st]"
      using assms limit by (auto simp: r splitToolResult_def go_bind_eq_Ret split: if_splits)
    from split_blocks_text [OF s] limit True show ?thesis
      by (simp add: r parts result_text_def NewToolResultBlock_def out_blocks_def)
  qed
qed

theorem offload_split_loses_no_text_witness:
  "result_text (NewToolResultBlock ''c1'' ''Bash'' ''ab'' None [ToolResultSuccess])
     @ result_text (NewToolResultBlock ''c1'' ''Bash'' ''cd'' None [ToolResultSuccess]) = ''abcd''"
proof -
  have l: "trunc_loop 2 0 0 ''abcd'' = 2"
    by (simp add: trunc_loop.simps rune_size_def decode_lead_def RuneLen_def)
  have "splitToolResult w (ToolResultBlock ''c1'' ''Bash'' ''abcd'' None ToolResultSuccess None) 2 =
      Ret ((NewToolResultBlock ''c1'' ''Bash'' ''ab'' None [ToolResultSuccess],
        Some (NewToolResultBlock ''c1'' ''Bash'' ''cd'' None [ToolResultSuccess]), True), w)" for w
    by (simp add: splitToolResult_def splitUTF8_def truncateUTF8_def l)
  from offload_split_loses_no_text [OF this] show ?thesis by (simp add: result_text_def)
qed

lemma summary_boundary_loop:
  "stable_boundary ms start = (if paired_from ms start then Some start else None)"
  by (simp add: stable_boundary_iff firstUnpaired_None)

text \<open>C36: The loop that should move the summary boundary until no kept tool result has lost its
  call never settles on another place: it returns its start when every kept result already has its
  call among the kept messages, and runs forever otherwise.\<close>

theorem summary_boundary_loop_returns_iff_paired:
  "stable_boundary ms start = (if paired_from ms start then Some start else None)"
  by (rule summary_boundary_loop)

lemma split_of_messages_full:
  assumes "splitContextForSummary count ctx ms limit = Ret (Some (Inr (a, b)))"
    and "1 < length ms"
  shows "\<exists>k < length ms. cloneMessages (take k ms) = Ret a \<and> cloneMessages (drop k ms) = Ret b
    \<and> paired_from ms k \<and> (\<forall>i < k. \<not> hasUnresolvedToolWork (ms ! i))"
proof -
  from assms obtain x where x: "reserve_scan count ctx ms limit (length ms) 0 (length ms - 1) = Ret x"
    by (auto simp: splitContextForSummary_def go_bind_eq_Ret)
  then obtain r where r: "reserve_scan count ctx ms limit (length ms) 0 (length ms - 1) = Ret (Inr r)"
    using assms by (cases x) (auto simp: splitContextForSummary_def)
  have "r < length ms" using reserve_scan_range [OF r] assms(2) by simp
  define k where "k = (case firstUnresolvedToolMessageIndex ms of
      None \<Rightarrow> r | Some u \<Rightarrow> if r > u then u else r)"
  have "k < length ms" using \<open>r < length ms\<close> by (auto simp: k_def split: option.splits)
  moreover have "\<forall>i < k. \<not> hasUnresolvedToolWork (ms ! i)"
  proof (cases "firstUnresolvedToolMessageIndex ms")
    case None
    then show ?thesis
      using \<open>k < length ms\<close> by (auto simp: firstUnresolvedToolMessageIndex_def first_index_None)
  next
    case (Some u)
    then show ?thesis
      using first_index_Some [of hasUnresolvedToolWork ms 0 u]
      by (auto simp: firstUnresolvedToolMessageIndex_def k_def split: if_splits)
  qed
  moreover have "paired_from ms k \<and> cloneMessages (take k ms) = Ret a \<and> cloneMessages (drop k ms) = Ret b"
    using assms r
    by (auto simp: splitContextForSummary_def k_def [symmetric] summary_boundary_loop go_bind_eq_Ret
        split: if_splits)
  ultimately show ?thesis by blast
qed

lemma split_of_messages:
  "splitContextForSummary count ctx ms limit = Ret (Some (Inr (a, b))) \<Longrightarrow> 1 < length ms
    \<Longrightarrow> \<exists>k < length ms. cloneMessages (drop k ms) = Ret b"
  using split_of_messages_full by blast

text \<open>C37: A split of a conversation of several messages that returns cuts it at or before its
  last message: the first part goes to the summary and the rest is kept, each message cloned for the
  model. Every tool result kept has its call among the kept messages, and no message with
  unresolved tool work is summarised away.\<close>

theorem summary_split_keeps_tool_work:
  assumes "splitContextForSummary count ctx ms limit = Ret (Some (Inr (a, b)))"
    and "1 < length ms"
  shows "\<exists>k < length ms. cloneMessages (take k ms) = Ret a \<and> cloneMessages (drop k ms) = Ret b
    \<and> paired_from ms k \<and> (\<forall>i < k. \<not> hasUnresolvedToolWork (ms ! i))"
  using assms by (rule split_of_messages_full)

text \<open>A conversation in which a call and its result are in different messages.\<close>

definition assistant_message :: "string \<Rightarrow> block list \<Rightarrow> message" where
  "assistant_message i bs = \<lparr>MsgName = ''Friday'', Content = map Some bs, MsgRole = RoleAssistant,
     MsgID = i, Metadata = None, CreatedAt = [], FinishedAt = None, Usage = None\<rparr>"

definition sample_conversation :: messages where
  "sample_conversation =
     [Some (assistant_message ''m1'' [ToolCallBlock ''c1'' ''Bash'' ''{}'' ToolCallFinished [] None]),
      Some (assistant_message ''m2'' [ToolResultBlock ''c1'' ''Bash'' ''ok'' None ToolResultSuccess None]),
      Some (assistant_message ''m3'' [TextBlock ''done'' ''t1''])]"

lemma sample_scan:
  "reserve_scan (\<lambda>m. Inr 1) (\<lambda>i. None) sample_conversation limit 3 0 2
     = Ret (Inr (if limit \<ge> 3 then 0 else if limit = 2 then 1 else 2))"
  by (simp add: sample_conversation_def assistant_message_def message_Clone_def cloneContent_def
      wrap64_id eval_nat_numeral)

lemma sample_split:
  "splitContextForSummary (\<lambda>m. Inr 1) (\<lambda>i. None) sample_conversation 1
     = Ret (Some (Inr (take 2 sample_conversation, drop 2 sample_conversation)))"
  "splitContextForSummary (\<lambda>m. Inr 1) (\<lambda>i. None) sample_conversation 2 = Ret None"
proof -
  have u: "firstUnresolvedToolMessageIndex sample_conversation = None"
    by (simp add: firstUnresolvedToolMessageIndex_def sample_conversation_def assistant_message_def
        hasUnresolvedToolWork_def GetContentBlocks_def result_states_def unresolved_call_def
        unresolved_state_def result_ids_def Let_def)
  have n: "length sample_conversation = 3" by (simp add: sample_conversation_def)
  have p: "paired_from sample_conversation 2" "\<not> paired_from sample_conversation (Suc 0)"
    by (simp_all add: paired_from_def sample_conversation_def assistant_message_def result_ids_def
        call_ids_def GetContentBlocks_def)
  have c: "cloneMessages (take 2 sample_conversation) = Ret (take 2 sample_conversation)"
      "cloneMessages (drop 2 sample_conversation) = Ret (drop 2 sample_conversation)"
    by (simp_all add: sample_conversation_def assistant_message_def cloneMessageForModelInput_def
        message_Clone_def cloneContent_def)
  show "splitContextForSummary (\<lambda>m. Inr 1) (\<lambda>i. None) sample_conversation 1
     = Ret (Some (Inr (take 2 sample_conversation, drop 2 sample_conversation)))"
    using sample_scan [of 1] by (simp add: splitContextForSummary_def u n summary_boundary_loop p c)
  show "splitContextForSummary (\<lambda>m. Inr 1) (\<lambda>i. None) sample_conversation 2 = Ret None"
    using sample_scan [of 2] by (simp add: splitContextForSummary_def u n summary_boundary_loop p)
qed

theorem summary_split_keeps_tool_work_witness:
  "\<exists>k < 3. cloneMessages (drop k sample_conversation) = Ret (drop 2 sample_conversation)
    \<and> paired_from sample_conversation k"
proof -
  have "length sample_conversation = 3" by (simp add: sample_conversation_def)
  with summary_split_keeps_tool_work [OF sample_split(1)] show ?thesis by auto
qed

end
