(* ===== verification/Agent_Summary.thy ===== *)
theory Agent_Summary
  imports Agent_Context
begin

text \<open>
  The summary and threshold strategies of the agent's context management
  (\<open>pkg/agent/context_strategy.go\<close>): the request a model call would send, the summary call and
  the replacement of the conversation by its kept part, and the warning, compact and blocking
  thresholds with the status they record.

  What a pass reads from outside is in the record \<open>strategy_input\<close>: the configuration, the model,
  the offloader, the system prompt after its hooks and the tool schemas (both computed by the
  agent's parameters), \<open>int(float64(MaxTokens) * ratio)\<close>, and \<open>json.Unmarshal\<close>/
  \<open>json.Marshal\<close>. The world a pass changes is the identifier supply, the model's and the
  offloader's own state, and where the message being written is. A result \<open>Ret None\<close> means that the pass does not return.
\<close>

section \<open>Inputs\<close>

record context_config =
  TriggerRatio :: rat
  ReserveRatio :: rat
  MaxTokens :: int
  CompressionPrompt :: string
  SummaryTemplate :: string
  SummarySchema :: "gmap option"
  ToolResultLimit :: int

record ('m, 'o) strategy_input =
  Model :: "'m chat_model"
  Offloader :: "'o offloader option"
  Config :: context_config
  SystemPrompt :: "error + string"
  Schemas :: "error + tool_schema list"
  CtxAt :: "nat \<Rightarrow> error option"
  ParseObject :: "string \<Rightarrow> gmap option"
  MarshalSchema :: "gmap option \<Rightarrow> string option"

record ('m, 'o) pass_world =
  Supply :: env
  ModelSt :: 'm
  OffSt :: 'o
  RunningAt :: "nat option"
  Running :: "message option"

text \<open>
  The reply loop holds a pointer to the assistant message it is writing. \<open>RunningAt\<close> is the place
  of that message in the conversation, while it is there; \<open>Running\<close> is the message once the
  conversation was replaced and only the loop's pointer still reaches it.
\<close>

definition detach :: "agent_state \<Rightarrow> ('m, 'o) pass_world \<Rightarrow> ('m, 'o) pass_world" where
  "detach st w =
     (case RunningAt w of
        None \<Rightarrow> w
      | Some k \<Rightarrow> w\<lparr>RunningAt := None,
                    Running := (if k < length (Messages st) then Messages st ! k else None)\<rparr>)"

text \<open>Sequencing of computations that may panic or not return.\<close>

definition div_bind :: "'a option go \<Rightarrow> ('a \<Rightarrow> 'b option go) \<Rightarrow> 'b option go" where
  "div_bind r f = go_bind r (\<lambda>x. case x of None \<Rightarrow> Ret None | Some y \<Rightarrow> f y)"

definition returns :: "'a go \<Rightarrow> 'a option go" where
  "returns r = go_bind r (\<lambda>x. Ret (Some x))"

lemma div_bind_eq: "div_bind r f = Ret (Some y) \<longleftrightarrow> (\<exists>x. r = Ret (Some x) \<and> f x = Ret (Some y))"
  by (auto simp: div_bind_def go_bind_eq_Ret split: option.splits)

lemma returns_eq: "returns r = Ret (Some y) \<longleftrightarrow> r = Ret y"
  by (cases r) (auto simp: returns_def)

text \<open>
  \<open>int(float64(MaxTokens) * ratio)\<close>: the conversion truncates. The product is taken exactly; the
  limits the code compares are whole token counts.
\<close>

definition ratio_tokens :: "int \<Rightarrow> rat \<Rightarrow> int" where
  "ratio_tokens n r = \<lfloor>of_int n * r\<rfloor>"

fun ApplySystemPromptHooks :: "string \<Rightarrow> (string \<Rightarrow> error + string) list \<Rightarrow> error + string" where
  "ApplySystemPromptHooks current [] = Inr current"
| "ApplySystemPromptHooks current (hook # hooks) =
     (case hook current of Inl e \<Rightarrow> Inl e | Inr nxt \<Rightarrow> ApplySystemPromptHooks nxt hooks)"

definition config_Validate :: "context_config \<Rightarrow> error option" where
  "config_Validate c =
     (if TriggerRatio c \<le> 0 \<or> TriggerRatio c \<ge> 9 / 10
      then Some (Err ''agentscope: trigger ratio must be > 0 and < 0.9'')
      else if ReserveRatio c \<le> 0 \<or> ReserveRatio c \<ge> 9 / 10
      then Some (Err ''agentscope: reserve ratio must be > 0 and < 0.9'')
      else if ReserveRatio c \<ge> TriggerRatio c
      then Some (Err ''agentscope: reserve ratio must be smaller than trigger ratio'')
      else if MaxTokens c < 0 then Some (Err ''agentscope: max tokens must be non-negative'')
      else if ToolResultLimit c \<le> 0 then Some (Err ''agentscope: tool result limit must be positive'')
      else None)"

section \<open>The request of a model call\<close>

definition user_message :: "env \<Rightarrow> content_arg \<Rightarrow> (message option \<times> env) go" where
  "user_message w c =
     go_bind (NewUserMessage w ''user'' c []) (\<lambda>(r, w).
       Ret (case r of Inl e \<Rightarrow> None | Inr m \<Rightarrow> Some m, w))"

definition summaryMessageFromState :: "env \<Rightarrow> agent_state option \<Rightarrow> (message option \<times> env) go" where
  "summaryMessageFromState w so =
     (case so of
        None \<Rightarrow> Ret (None, w)
      | Some st \<Rightarrow>
          if SummaryText (Summary st) \<noteq> [] then user_message w (ContentText (SummaryText (Summary st)))
          else if SummaryBlocks (Summary st) \<noteq> []
          then user_message w (ContentBlocks (SummaryBlocks (Summary st)))
          else Ret (None, w))"

fun model_messages :: "message option list \<Rightarrow> message option list go" where
  "model_messages [] = Ret []"
| "model_messages (None # ms) = model_messages ms"
| "model_messages (Some m # ms) =
     go_bind (cloneMessageForModelInput m) (\<lambda>m. go_bind (model_messages ms) (\<lambda>ms. Ret (Some m # ms)))"

definition plain_request :: "message option list \<Rightarrow> tool_schema list \<Rightarrow> call_request" where
  "plain_request ms tools = \<lparr>ReqMessages = ms, ReqTools = tools, ReqToolChoice = None, ReqStream = False,
     ReqMetadata = None, ReqParameters = None\<rparr>"

text \<open>The leading messages of every request: the system prompt, and the summary when there is one.\<close>

definition prompt_messages :: "env \<Rightarrow> error + string \<Rightarrow> agent_state \<Rightarrow> ((error + message option list) \<times> env) go" where
  "prompt_messages w prompt st =
     (case prompt of
        Inl e \<Rightarrow> Ret (Inl e, w)
      | Inr p \<Rightarrow>
          go_bind (NewSystemMessage w ''system'' (ContentText p) []) (\<lambda>(r, w).
            case r of
              Inl e \<Rightarrow> Ret (Inl e, w)
            | Inr sys \<Rightarrow>
                go_bind (summaryMessageFromState w (Some st)) (\<lambda>(s, w).
                  Ret (Inr (Some sys # (case s of None \<Rightarrow> [] | Some m \<Rightarrow> [Some m])), w))))"

definition CurrentModelRequest :: "('m, 'o) strategy_input \<Rightarrow> env \<Rightarrow> agent_state
    \<Rightarrow> ((error + call_request) \<times> env) go" where
  "CurrentModelRequest i w st =
     go_bind (prompt_messages w (SystemPrompt i) st) (\<lambda>(r, w).
       case r of
         Inl e \<Rightarrow> Ret (Inl e, w)
       | Inr front \<Rightarrow>
           go_bind (model_messages (Messages st)) (\<lambda>ms.
             case Schemas i of
               Inl e \<Rightarrow> Ret (Inl e, w)
             | Inr tools \<Rightarrow> Ret (Inr (plain_request (front @ ms) tools), w)))"

definition currentContextTokens :: "('m, 'o) strategy_input \<Rightarrow> env \<Rightarrow> agent_state
    \<Rightarrow> ((error + int \<times> int) \<times> env) go" where
  "currentContextTokens i w st =
     go_bind (CurrentModelRequest i w st) (\<lambda>(r, w).
       case r of
         Inl e \<Rightarrow> Ret (Inl e, w)
       | Inr req \<Rightarrow>
           (case CountTokens (Model i) req of
              Inl e \<Rightarrow> Ret (Inl e, w)
            | Inr used \<Rightarrow> Ret (Inr (used, wrap64 (MaxTokens (Config i) - used)), w)))"

section \<open>The summary\<close>

definition stripJSONFence :: "string \<Rightarrow> string" where
  "stripJSONFence t =
     (let fence = [CHR 0x60, CHR 0x60, CHR 0x60] in
      if \<not> HasPrefix t fence then t
      else TrimSpace (TrimSuffix (TrimPrefix (TrimPrefix t (fence @ ''json'')) fence) fence))"

text \<open>\<open>strings.ReplaceAll\<close> with a nonempty old text.\<close>

function ReplaceAll :: "string \<Rightarrow> string \<Rightarrow> string \<Rightarrow> string" where
  "ReplaceAll s old new =
     (if s = [] \<or> old = [] then s
      else if HasPrefix s old then new @ ReplaceAll (drop (length old) s) old new
      else hd s # ReplaceAll (tl s) old new)"
  by pat_completeness auto
termination
  by (relation "measure (\<lambda>(s, old, new). length s)") auto

declare ReplaceAll.simps [simp del]

text \<open>The map is walked in the order the runtime chooses, here the order of the list.\<close>

definition applySummaryTemplate :: "string \<Rightarrow> gmap \<Rightarrow> string" where
  "applySummaryTemplate template values =
     fold (\<lambda>(key, val) out. ReplaceAll out (''{'' @ key @ ''}'') (Sprint val)) values template"

definition summaryTextFromRaw :: "(string \<Rightarrow> gmap option) \<Rightarrow> string \<Rightarrow> string \<Rightarrow> string" where
  "summaryTextFromRaw parse raw template =
     (let raw = stripJSONFence raw in
      case parse raw of
        None \<Rightarrow> raw
      | Some values \<Rightarrow> if values = [] then raw else applySummaryTemplate template values)"

fun summary_call_text :: "blocks \<Rightarrow> string option" where
  "summary_call_text [] = None"
| "summary_call_text (Some (ToolCallBlock i n inp st rs x) # bs) =
     (if n \<noteq> ''generate_structured_output'' \<or> TrimSpace inp = [] then summary_call_text bs
      else Some (TrimSpace inp))"
| "summary_call_text (b # bs) = summary_call_text bs"

definition summaryTextFromResponse :: "(string \<Rightarrow> gmap option) \<Rightarrow> chat_response option \<Rightarrow> string \<Rightarrow> error + string" where
  "summaryTextFromResponse parse ro template =
     (case ro of
        None \<Rightarrow> Inl (Err ''agentscope: summary compression returned nil response'')
      | Some r \<Rightarrow>
          (case GetTextContent (RespContent r) [[]] of
             Some t \<Rightarrow>
               if TrimSpace t \<noteq> [] then Inr (summaryTextFromRaw parse (TrimSpace t) template)
               else (case summary_call_text (RespContent r) of
                       Some raw \<Rightarrow> Inr (summaryTextFromRaw parse raw template)
                     | None \<Rightarrow> Inl (Err ''agentscope: summary compression returned empty response''))
           | None \<Rightarrow>
               (case summary_call_text (RespContent r) of
                  Some raw \<Rightarrow> Inr (summaryTextFromRaw parse raw template)
                | None \<Rightarrow> Inl (Err ''agentscope: summary compression returned empty response''))))"

definition summaryToolSchema :: "gmap option \<Rightarrow> tool_schema" where
  "summaryToolSchema schema =
     \<lparr>SchemaName = ''generate_structured_output'',
      SchemaDescription = Some ''Generate the structured context summary requested by the user.'',
      SchemaParameters = (case CloneAnyMap schema of None \<Rightarrow> [] | Some m \<Rightarrow> m)\<rparr>"

definition buildSummaryRequest :: "('m, 'o) strategy_input \<Rightarrow> env \<Rightarrow> agent_state \<Rightarrow> message option list
    \<Rightarrow> ((error + call_request) \<times> env) go" where
  "buildSummaryRequest i w st toCompress =
     go_bind (prompt_messages w (SystemPrompt i) st) (\<lambda>(r, w).
       case r of
         Inl e \<Rightarrow> Ret (Inl e, w)
       | Inr front \<Rightarrow>
           go_bind (cloneMessages toCompress) (\<lambda>old.
             let schema = SummarySchema (Config i);
                 prompt = CompressionPrompt (Config i) @ [CHR 0x0A, CHR 0x0A]
                   @ ''Call generate_structured_output with a JSON object matching this schema:'' @ [CHR 0x0A]
                   @ (case MarshalSchema i schema of None \<Rightarrow> ''{}'' | Some s \<Rightarrow> s)
             in go_bind (NewUserMessage w ''user'' (ContentText prompt) []) (\<lambda>(r, w).
                  case r of
                    Inl e \<Rightarrow> Ret (Inl e, w)
                  | Inr m \<Rightarrow>
                      Ret (Inr ((plain_request (front @ old @ [Some m]) [summaryToolSchema schema])
                             \<lparr>ReqMetadata := Some [(''agentscope.context_strategy'', VStr ''summary'')]\<rparr>), w))))"

text \<open>The paths of the \<open>Read\<close> calls in the kept messages, each once.\<close>

fun read_path :: "(string \<Rightarrow> gmap option) \<Rightarrow> block option \<Rightarrow> string option" where
  "read_path parse (Some (ToolCallBlock i n inp st rs x)) =
     (if n \<noteq> ''Read'' then None
      else case parse inp of
        None \<Rightarrow> None
      | Some m \<Rightarrow> (case map_of m ''file_path'' of
          Some (VStr p) \<Rightarrow> if p = [] then None else Some p
        | _ \<Rightarrow> None))"
| "read_path parse bo = None"

definition readFilePathsFromMessages :: "(string \<Rightarrow> gmap option) \<Rightarrow> message option list \<Rightarrow> string list" where
  "readFilePathsFromMessages parse ms =
     fold (\<lambda>mo paths. case mo of
         None \<Rightarrow> paths
       | Some m \<Rightarrow>
           fold (\<lambda>bo paths. case read_path parse bo of
                   None \<Rightarrow> paths
                 | Some p \<Rightarrow> if p \<in> set paths then paths else paths @ [p])
             (GetContentBlocks (Content m) [''tool_call'']) paths) ms []"

definition offload_note :: "string \<Rightarrow> string" where
  "offload_note path =
     [CHR 0x0A] @ ''<system-reminder>The compressed context is offloaded to '' @ [CHR 0x27] @ path
     @ [CHR 0x27] @ '', you can refer to it when needed.</system-reminder>''"

definition offload_summary :: "('m, 'o) strategy_input \<Rightarrow> ('m, 'o) pass_world \<Rightarrow> agent_state
    \<Rightarrow> message option list \<Rightarrow> string \<Rightarrow> (error + string) \<times> ('m, 'o) pass_world" where
  "offload_summary i w st toCompress t =
     (case Offloader i of
        None \<Rightarrow> (Inr t, w)
      | Some ol \<Rightarrow>
          (let (p, os) = OffloadContext ol (SessionID st) toCompress (OffSt w)
           in (case p of Inl e \<Rightarrow> Inl e | Inr path \<Rightarrow> Inr (t @ offload_note path), w\<lparr>OffSt := os\<rparr>)))"

definition store_summary :: "(string \<Rightarrow> gmap option) \<Rightarrow> agent_state \<Rightarrow> message option list \<Rightarrow> string \<Rightarrow> agent_state" where
  "store_summary parse st toReserve t =
     st\<lparr>Summary := \<lparr>SummaryText = t, SummaryBlocks = []\<rparr>,
        ToolContext := CleanFileCache (ToolContext st) (readFilePathsFromMessages parse toReserve),
        Messages := toReserve\<rparr>"

definition finish_summary :: "('m, 'o) strategy_input \<Rightarrow> ('m, 'o) pass_world \<Rightarrow> agent_state
    \<Rightarrow> message option list \<Rightarrow> message option list \<Rightarrow> (error + chat_response option)
    \<Rightarrow> (error option \<times> agent_state) \<times> ('m, 'o) pass_world" where
  "finish_summary i w st toCompress toReserve resp =
     (case (case resp of Inl e \<Rightarrow> Inl e | Inr response \<Rightarrow>
             summaryTextFromResponse (ParseObject i) response (SummaryTemplate (Config i))) of
        Inl e \<Rightarrow> ((Some e, st), w)
      | Inr t \<Rightarrow>
          (case offload_summary i w st toCompress t of
             (Inl e, w) \<Rightarrow> ((Some e, st), w)
           | (Inr t, w) \<Rightarrow> ((None, store_summary (ParseObject i) st toReserve t), detach st w)))"

definition executeSummary :: "('m, 'o) strategy_input \<Rightarrow> ('m, 'o) pass_world \<Rightarrow> agent_state
    \<Rightarrow> message option list \<Rightarrow> message option list
    \<Rightarrow> ((error option \<times> agent_state) \<times> ('m, 'o) pass_world) go" where
  "executeSummary i w st toCompress toReserve =
     go_bind (buildSummaryRequest i (Supply w) st toCompress) (\<lambda>(r, supply).
       let w = w\<lparr>Supply := supply\<rparr> in
       case r of
         Inl e \<Rightarrow> Ret ((Some e, st), w)
       | Inr req \<Rightarrow>
           (let (resp, ms) = ModelCall (Model i) req (ModelSt w)
            in Ret (finish_summary i (w\<lparr>ModelSt := ms\<rparr>) st toCompress toReserve resp)))"

definition summaryPreconditionsMet :: "('m, 'o) strategy_input \<Rightarrow> agent_state \<Rightarrow> bool" where
  "summaryPreconditionsMet i st \<longleftrightarrow> MaxTokens (Config i) > 0 \<and> length (Messages st) > 1"

definition message_count :: "('m, 'o) strategy_input \<Rightarrow> tool_schema list \<Rightarrow> message \<Rightarrow> error + int" where
  "message_count i tools m = CountTokens (Model i) (plain_request [Some m] tools)"

text \<open>The first result says whether the conversation was summarised.\<close>

definition compactContextWithSummary :: "('m, 'o) strategy_input \<Rightarrow> ('m, 'o) pass_world \<Rightarrow> agent_state
    \<Rightarrow> ((bool \<times> error option \<times> agent_state) \<times> ('m, 'o) pass_world) option go" where
  "compactContextWithSummary i w st =
     (if \<not> summaryPreconditionsMet i st then Ret (Some ((False, None, st), w))
      else case Schemas i of
        Inl e \<Rightarrow> Ret (Some ((False, Some e, st), w))
      | Inr tools \<Rightarrow>
          div_bind (splitContextForSummary (message_count i tools) (CtxAt i) (Messages st)
                      (ratio_tokens (MaxTokens (Config i)) (ReserveRatio (Config i)))) (\<lambda>r.
            case r of
              Inl e \<Rightarrow> Ret (Some ((False, Some e, st), w))
            | Inr (toCompress, toReserve) \<Rightarrow>
                if toCompress = [] then Ret (Some ((False, None, st), w))
                else returns (go_bind (executeSummary i w st toCompress toReserve)
                       (\<lambda>((e, st), w). Ret ((True, e, st), w)))))"

definition isSummaryNeeded :: "('m, 'o) strategy_input \<Rightarrow> env \<Rightarrow> agent_state \<Rightarrow> ((error + bool) \<times> env) go" where
  "isSummaryNeeded i w st =
     go_bind (CurrentModelRequest i w st) (\<lambda>(r, w).
       case r of
         Inl e \<Rightarrow> Ret (Inl e, w)
       | Inr req \<Rightarrow>
           (case CountTokens (Model i) req of
              Inl e \<Rightarrow> Ret (Inl e, w)
            | Inr used \<Rightarrow>
                (let threshold = ratio_tokens (MaxTokens (Config i)) (TriggerRatio (Config i))
                 in Ret (Inr (\<not> (threshold \<le> 0 \<or> used < threshold)), w))))"

definition summary_Apply :: "('m, 'o) strategy_input \<Rightarrow> ('m, 'o) pass_world \<Rightarrow> agent_state
    \<Rightarrow> ((error option \<times> agent_state) \<times> ('m, 'o) pass_world) option go" where
  "summary_Apply i w st =
     (if \<not> summaryPreconditionsMet i st then Ret (Some ((None, st), w))
      else div_bind (returns (isSummaryNeeded i (Supply w) st)) (\<lambda>(r, supply).
        let w = w\<lparr>Supply := supply\<rparr> in
        case r of
          Inl e \<Rightarrow> Ret (Some ((Some e, st), w))
        | Inr needed \<Rightarrow>
            if \<not> needed then Ret (Some ((None, st), w))
            else div_bind (compactContextWithSummary i w st)
                   (\<lambda>((c, e, st), w). Ret (Some ((e, st), w)))))"

section \<open>Properties\<close>

definition cloned :: "message option \<Rightarrow> message option \<Rightarrow> bool" where
  "cloned a b \<longleftrightarrow> (case a of None \<Rightarrow> b = None | Some m \<Rightarrow> \<exists>c. cloneMessageForModelInput m = Ret c \<and> b = Some c)"

lemma cloneMessages_all2: "cloneMessages ms = Ret ns \<Longrightarrow> list_all2 cloned ms ns"
  by (induction ms arbitrary: ns rule: cloneMessages.induct) (auto simp: go_bind_eq_Ret cloned_def)

lemma wrap_is_longer: "length (wrapUntrustedUserText sender t) > length t"
  using json_chars_length [of t] by (simp add: wrapUntrustedUserText_def json_string_def)

lemma clone_wraps:
  "cloneMessageForModelInput m = Ret c \<Longrightarrow> MsgRole m = RoleUser \<Longrightarrow>
     Content c = map (wrap_block (MsgName m)) (Content m)"
  by (auto simp: cloneMessageForModelInput_def go_bind_eq_Ret message_Clone_def cloneContent_def dest: clone_identity)

lemma finish_keeps:
  assumes "finish_summary i w st a b resp = ((None, st'), w')"
  shows "Messages st' = b"
proof -
  obtain t where t: "(case resp of Inl e \<Rightarrow> Inl e | Inr response \<Rightarrow>
      summaryTextFromResponse (ParseObject i) response (SummaryTemplate (Config i))) = Inr t"
    using assms by (cases "case resp of Inl e \<Rightarrow> Inl e | Inr response \<Rightarrow>
      summaryTextFromResponse (ParseObject i) response (SummaryTemplate (Config i))")
      (auto simp: finish_summary_def)
  obtain r w2 where "offload_summary i w st a t = (r, w2)" by fastforce
  with assms t show ?thesis by (cases r) (auto simp: finish_summary_def store_summary_def)
qed

lemma executeSummary_keeps:
  assumes "executeSummary i w st a b = Ret ((None, st'), w')"
  shows "Messages st' = b"
proof -
  from assms obtain r sup where b: "buildSummaryRequest i (Supply w) st a = Ret (r, sup)"
    by (auto simp: executeSummary_def go_bind_eq_Ret)
  with assms obtain req where "r = Inr req" by (cases r) (auto simp: executeSummary_def)
  with assms b show ?thesis
    by (auto simp: executeSummary_def split: prod.splits dest: finish_keeps)
qed

lemma compact_keeps:
  assumes "compactContextWithSummary i w st = Ret (Some ((True, None, st'), w'))"
  shows "\<exists>k < length (Messages st). cloneMessages (drop k (Messages st)) = Ret (Messages st')"
proof -
  from assms have n: "length (Messages st) > 1"
    by (auto simp: compactContextWithSummary_def summaryPreconditionsMet_def split: if_splits)
  from assms obtain tools where t: "Schemas i = Inr tools"
    by (cases "Schemas i") (auto simp: compactContextWithSummary_def split: if_splits)
  from assms t obtain r where s: "splitContextForSummary (message_count i tools) (CtxAt i) (Messages st)
      (ratio_tokens (MaxTokens (Config i)) (ReserveRatio (Config i))) = Ret (Some r)"
    by (auto simp: compactContextWithSummary_def div_bind_eq split: if_splits)
  with assms t obtain a b where r: "r = Inr (a, b)"
    by (cases r) (auto simp: compactContextWithSummary_def div_bind_eq split: if_splits)
  have "executeSummary i w st a b = Ret ((None, st'), w')"
    using assms s t r
    by (auto simp: compactContextWithSummary_def div_bind_eq returns_eq go_bind_eq_Ret split: if_splits)
  with executeSummary_keeps have "Messages st' = b" by blast
  with s r n show ?thesis using split_of_messages by blast
qed

lemma cloned_user_text:
  assumes "cloneMessages ms = Ret ns" and "j < length ms" and "ms ! j = Some m" and "MsgRole m = RoleUser"
    and "n < length (Content m)" and "Content m ! n = Some (TextBlock t i)"
  shows "\<exists>c. ns ! j = Some c \<and> Content c ! n = Some (TextBlock (wrapUntrustedUserText (MsgName m) t) i)"
proof -
  from list_all2_nthD [OF cloneMessages_all2 [OF assms(1)] assms(2)] assms(3)
  obtain c where c: "cloneMessageForModelInput m = Ret c" "ns ! j = Some c" by (auto simp: cloned_def)
  from clone_wraps [OF c(1) assms(4)] assms(5,6) c(2) show ?thesis by simp
qed

text \<open>C38: A summary that succeeds keeps a tail of the conversation, and stores in place of every user
  text kept there the wrapped text that was made for a model call, which is longer than the user's
  own: the next call, and the next summary, wrap it once more.\<close>

theorem summary_rewrites_kept_user_text:
  assumes "compactContextWithSummary i w st = Ret (Some ((True, None, st'), w'))"
  shows "\<exists>k < length (Messages st).
    length (Messages st') = length (Messages st) - k \<and>
    (\<forall>j m n t bid. k + j < length (Messages st) \<and> Messages st ! (k + j) = Some m \<and> MsgRole m = RoleUser
        \<and> n < length (Content m) \<and> Content m ! n = Some (TextBlock t bid) \<longrightarrow>
      (\<exists>c. Messages st' ! j = Some c
         \<and> Content c ! n = Some (TextBlock (wrapUntrustedUserText (MsgName m) t) bid)
         \<and> length t < length (wrapUntrustedUserText (MsgName m) t)))"
proof -
  from compact_keeps [OF assms] obtain k where k: "k < length (Messages st)"
      "cloneMessages (drop k (Messages st)) = Ret (Messages st')"
    by blast
  from list_all2_lengthD [OF cloneMessages_all2 [OF k(2)]]
  have "length (Messages st') = length (Messages st) - k" by simp
  moreover have "\<exists>c. Messages st' ! j = Some c
      \<and> Content c ! n = Some (TextBlock (wrapUntrustedUserText (MsgName m) t) bid)"
    if "k + j < length (Messages st)" "Messages st ! (k + j) = Some m" "MsgRole m = RoleUser"
      "n < length (Content m)" "Content m ! n = Some (TextBlock t bid)" for j m n t bid
    using cloned_user_text [OF k(2), of j m n t bid] that by simp
  ultimately show ?thesis using k(1) wrap_is_longer by blast
qed

definition user_text_message :: "string \<Rightarrow> string \<Rightarrow> message" where
  "user_text_message i t = \<lparr>MsgName = ''user'', Content = [Some (TextBlock t ''t1'')], MsgRole = RoleUser,
     MsgID = i, Metadata = None, CreatedAt = [], FinishedAt = Some [], Usage = None\<rparr>"

definition short_state :: agent_state where
  "short_state = \<lparr>SessionID = ''s1'', Summary = \<lparr>SummaryText = [], SummaryBlocks = []\<rparr>,
     Messages = [Some (assistant_message ''m1'' [TextBlock ''hi'' ''t0'']), Some (user_text_message ''m2'' ''hello'')],
     StateReplyID = [], CurIter = 0, PermissionContext = None, ToolContext = None, TaskContext = None\<rparr>"

definition short_config :: context_config where
  "short_config = \<lparr>TriggerRatio = 8 / 10, ReserveRatio = 1 / 100, MaxTokens = 100,
     CompressionPrompt = ''Summarize.'', SummaryTemplate = ''{summary}'', SummarySchema = None,
     ToolResultLimit = 50000\<rparr>"

definition short_model :: "unit chat_model" where
  "short_model = \<lparr>ModelName = ''stub'',
     ModelCall = (\<lambda>req u. (Inr (Some \<lparr>RespContent = [Some (TextBlock ''all'' ''t9'')], IsLast = True,
        RespError = None, RespID = [], RespCreatedAt = [], RespType = [], RespUsage = None,
        RespMetadata = None\<rparr>), u)),
     ModelStream = (\<lambda>req u. (Inr None, u)), CountTokens = (\<lambda>req. Inr 1)\<rparr>"

definition short_input :: "(unit, unit) strategy_input" where
  "short_input = \<lparr>Model = short_model, Offloader = None, Config = short_config,
     SystemPrompt = Inr ''You help.'', Schemas = Inr [], CtxAt = (\<lambda>n. None),
     ParseObject = (\<lambda>s. None), MarshalSchema = (\<lambda>m. None)\<rparr>"

definition short_world :: "(unit, unit) pass_world" where
  "short_world = \<lparr>Supply = \<lparr>IdAt = (\<lambda>n. ''id''), IdPos = 0, TimeAt = (\<lambda>n. ''now''), TimePos = 0\<rparr>,
     ModelSt = (), OffSt = (), RunningAt = None, Running = None\<rparr>"

lemma short_split:
  "\<exists>b. splitContextForSummary (message_count short_input []) (CtxAt short_input) (Messages short_state) 1
     = Ret (Some (Inr (take 1 (Messages short_state), b)))"
proof -
  let ?ms = "Messages short_state"
  have ms: "?ms = [Some (assistant_message ''m1'' [TextBlock ''hi'' ''t0'']), Some (user_text_message ''m2'' ''hello'')]"
    by (simp add: short_state_def)
  have scan: "reserve_scan (message_count short_input []) (CtxAt short_input) ?ms 1 2 0 1 = Ret (Inr 1)"
    by (simp add: ms assistant_message_def user_text_message_def message_Clone_def cloneContent_def
        wrap64_id eval_nat_numeral message_count_def short_input_def short_model_def)
  have u: "firstUnresolvedToolMessageIndex ?ms = None"
    by (simp add: ms firstUnresolvedToolMessageIndex_def assistant_message_def user_text_message_def
        hasUnresolvedToolWork_def GetContentBlocks_def result_states_def unresolved_call_def
        unresolved_state_def result_ids_def Let_def)
  have p: "paired_from ?ms 1"
    by (simp add: ms paired_from_def assistant_message_def user_text_message_def result_ids_def
        call_ids_def GetContentBlocks_def)
  have c: "cloneMessages (take 1 ?ms) = Ret (take 1 ?ms)"
    by (simp add: ms assistant_message_def cloneMessageForModelInput_def message_Clone_def cloneContent_def)
  obtain b where d: "cloneMessages (drop 1 ?ms) = Ret b"
    by (simp add: ms user_text_message_def cloneMessageForModelInput_def message_Clone_def cloneContent_def)
  have n: "length ?ms = 2" by (simp add: ms)
  show ?thesis
    using scan u c d n p by (simp add: splitContextForSummary_def summary_boundary_loop)
qed

lemma short_fields [simp]:
  "Model short_input = short_model" "Offloader short_input = None" "Config short_input = short_config"
  "SystemPrompt short_input = Inr ''You help.''" "Schemas short_input = Inr []"
  "MarshalSchema short_input m = None" "MaxTokens short_config = 100" "ReserveRatio short_config = 1 / 100"
  "ModelCall short_model req u = (Inr (Some \<lparr>RespContent = [Some (TextBlock ''all'' ''t9'')], IsLast = True,
        RespError = None, RespID = [], RespCreatedAt = [], RespType = [], RespUsage = None,
        RespMetadata = None\<rparr>), u)"
  "ParseObject short_input t = None"
  by (simp_all add: short_input_def short_config_def short_model_def)

lemma text_message_made:
  "\<exists>m w'. NewSystemMessage w n (ContentText t) [] = Ret (Inr m, w')"
  "\<exists>m w'. NewUserMessage w n (ContentText t) [] = Ret (Inr m, w')"
  by (simp_all add: NewSystemMessage_def NewUserMessage_def role_message_def NewMessage_def toBlocks_def
      finish_now_def newID_def nowISO_def Let_def NewTextBlock_def cloneContent_def Validate_def)

lemma short_request:
  "\<exists>req sup. buildSummaryRequest short_input (Supply short_world) short_state (take 1 (Messages short_state))
     = Ret (Inr req, sup)"
proof -
  obtain m w2 where m: "NewSystemMessage (Supply short_world) ''system'' (ContentText ''You help.'') [] = Ret (Inr m, w2)"
    using text_message_made(1) by blast
  have s: "summaryMessageFromState w2 (Some short_state) = Ret (None, w2)"
    by (simp add: summaryMessageFromState_def short_state_def)
  obtain old where o: "cloneMessages (take 1 (Messages short_state)) = Ret old"
    by (simp add: short_state_def assistant_message_def cloneMessageForModelInput_def message_Clone_def
        cloneContent_def)
  obtain f g where u: "\<And>t. NewUserMessage w2 ''user'' (ContentText t) [] = Ret (Inr (f t), g t)"
    using text_message_made(2) by metis
  show ?thesis by (simp add: buildSummaryRequest_def prompt_messages_def m s o [simplified] u Let_def)
qed

lemma short_finish:
  "\<exists>st' w'. finish_summary short_input w st a b (fst (ModelCall short_model req ())) = ((None, st'), w')"
proof -
  have "TrimSpace ''all'' = ''all''" by (rule TrimSpace_plain) (simp_all add: plain_def)
  then show ?thesis
    by (simp add: finish_summary_def summaryTextFromResponse_def GetTextContent_def summaryTextFromRaw_def
        stripJSONFence_def offload_summary_def Let_def)
qed

lemma short_compacts:
  "\<exists>st' w'. compactContextWithSummary short_input short_world short_state = Ret (Some ((True, None, st'), w'))"
proof -
  let ?ms = "Messages short_state"
  obtain b where s: "splitContextForSummary (message_count short_input []) (CtxAt short_input) ?ms 1
      = Ret (Some (Inr (take 1 ?ms, b)))"
    using short_split by blast
  obtain req sup where q: "buildSummaryRequest short_input (Supply short_world) short_state (take 1 ?ms) = Ret (Inr req, sup)"
    using short_request by blast
  have t: "take 1 ?ms \<noteq> []" "length ?ms = 2" by (simp_all add: short_state_def)
  have r: "ratio_tokens 100 (1 / 100) = 1" by (simp add: ratio_tokens_def)
  have "\<exists>st' w'. executeSummary short_input short_world short_state (take 1 ?ms) b = Ret ((None, st'), w')"
    using short_finish by (simp add: executeSummary_def q [simplified] Let_def)
  with s t r show ?thesis
    by (auto simp: compactContextWithSummary_def summaryPreconditionsMet_def div_bind_def returns_def)
qed

theorem summary_rewrites_kept_user_text_witness:
  "\<exists>st' w' j c. compactContextWithSummary short_input short_world short_state = Ret (Some ((True, None, st'), w'))
     \<and> Messages st' ! j = Some c
     \<and> Content c ! 0 = Some (TextBlock (wrapUntrustedUserText ''user'' ''hello'') ''t1'')"
proof -
  obtain st' w' where r: "compactContextWithSummary short_input short_world short_state = Ret (Some ((True, None, st'), w'))"
    using short_compacts by blast
  have n: "length (Messages short_state) = 2" by (simp add: short_state_def)
  obtain k where "k < 2" and all: "\<forall>j m n t bid. k + j < 2 \<and> Messages short_state ! (k + j) = Some m
        \<and> MsgRole m = RoleUser \<and> n < length (Content m) \<and> Content m ! n = Some (TextBlock t bid) \<longrightarrow>
      (\<exists>c. Messages st' ! j = Some c
         \<and> Content c ! n = Some (TextBlock (wrapUntrustedUserText (MsgName m) t) bid)
         \<and> length t < length (wrapUntrustedUserText (MsgName m) t))"
    using summary_rewrites_kept_user_text [OF r] n by auto
  from \<open>k < 2\<close> have "k + (1 - k) = 1" by simp
  with all [rule_format, of "1 - k" "user_text_message ''m2'' ''hello''" 0 "''hello''" "''t1''"] r
  show ?thesis by (auto simp: short_state_def user_text_message_def)
qed

end
