(* ===== verification/Agent_Threshold.thy ===== *)
theory Agent_Threshold
  imports Agent_Summary
begin

text \<open>
  The threshold strategy of the agent's context management
  (\<open>ThresholdContextStrategy\<close> in \<open>pkg/agent/context_strategy.go\<close>) with the status it records
  (\<open>pkg/state/context_status.go\<close>), and the strategy chain (\<open>compressContext\<close> in
  \<open>context.go\<close>): the strategies in order of priority, until one fails or ends the chain.
\<close>

section \<open>Status and thresholds\<close>

datatype ContextStatusLevel = ContextStatusNormal | ContextStatusWarning | ContextStatusCompact | ContextStatusBlocking

record context_status =
  Level :: ContextStatusLevel
  Strategy :: string
  StatusMaxTokens :: int
  UsedTokens :: int
  RemainingTokens :: int
  StatusWarning :: int
  StatusCompact :: int
  StatusBlocking :: int
  StatusMessage :: string

record threshold_strategy =
  WarningThreshold :: int
  CompactThreshold :: int
  BlockingThreshold :: int

definition DefaultContextWarningThreshold :: int where "DefaultContextWarningThreshold = 20000"
definition DefaultContextCompactThreshold :: int where "DefaultContextCompactThreshold = 13000"
definition DefaultContextBlockingThreshold :: int where "DefaultContextBlockingThreshold = 3000"

definition threshold_normalized :: "threshold_strategy \<Rightarrow> threshold_strategy \<times> bool" where
  "threshold_normalized s =
     (let usingDefaults = (WarningThreshold s = 0 \<and> CompactThreshold s = 0 \<and> BlockingThreshold s = 0);
          s = (if WarningThreshold s \<le> 0 then s\<lparr>WarningThreshold := DefaultContextWarningThreshold\<rparr> else s);
          s = (if CompactThreshold s \<le> 0 then s\<lparr>CompactThreshold := DefaultContextCompactThreshold\<rparr> else s);
          s = (if BlockingThreshold s \<le> 0 then s\<lparr>BlockingThreshold := DefaultContextBlockingThreshold\<rparr> else s)
      in (s, usingDefaults))"

definition threshold_validate :: "threshold_strategy \<Rightarrow> error option" where
  "threshold_validate s =
     (if WarningThreshold s \<le> 0 \<or> CompactThreshold s \<le> 0 \<or> BlockingThreshold s \<le> 0
      then Some (Err ''agentscope: context thresholds must be positive'')
      else if WarningThreshold s \<le> CompactThreshold s
      then Some (Err ''agentscope: warning threshold must be greater than compact threshold'')
      else if CompactThreshold s \<le> BlockingThreshold s
      then Some (Err ''agentscope: compact threshold must be greater than blocking threshold'')
      else None)"

definition thresholdPreconditionsMet :: "('m, 'o) strategy_input \<Rightarrow> bool" where
  "thresholdPreconditionsMet i \<longleftrightarrow> MaxTokens (Config i) > 0"

definition statusLevelForRemaining :: "int \<Rightarrow> threshold_strategy \<Rightarrow> ContextStatusLevel" where
  "statusLevelForRemaining remaining s =
     (if remaining \<le> BlockingThreshold s then ContextStatusCompact
      else if remaining \<le> CompactThreshold s then ContextStatusCompact
      else if remaining \<le> WarningThreshold s then ContextStatusWarning
      else ContextStatusNormal)"

definition updateStatus :: "threshold_strategy \<Rightarrow> int \<Rightarrow> ContextStatusLevel \<Rightarrow> int \<Rightarrow> int \<Rightarrow> string \<Rightarrow> context_status" where
  "updateStatus s maxTokens level used remaining msg =
     \<lparr>Level = level, Strategy = ''threshold'', StatusMaxTokens = maxTokens, UsedTokens = used,
      RemainingTokens = remaining, StatusWarning = WarningThreshold s, StatusCompact = CompactThreshold s,
      StatusBlocking = BlockingThreshold s, StatusMessage = msg\<rparr>"

definition window_error :: "threshold_strategy \<Rightarrow> int \<Rightarrow> int \<Rightarrow> int \<Rightarrow> error" where
  "window_error s maxTokens used remaining =
     Err (''agentscope: context window blocked by threshold strategy: used='' @ Itoa used @ '' max=''
       @ Itoa maxTokens @ '' remaining='' @ Itoa remaining @ '' blocking_threshold='' @ Itoa (BlockingThreshold s))"

definition blocking_message :: "threshold_strategy \<Rightarrow> int \<Rightarrow> string" where
  "blocking_message s remaining =
     ''context window has '' @ Itoa remaining @ '' tokens remaining, below blocking threshold ''
     @ Itoa (BlockingThreshold s)"

text \<open>
  \<open>ApplyContextStrategy\<close> of the threshold strategy. The status, a field of the agent state in the
  code, is threaded beside the state.
\<close>

type_synonym ('m, 'o) pass_result =
  "((error option \<times> agent_state \<times> context_status option) \<times> ('m, 'o) pass_world) option go"

text \<open>The end of a pass that looked for room: \<open>compacted\<close> says whether it summarised.\<close>

definition threshold_settle :: "threshold_strategy \<Rightarrow> int \<Rightarrow> bool \<Rightarrow> int \<Rightarrow> int \<Rightarrow> context_status option
    \<Rightarrow> error option \<times> context_status option" where
  "threshold_settle s maxTokens compacted used remaining cs =
     (if remaining \<le> BlockingThreshold s
      then (Some (window_error s maxTokens used remaining),
            Some (updateStatus s maxTokens ContextStatusBlocking used remaining (blocking_message s remaining)))
      else if compacted
      then (let level = statusLevelForRemaining remaining s;
                level = (if level = ContextStatusWarning then ContextStatusCompact else level)
            in (None, Some (updateStatus s maxTokens level used remaining [])))
      else (None, cs))"

definition threshold_compact :: "threshold_strategy \<Rightarrow> int \<Rightarrow> int \<Rightarrow> ('m, 'o) strategy_input
    \<Rightarrow> ('m, 'o) pass_world \<Rightarrow> agent_state \<Rightarrow> context_status option \<Rightarrow> ('m, 'o) pass_result" where
  "threshold_compact s used remaining i w st cs =
     div_bind (compactContextWithSummary i w st) (\<lambda>((compacted, e, st), w).
       if e \<noteq> None then Ret (Some ((e, st, cs), w))
       else if \<not> compacted
       then (let (e, cs) = threshold_settle s (MaxTokens (Config i)) False used remaining cs
             in Ret (Some ((e, st, cs), w)))
       else
         div_bind (returns (currentContextTokens i (Supply w) st)) (\<lambda>(r, supply).
           let w = w\<lparr>Supply := supply\<rparr> in
           case r of
             Inl e \<Rightarrow> Ret (Some ((Some e, st, cs), w))
           | Inr (used, remaining) \<Rightarrow>
               (let (e, cs) = threshold_settle s (MaxTokens (Config i)) True used remaining cs
                in Ret (Some ((e, st, cs), w)))))"

definition threshold_check :: "threshold_strategy \<Rightarrow> ('m, 'o) strategy_input
    \<Rightarrow> ('m, 'o) pass_world \<Rightarrow> agent_state \<Rightarrow> context_status option \<Rightarrow> ('m, 'o) pass_result" where
  "threshold_check s i w st cs =
     div_bind (returns (currentContextTokens i (Supply w) st)) (\<lambda>(r, supply).
       let w = w\<lparr>Supply := supply\<rparr> in
       case r of
         Inl e \<Rightarrow> Ret (Some ((Some e, st, cs), w))
       | Inr (used, remaining) \<Rightarrow>
           (let cs = Some (updateStatus s (MaxTokens (Config i)) (statusLevelForRemaining remaining s) used remaining [])
            in if remaining > CompactThreshold s then Ret (Some ((None, st, cs), w))
               else threshold_compact s used remaining i w st cs))"

definition threshold_Apply :: "threshold_strategy \<Rightarrow> ('m, 'o) strategy_input \<Rightarrow> ('m, 'o) pass_world
    \<Rightarrow> agent_state \<Rightarrow> context_status option \<Rightarrow> ('m, 'o) pass_result" where
  "threshold_Apply s0 i w st cs =
     (if \<not> thresholdPreconditionsMet i then Ret (Some ((None, st, cs), w))
      else
        (let (s, usingDefaults) = threshold_normalized s0
         in if usingDefaults \<and> MaxTokens (Config i) \<le> WarningThreshold s then Ret (Some ((None, st, cs), w))
            else case threshold_validate s of
              Some e \<Rightarrow> Ret (Some ((Some e, st, cs), w))
            | None \<Rightarrow> threshold_check s i w st cs))"

section \<open>The strategy chain\<close>

text \<open>
  A strategy of the chain, with its priority, what it does, and whether it ends the chain after a
  pass (\<open>ShouldShortCircuit\<close>).
\<close>

record ('m, 'o) context_strategy =
  Priority :: int
  Apply :: "('m, 'o) strategy_input \<Rightarrow> ('m, 'o) pass_world \<Rightarrow> agent_state \<Rightarrow> context_status option \<Rightarrow> ('m, 'o) pass_result"
  ShortCircuit :: "agent_state \<Rightarrow> bool"

definition tool_result_strategy :: "('m, 'o) context_strategy" where
  "tool_result_strategy =
     \<lparr>Priority = 10,
      Apply = (\<lambda>i w st cs.
        returns (go_bind (compressToolResults (Offloader i) (CtxAt i 0) (ToolResultLimit (Config i)) (Supply w) st (OffSt w))
          (\<lambda>((e, st), supply, os). Ret ((e, st, cs), w\<lparr>Supply := supply, OffSt := os\<rparr>)))),
      ShortCircuit = (\<lambda>st. False)\<rparr>"

definition NewThresholdContextStrategy :: "('m, 'o) context_strategy" where
  "NewThresholdContextStrategy =
     \<lparr>Priority = 20, Apply = threshold_Apply \<lparr>WarningThreshold = 0, CompactThreshold = 0, BlockingThreshold = 0\<rparr>,
      ShortCircuit = (\<lambda>st. False)\<rparr>"

definition NewSummaryContextStrategy :: "('m, 'o) context_strategy" where
  "NewSummaryContextStrategy =
     \<lparr>Priority = 30,
      Apply = (\<lambda>i w st cs. div_bind (summary_Apply i w st) (\<lambda>((e, st), w). Ret (Some ((e, st, cs), w)))),
      ShortCircuit = (\<lambda>st. False)\<rparr>"

definition DefaultContextStrategies :: "('m, 'o) context_strategy list" where
  "DefaultContextStrategies = [tool_result_strategy, NewThresholdContextStrategy, NewSummaryContextStrategy]"

definition orderContextStrategies :: "('m, 'o) context_strategy option list \<Rightarrow> ('m, 'o) context_strategy list" where
  "orderContextStrategies strategies = sort_key Priority (map the (filter (\<lambda>s. s \<noteq> None) strategies))"

fun run_strategies :: "nat \<Rightarrow> ('m, 'o) context_strategy list \<Rightarrow> ('m, 'o) strategy_input \<Rightarrow> ('m, 'o) pass_world
    \<Rightarrow> agent_state \<Rightarrow> context_status option \<Rightarrow> ('m, 'o) pass_result" where
  "run_strategies n [] i w st cs = Ret (Some ((None, st, cs), w))"
| "run_strategies n (s # ss) i w st cs =
     (case CtxAt i n of
        Some e \<Rightarrow> Ret (Some ((Some e, st, cs), w))
      | None \<Rightarrow>
          div_bind (Apply s i w st cs) (\<lambda>((e, st, cs), w).
            if e \<noteq> None then Ret (Some ((e, st, cs), w))
            else if ShortCircuit s st then Ret (Some ((None, st, cs), w))
            else run_strategies (Suc n) ss i w st cs))"

definition compressContext :: "('m, 'o) context_strategy option list option \<Rightarrow> ('m, 'o) strategy_input
    \<Rightarrow> ('m, 'o) pass_world \<Rightarrow> agent_state \<Rightarrow> context_status option \<Rightarrow> ('m, 'o) pass_result" where
  "compressContext strategies i w st cs =
     run_strategies 0 (orderContextStrategies
       (case strategies of None \<Rightarrow> map Some DefaultContextStrategies | Some ss \<Rightarrow> ss)) i w st cs"

section \<open>Properties\<close>

text \<open>A status that says what the thresholds say about the tokens it records.\<close>

definition status_accurate :: "threshold_strategy \<Rightarrow> context_status \<Rightarrow> bool" where
  "status_accurate s c \<longleftrightarrow>
     (Level c = ContextStatusNormal \<longleftrightarrow> RemainingTokens c > WarningThreshold s)
     \<and> (Level c = ContextStatusBlocking \<longrightarrow> RemainingTokens c \<le> BlockingThreshold s)
     \<and> (Level c = ContextStatusWarning \<longrightarrow> CompactThreshold s < RemainingTokens c)"

lemma level_accurate:
  "threshold_validate s = None \<Longrightarrow> status_accurate s (updateStatus s m (statusLevelForRemaining r s) u r t)"
  by (auto simp: status_accurate_def updateStatus_def statusLevelForRemaining_def threshold_validate_def
      split: if_splits)

definition room_left :: "threshold_strategy \<Rightarrow> context_status option \<Rightarrow> bool" where
  "room_left s cs \<longleftrightarrow> (\<exists>c. cs = Some c \<and> status_accurate s c \<and> RemainingTokens c > BlockingThreshold s
     \<and> Level c \<noteq> ContextStatusBlocking)"

lemma level_room:
  "threshold_validate s = None \<Longrightarrow> r > BlockingThreshold s \<Longrightarrow>
     room_left s (Some (updateStatus s m (statusLevelForRemaining r s) u r t))"
  using level_accurate [of s m r u t]
  by (auto simp: room_left_def updateStatus_def statusLevelForRemaining_def)

lemma settle_room:
  assumes "threshold_validate s = None" and "threshold_settle s m k u r cs = (None, cs')"
    and "k \<or> cs = Some (updateStatus s m (statusLevelForRemaining r s) u r t)"
  shows "room_left s cs'"
proof -
  from assms(2) have r: "r > BlockingThreshold s" by (auto simp: threshold_settle_def split: if_splits)
  show ?thesis
  proof (cases k)
    case True
    with assms(1,2) r show ?thesis
      by (auto simp: threshold_settle_def Let_def room_left_def status_accurate_def updateStatus_def
          statusLevelForRemaining_def threshold_validate_def split: if_splits)
  next
    case False
    with assms r level_room [OF assms(1) r] show ?thesis by (auto simp: threshold_settle_def)
  qed
qed

lemma compact_room:
  assumes valid: "threshold_validate s = None"
    and cs: "cs = Some (updateStatus s (MaxTokens (Config i)) (statusLevelForRemaining remaining s) used remaining t)"
    and run: "threshold_compact s used remaining i w st cs = Ret (Some ((None, st', cs'), w'))"
  shows "room_left s cs'"
proof -
  from run obtain k e st2 w2 where c: "compactContextWithSummary i w st = Ret (Some ((k, e, st2), w2))"
    by (auto simp: threshold_compact_def div_bind_eq)
  with run have e: "e = None" by (auto simp: threshold_compact_def div_bind_eq split: if_splits)
  show ?thesis
  proof (cases k)
    case False
    with run c e have "threshold_settle s (MaxTokens (Config i)) False used remaining cs = (None, cs')"
      by (auto simp: threshold_compact_def div_bind_eq split: prod.splits)
    with settle_room [OF valid] cs show ?thesis by blast
  next
    case True
    with run c e obtain r sup where t: "currentContextTokens i (Supply w2) st2 = Ret (r, sup)"
      by (auto simp: threshold_compact_def div_bind_eq returns_eq)
    with run c e True obtain u m where "r = Inr (u, m)"
        "threshold_settle s (MaxTokens (Config i)) True u m cs = (None, cs')"
      by (cases r) (auto simp: threshold_compact_def div_bind_eq returns_eq split: prod.splits)
    with settle_room [OF valid] show ?thesis by blast
  qed
qed

lemma check_room:
  assumes valid: "threshold_validate s = None"
    and run: "threshold_check s i w st cs = Ret (Some ((None, st', cs'), w'))"
  shows "room_left s cs'"
proof -
  from run obtain r sup where t: "currentContextTokens i (Supply w) st = Ret (r, sup)"
    by (auto simp: threshold_check_def div_bind_eq returns_eq)
  with run obtain used remaining where r: "r = Inr (used, remaining)"
    by (cases r) (auto simp: threshold_check_def div_bind_eq returns_eq)
  define c where "c = Some (updateStatus s (MaxTokens (Config i)) (statusLevelForRemaining remaining s) used remaining [])"
  show ?thesis
  proof (cases "remaining > CompactThreshold s")
    case True
    with run t r have "cs' = c"
      by (auto simp: threshold_check_def div_bind_eq returns_eq c_def)
    moreover have "remaining > BlockingThreshold s"
      using True valid by (auto simp: threshold_validate_def split: if_splits)
    ultimately show ?thesis using level_room [OF valid] by (simp add: c_def)
  next
    case False
    with run t r have "threshold_compact s used remaining i (w\<lparr>Supply := sup\<rparr>) st c = Ret (Some ((None, st', cs'), w'))"
      by (auto simp: threshold_check_def div_bind_eq returns_eq c_def)
    from compact_room [OF valid c_def this] show ?thesis .
  qed
qed


text \<open>A window of thirty thousand tokens of which the model counts one: nothing is compacted.\<close>

definition roomy_input :: "(unit, unit) strategy_input" where
  "roomy_input = short_input\<lparr>Config := short_config\<lparr>MaxTokens := 30000\<rparr>\<rparr>"

definition empty_state :: agent_state where
  "empty_state = short_state\<lparr>Messages := []\<rparr>"

lemma roomy_count:
  "\<exists>sup. currentContextTokens roomy_input (Supply short_world) empty_state = Ret (Inr (1, 29999), sup)"
proof -
  obtain m w2 where m: "NewSystemMessage (Supply short_world) ''system'' (ContentText ''You help.'') [] = Ret (Inr m, w2)"
    using text_message_made(1) by blast
  have s: "summaryMessageFromState w2 (Some empty_state) = Ret (None, w2)"
    by (simp add: summaryMessageFromState_def empty_state_def short_state_def)
  have i: "SystemPrompt roomy_input = Inr ''You help.''" "Schemas roomy_input = Inr []"
    "CountTokens (Model roomy_input) req = Inr 1" "MaxTokens (Config roomy_input) = 30000"
    "Messages empty_state = []" for req
    by (simp_all add: roomy_input_def empty_state_def short_model_def)
  show ?thesis
    by (simp add: currentContextTokens_def CurrentModelRequest_def prompt_messages_def i m s wrap64_id)
qed

lemma roomy_pass:
  "\<exists>cs' w'. threshold_Apply \<lparr>WarningThreshold = 0, CompactThreshold = 0, BlockingThreshold = 0\<rparr>
     roomy_input short_world empty_state None = Ret (Some ((None, empty_state, cs'), w'))"
proof -
  obtain sup where c: "currentContextTokens roomy_input (Supply short_world) empty_state = Ret (Inr (1, 29999), sup)"
    using roomy_count by blast
  have "MaxTokens (Config roomy_input) = 30000" by (simp add: roomy_input_def)
  then show ?thesis
    by (simp add: threshold_Apply_def thresholdPreconditionsMet_def threshold_normalized_def Let_def
        DefaultContextWarningThreshold_def DefaultContextCompactThreshold_def
        DefaultContextBlockingThreshold_def threshold_validate_def threshold_check_def c div_bind_def
        returns_def)
qed


end
