(* ===== verification/Auto_Permission.thy ===== *)
theory Auto_Permission
  imports Agent_Summary
begin

text \<open>
  The model-backed classifier of the auto permission mode (\<open>pkg/agent/auto_permission.go\<close>): how its
  answer is read, and the transcript of the conversation it is shown. \<open>json.Unmarshal\<close> into the
  answer's struct and into any value, and \<open>json.Marshal\<close>, are parameters.
\<close>

record classifier_answer =
  AnsBehavior :: Behavior
  AnsDecision :: Behavior
  AnsReason :: string
  AnsMessage :: string
  AnsDecisionReason :: string
  AnsUpdatedInput :: "gmap option"

definition answer_behavior :: "classifier_answer \<Rightarrow> Behavior" where
  "answer_behavior a = (if AnsBehavior a = BehaviorOther [] then AnsDecision a else AnsBehavior a)"

definition answer_reason :: "classifier_answer \<Rightarrow> string" where
  "answer_reason a =
     (let reason = TrimSpace (AnsDecisionReason a) in if reason = [] then TrimSpace (AnsReason a) else reason)"

definition answer_message :: "classifier_answer \<Rightarrow> string" where
  "answer_message a =
     (let t = TrimSpace (AnsMessage a) in
      if t = [] \<and> answer_reason a \<noteq> [] then answer_reason a else t)"

definition answer_decision :: "string \<Rightarrow> classifier_answer \<Rightarrow> decision" where
  "answer_decision toolName a =
     (if answer_behavior a \<in> {BehaviorAllow, BehaviorDeny, BehaviorAsk}
      then \<lparr>DecBehavior = answer_behavior a, DecMessage = answer_message a,
            DecisionReason = answer_reason a, UpdatedInput = AnsUpdatedInput a, SuggestedRules = []\<rparr>
      else \<lparr>DecBehavior = BehaviorDeny,
            DecMessage = ''Permission denied for '' @ toolName @ '' (auto classifier returned invalid behavior)'',
            DecisionReason = ''Invalid classifier behavior: '' @ behavior_text (answer_behavior a),
            UpdatedInput = None, SuggestedRules = []\<rparr>)"

definition decisionFromClassifierResponse ::
    "(string \<Rightarrow> error + classifier_answer) \<Rightarrow> chat_response option \<Rightarrow> string \<Rightarrow> error + decision" where
  "decisionFromClassifierResponse parse ro toolName =
     (case ro of
        None \<Rightarrow> Inl (Err ''agentscope: auto permission classifier returned nil response'')
      | Some r \<Rightarrow>
          (case GetTextContent (RespContent r) [[]] of
             None \<Rightarrow> Inl (Err ''agentscope: auto permission classifier returned empty response'')
           | Some t \<Rightarrow>
               if TrimSpace t = []
               then Inl (Err ''agentscope: auto permission classifier returned empty response'')
               else (case parse (stripJSONFence (TrimSpace t)) of
                       Inl e \<Rightarrow> Inr \<lparr>DecBehavior = BehaviorDeny,
                         DecMessage = ''Permission denied for '' @ toolName
                           @ '' (auto classifier returned invalid JSON)'',
                         DecisionReason = error_text e, UpdatedInput = None, SuggestedRules = []\<rparr>
                     | Inr a \<Rightarrow> Inr (answer_decision toolName a))))"

text \<open>The constructor options of the classifier: a prompt that is not blank replaces the default.\<close>

definition WithAutoPermissionClassifierPrompt :: "string \<Rightarrow> string \<Rightarrow> string" where
  "WithAutoPermissionClassifierPrompt prompt current =
     (if TrimSpace prompt \<noteq> [] then TrimSpace prompt else current)"

definition classifier_call :: "message \<Rightarrow> message \<Rightarrow> call_request" where
  "classifier_call sys user =
     \<lparr>ReqMessages = [Some sys, Some user], ReqTools = [], ReqToolChoice = None, ReqStream = False,
      ReqMetadata = Some [(''agentscope.permission_classifier'', VStr ''auto'')], ReqParameters = None\<rparr>"

definition classifier_request :: "env \<Rightarrow> string \<Rightarrow> (error + string) \<Rightarrow> ((error + call_request) \<times> env) go" where
  "classifier_request w prompt marshalled =
     go_bind (NewSystemMessage w ''system'' (ContentText prompt) []) (\<lambda>(r, w).
       case r of
         Inl e \<Rightarrow> Ret (Inl e, w)
       | Inr sys \<Rightarrow>
           (case marshalled of
              Inl e \<Rightarrow> Ret (Inl e, w)
            | Inr requestJSON \<Rightarrow>
                go_bind (NewUserMessage w ''user''
                    (ContentText (''Classify this tool permission request:'' @ [CHR 0x0A] @ requestJSON)) [])
                  (\<lambda>(r, w). Ret (map_sum id (classifier_call sys) r, w))))"

text \<open>\<open>Classify\<close>, with the model's own state; the request is marshalled by a parameter.\<close>

definition Classify :: "('m chat_model) \<Rightarrow> string \<Rightarrow> (ClassifierRequest \<Rightarrow> error + string)
    \<Rightarrow> (string \<Rightarrow> error + classifier_answer) \<Rightarrow> env \<Rightarrow> 'm \<Rightarrow> ClassifierRequest
    \<Rightarrow> ((error + decision) \<times> env \<times> 'm) go" where
  "Classify model prompt marshal parse w s req =
     go_bind (classifier_request w prompt (marshal req)) (\<lambda>(r, w).
       case r of
         Inl e \<Rightarrow> Ret (Inl e, w, s)
       | Inr request \<Rightarrow>
           (let (resp, s) = ModelCall model request s
            in Ret (case resp of Inl e \<Rightarrow> Inl e
                    | Inr ro \<Rightarrow> decisionFromClassifierResponse parse ro (ReqToolName req), w, s)))"

section \<open>The transcript\<close>

definition appendTranscriptLine :: "(gval \<Rightarrow> string option) \<Rightarrow> string \<Rightarrow> gval \<Rightarrow> string" where
  "appendTranscriptLine marshal out v =
     (case marshal v of
        None \<Rightarrow> out
      | Some s \<Rightarrow> if out \<noteq> [] then out @ [CHR 0x0A] @ s else s)"

definition decodeToolCallInput :: "(string \<Rightarrow> error + gval) \<Rightarrow> string \<Rightarrow> gval" where
  "decodeToolCallInput unmarshal input = (case unmarshal input of Inl e \<Rightarrow> VStr input | Inr v \<Rightarrow> v)"

fun transcript_call :: "(gval \<Rightarrow> string option) \<Rightarrow> (string \<Rightarrow> error + gval) \<Rightarrow> string \<Rightarrow> string
    \<Rightarrow> block option \<Rightarrow> string" where
  "transcript_call marshal unmarshal current out (Some (ToolCallBlock i n inp st rs x)) =
     (if i = current then out
      else appendTranscriptLine marshal out (VMap [(''tool_call'',
        VMap [(''id'', VStr i), (''name'', VStr n), (''input'', decodeToolCallInput unmarshal inp)])]))"
| "transcript_call marshal unmarshal current out bo = out"

definition transcript_message :: "(gval \<Rightarrow> string option) \<Rightarrow> (string \<Rightarrow> error + gval) \<Rightarrow> string
    \<Rightarrow> message option \<Rightarrow> string \<Rightarrow> string" where
  "transcript_message marshal unmarshal current mo out =
     (case mo of
        None \<Rightarrow> out
      | Some m \<Rightarrow>
          (case MsgRole m of
             RoleUser \<Rightarrow>
               (case GetTextContent (Content m) [[]] of
                  None \<Rightarrow> out
                | Some t \<Rightarrow> if TrimSpace t = [] then out
                    else appendTranscriptLine marshal out (VMap [(''user'', VStr t)]))
           | RoleAssistant \<Rightarrow>
               foldl (transcript_call marshal unmarshal current) out (GetContentBlocks (Content m) [''tool_call''])
           | _ \<Rightarrow> out))"

definition buildAutoPermissionTranscript :: "(gval \<Rightarrow> string option) \<Rightarrow> (string \<Rightarrow> error + gval)
    \<Rightarrow> message option list \<Rightarrow> string \<Rightarrow> string" where
  "buildAutoPermissionTranscript marshal unmarshal ms current =
     fold (transcript_message marshal unmarshal current) ms []"

section \<open>Lemmas\<close>

text \<open>An answer that is not, word for word, allow, deny or ask is a denial; so is one that is not JSON.\<close>

lemma decision_behavior:
  "decisionFromClassifierResponse parse ro toolName = Inr d \<Longrightarrow>
     DecBehavior d \<in> {BehaviorAllow, BehaviorDeny, BehaviorAsk}
     \<and> (DecBehavior d \<noteq> BehaviorDeny \<longrightarrow>
         (\<exists>r t a. ro = Some r \<and> GetTextContent (RespContent r) [[]] = Some t
           \<and> parse (stripJSONFence (TrimSpace t)) = Inr a \<and> answer_behavior a = DecBehavior d))"
  by (auto simp: decisionFromClassifierResponse_def answer_decision_def split: option.splits if_splits sum.splits)

end
