(* ===== verification/Agent_Run.thy ===== *)
theory Agent_Run
  imports Agent_Threshold Toolkit
begin

text \<open>
  The run of an agent (\<open>pkg/agent\<close>): what one reply keeps and changes, the sequencing of its steps
  with early returns on errors, a small Hoare logic for them, the tool providers
  (\<open>tool_provider.go\<close>), the hook chains (\<open>middleware_chain.go\<close>) and the event that is applied to
  the message being written and handed to the consumer (\<open>emitAndApply\<close> in \<open>agent.go\<close>).

  The running assistant message is a pointer in the code. It is the message at \<open>RunningAt\<close> of the
  conversation as long as it is there, so that a change of either is a change of both, and a message
  of its own after a summary replaced the conversation.
\<close>

section \<open>Steps\<close>

text \<open>
  The trace records what the acting phase decided and ran; it is written, never read.
\<close>

datatype act_step =
    Checked tool_call agent_state decision
  | Ran tool_call

record ('m, 'o, 'x) run =
  World :: "('m, 'o) pass_world"
  AState :: agent_state
  Status :: "context_status option"
  Outer :: 'x
  Trace :: "act_step list"

type_synonym ('m, 'o, 'x, 'a) act = "('m, 'o, 'x) run \<Rightarrow> ((error + 'a) \<times> ('m, 'o, 'x) run) option go"

definition act_ret :: "'a \<Rightarrow> ('m, 'o, 'x, 'a) act" where
  "act_ret x r = Ret (Some (Inr x, r))"

definition act_fail :: "error \<Rightarrow> ('m, 'o, 'x, 'a) act" where
  "act_fail e r = Ret (Some (Inl e, r))"

definition act_bind :: "('m, 'o, 'x, 'a) act \<Rightarrow> ('a \<Rightarrow> ('m, 'o, 'x, 'b) act) \<Rightarrow> ('m, 'o, 'x, 'b) act" where
  "act_bind m f r = div_bind (m r) (\<lambda>(x, r). case x of Inl e \<Rightarrow> Ret (Some (Inl e, r)) | Inr y \<Rightarrow> f y r)"

definition act_then :: "('m, 'o, 'x, unit) act \<Rightarrow> ('m, 'o, 'x, 'b) act \<Rightarrow> ('m, 'o, 'x, 'b) act" where
  "act_then m n = act_bind m (\<lambda>u. n)"

definition act_get :: "(('m, 'o, 'x) run \<Rightarrow> 'a) \<Rightarrow> ('m, 'o, 'x, 'a) act" where
  "act_get f r = Ret (Some (Inr (f r), r))"

definition act_modify :: "(('m, 'o, 'x) run \<Rightarrow> ('m, 'o, 'x) run) \<Rightarrow> ('m, 'o, 'x, unit) act" where
  "act_modify f r = Ret (Some (Inr (), f r))"

text \<open>A computation on the run that may panic, and one that may also fail.\<close>

definition act_go :: "(('m, 'o, 'x) run \<Rightarrow> ('a \<times> ('m, 'o, 'x) run) go) \<Rightarrow> ('m, 'o, 'x, 'a) act" where
  "act_go f r = go_bind (f r) (\<lambda>(x, r). Ret (Some (Inr x, r)))"

definition act_try :: "(('m, 'o, 'x) run \<Rightarrow> ((error + 'a) \<times> ('m, 'o, 'x) run) go) \<Rightarrow> ('m, 'o, 'x, 'a) act" where
  "act_try f r = go_bind (f r) (\<lambda>p. Ret (Some p))"

text \<open>Iterating over a slice, with an early return on an error.\<close>

fun act_each :: "('b \<Rightarrow> ('m, 'o, 'x, unit) act) \<Rightarrow> 'b list \<Rightarrow> ('m, 'o, 'x, unit) act" where
  "act_each f [] = act_ret ()"
| "act_each f (b # bs) = act_then (f b) (act_each f bs)"

text \<open>The laws of sequencing.\<close>

lemma act_bind_ret [simp]: "act_bind (act_ret x) f = f x"
  by (rule ext) (simp add: act_bind_def act_ret_def div_bind_def)

lemma act_bind_assoc: "act_bind (act_bind m f) g = act_bind m (\<lambda>x. act_bind (f x) g)"
proof (rule ext)
  fix r
  show "act_bind (act_bind m f) g r = act_bind m (\<lambda>x. act_bind (f x) g) r"
  proof (cases "m r")
    case (Ret o1)
    then show ?thesis by (auto simp: act_bind_def div_bind_def split: option.split sum.split)
  qed (simp add: act_bind_def div_bind_def)
qed

section \<open>Reasoning about steps\<close>

text \<open>
  \<open>hoare P m Q E\<close>: started where \<open>P\<close> holds, \<open>m\<close> ends only where \<open>Q\<close> holds of its value and the run, or
  where it failed and \<open>E\<close> holds of the run. \<open>keeps P m\<close>: it ends only where \<open>P\<close> holds still.
\<close>

definition hoare :: "(('m, 'o, 'x) run \<Rightarrow> bool) \<Rightarrow> ('m, 'o, 'x, 'a) act
    \<Rightarrow> ('a \<Rightarrow> ('m, 'o, 'x) run \<Rightarrow> bool) \<Rightarrow> (('m, 'o, 'x) run \<Rightarrow> bool) \<Rightarrow> bool" where
  "hoare P m Q E \<longleftrightarrow> (\<forall>r. P r \<longrightarrow> (\<forall>x r'. m r = Ret (Some (x, r')) \<longrightarrow>
     (case x of Inl e \<Rightarrow> E r' | Inr y \<Rightarrow> Q y r')))"

abbreviation keeps :: "(('m, 'o, 'x) run \<Rightarrow> bool) \<Rightarrow> ('m, 'o, 'x, 'a) act \<Rightarrow> bool" where
  "keeps P m \<equiv> hoare P m (\<lambda>y. P) P"

named_theorems keeps "steps that keep a predicate on the run"

lemma hoare_ret [keeps]: "(\<And>r. P r \<Longrightarrow> Q x r) \<Longrightarrow> hoare P (act_ret x) Q E"
  by (simp add: hoare_def act_ret_def)

lemma hoare_fail [keeps]: "(\<And>r. P r \<Longrightarrow> E r) \<Longrightarrow> hoare P (act_fail e) Q E"
  by (simp add: hoare_def act_fail_def)

lemma hoare_bind:
  assumes m: "hoare P m R E" and f: "\<And>x. hoare (R x) (f x) Q E"
  shows "hoare P (act_bind m f) Q E"
  unfolding hoare_def
proof (intro allI impI)
  fix r x r'
  assume r: "P r" and run: "act_bind m f r = Ret (Some (x, r'))"
  from run obtain y r1 where y: "m r = Ret (Some (y, r1))"
    by (auto simp: act_bind_def div_bind_eq)
  show "case x of Inl e \<Rightarrow> E r' | Inr z \<Rightarrow> Q z r'"
  proof (cases y)
    case (Inl e)
    have "E r1" using m r y Inl unfolding hoare_def by fastforce
    moreover have "x = Inl e" "r' = r1" using run y Inl by (auto simp: act_bind_def div_bind_eq)
    ultimately show ?thesis by simp
  next
    case (Inr a)
    have "R a r1" using m r y Inr unfolding hoare_def by fastforce
    moreover have "f a r1 = Ret (Some (x, r'))" using run y Inr by (auto simp: act_bind_def div_bind_eq)
    ultimately show ?thesis using f unfolding hoare_def by blast
  qed
qed

lemma hoare_then:
  "hoare P m (\<lambda>u. R) E \<Longrightarrow> hoare R n Q E \<Longrightarrow> hoare P (act_then m n) Q E"
  unfolding act_then_def by (rule hoare_bind)

lemma hoare_get: "(\<And>r. P r \<Longrightarrow> Q (f r) r) \<Longrightarrow> hoare P (act_get f) Q E"
  by (simp add: hoare_def act_get_def)

lemma hoare_modify: "(\<And>r. P r \<Longrightarrow> Q () (f r)) \<Longrightarrow> hoare P (act_modify f) Q E"
  by (simp add: hoare_def act_modify_def)

lemma hoare_go:
  "(\<And>r x r'. P r \<Longrightarrow> f r = Ret (x, r') \<Longrightarrow> Q x r') \<Longrightarrow> hoare P (act_go f) Q E"
  by (auto simp: hoare_def act_go_def go_bind_eq_Ret split: sum.splits)

lemma hoare_try:
  "(\<And>r x r'. P r \<Longrightarrow> f r = Ret (x, r') \<Longrightarrow> (case x of Inl e \<Rightarrow> E r' | Inr y \<Rightarrow> Q y r'))
     \<Longrightarrow> hoare P (act_try f) Q E"
  by (auto simp: hoare_def act_try_def go_bind_eq_Ret)

lemma hoare_pre: "(\<And>r. P' r \<Longrightarrow> P r) \<Longrightarrow> hoare P m Q E \<Longrightarrow> hoare P' m Q E"
  unfolding hoare_def by blast

lemma hoare_post:
  "hoare P m Q' E' \<Longrightarrow> (\<And>y r. Q' y r \<Longrightarrow> Q y r) \<Longrightarrow> (\<And>r. E' r \<Longrightarrow> E r) \<Longrightarrow> hoare P m Q E"
  unfolding hoare_def by (fastforce split: sum.splits)

lemma hoare_if [keeps]:
  "(b \<Longrightarrow> hoare P m Q E) \<Longrightarrow> (\<not> b \<Longrightarrow> hoare P n Q E) \<Longrightarrow> hoare P (if b then m else n) Q E"
  by simp

lemma hoare_each:
  "(\<And>b. b \<in> set bs \<Longrightarrow> keeps P (f b)) \<Longrightarrow> keeps P (act_each f bs)"
proof (induction bs)
  case Nil
  then show ?case by (simp add: hoare_ret)
next
  case (Cons b bs)
  then have "keeps P (f b)" "keeps P (act_each f bs)" by simp_all
  then show ?case by (simp add: hoare_then [where R = P])
qed

lemma hoareD:
  "hoare P m Q E \<Longrightarrow> P r \<Longrightarrow> m r = Ret (Some (Inr y, r')) \<Longrightarrow> Q y r'"
  unfolding hoare_def by fastforce

lemma hoareE:
  "hoare P m Q E \<Longrightarrow> P r \<Longrightarrow> m r = Ret (Some (Inl e, r')) \<Longrightarrow> E r'"
  unfolding hoare_def by fastforce

lemma keepsD: "keeps P m \<Longrightarrow> P r \<Longrightarrow> m r = Ret (Some (x, r')) \<Longrightarrow> P r'"
  unfolding hoare_def by (fastforce split: sum.splits)

text \<open>The rules that end a proof that every step of a definition keeps \<open>P\<close>.\<close>

lemmas keeps_bind [keeps] = hoare_bind [where Q = "\<lambda>y. P" and R = "\<lambda>y. P" and E = P for P]
lemmas keeps_then [keeps] = hoare_then [where Q = "\<lambda>y. P" and R = P and E = P for P]
lemmas keeps_get [keeps] = hoare_get [where Q = "\<lambda>y. P" and P = P for P]
lemmas keeps_modify [keeps] = hoare_modify [where Q = "\<lambda>y. P" and P = P for P]

declare hoare_each [keeps]

lemma keeps_sum [keeps]:
  "(\<And>e. s = Inl e \<Longrightarrow> keeps P (f e)) \<Longrightarrow> (\<And>x. s = Inr x \<Longrightarrow> keeps P (g x))
     \<Longrightarrow> keeps P (case s of Inl e \<Rightarrow> f e | Inr x \<Rightarrow> g x)"
  by (cases s) simp_all

lemma keeps_option [keeps]:
  "(s = None \<Longrightarrow> keeps P f) \<Longrightarrow> (\<And>x. s = Some x \<Longrightarrow> keeps P (g x))
     \<Longrightarrow> keeps P (case s of None \<Rightarrow> f | Some x \<Rightarrow> g x)"
  by (cases s) simp_all

lemma keeps_prod [keeps]:
  "(\<And>a b. p = (a, b) \<Longrightarrow> keeps P (f a b)) \<Longrightarrow> keeps P (case p of (a, b) \<Rightarrow> f a b)"
  by (cases p) simp

section \<open>The message being written\<close>

text \<open>The pointer the loop holds. No message is there only before a reply has made one.\<close>

definition assistant_of :: "('m, 'o, 'x) run \<Rightarrow> message option" where
  "assistant_of r =
     (case RunningAt (World r) of
        None \<Rightarrow> Running (World r)
      | Some k \<Rightarrow> if k < length (Messages (AState r)) then Messages (AState r) ! k else None)"

definition put_assistant :: "message \<Rightarrow> ('m, 'o, 'x) run \<Rightarrow> ('m, 'o, 'x) run" where
  "put_assistant m r =
     (case RunningAt (World r) of
        None \<Rightarrow> r\<lparr>World := (World r)\<lparr>Running := Some m\<rparr>\<rparr>
      | Some k \<Rightarrow> r\<lparr>AState := (AState r)\<lparr>Messages := (Messages (AState r))[k := Some m]\<rparr>\<rparr>)"

definition put_supply :: "env \<Rightarrow> ('m, 'o, 'x) run \<Rightarrow> ('m, 'o, 'x) run" where
  "put_supply w r = r\<lparr>World := (World r)\<lparr>Supply := w\<rparr>\<rparr>"

text \<open>The consumer of a reply, with its own state; a nil consumer is \<open>None\<close>.\<close>

type_synonym 'x sink = "(event \<Rightarrow> 'x \<Rightarrow> error option \<times> 'x) option"

definition apply_to_assistant :: "event \<Rightarrow> ('m, 'o, 'x, unit) act" where
  "apply_to_assistant ev = act_try (\<lambda>r.
     case assistant_of r of
       None \<Rightarrow> Ret (Inr (), r)
     | Some m \<Rightarrow>
         go_bind (ApplyEvent (Supply (World r)) m (Some ev)) (\<lambda>((e, m), w).
           Ret (case e of None \<Rightarrow> Inr () | Some e \<Rightarrow> Inl e, put_assistant m (put_supply w r))))"

definition hand_over :: "'x sink \<Rightarrow> event \<Rightarrow> ('m, 'o, 'x, unit) act" where
  "hand_over emit ev = act_try (\<lambda>r.
     case emit of
       None \<Rightarrow> Ret (Inr (), r)
     | Some f \<Rightarrow>
         (let (e, x) = f ev (Outer r)
          in Ret (case e of None \<Rightarrow> Inr () | Some e \<Rightarrow> Inl e, r\<lparr>Outer := x\<rparr>)))"

definition emitAndApply :: "'x sink \<Rightarrow> event \<Rightarrow> ('m, 'o, 'x, unit) act" where
  "emitAndApply emit ev = act_then (apply_to_assistant ev) (hand_over emit ev)"

text \<open>An event made by its constructor, which draws an identifier and the time.\<close>

definition make_event :: "(env \<Rightarrow> string \<Rightarrow> event \<times> env) \<Rightarrow> ('m, 'o, 'x, event) act" where
  "make_event mk = act_go (\<lambda>r.
     let (ev, w) = mk (Supply (World r)) (StateReplyID (AState r)) in Ret (ev, put_supply w r))"

definition emit_new :: "'x sink \<Rightarrow> (env \<Rightarrow> string \<Rightarrow> event \<times> env) \<Rightarrow> ('m, 'o, 'x, unit) act" where
  "emit_new emit mk = act_bind (make_event mk) (emitAndApply emit)"

text \<open>The hooks of a chain, the first outermost (\<open>applyReplyHooks\<close> and its four siblings).\<close>

definition apply_hooks :: "('h \<Rightarrow> 'h) list \<Rightarrow> 'h \<Rightarrow> 'h" where
  "apply_hooks hooks final = foldr (\<lambda>hook nxt. hook nxt) hooks final"

section \<open>What an event changes\<close>

text \<open>
  A predicate that does not look at the running message, the identifier supply and the consumer's
  state is kept by every event.
\<close>

definition ignores_message :: "(('m, 'o, 'x) run \<Rightarrow> bool) \<Rightarrow> bool" where
  "ignores_message P \<longleftrightarrow> (\<forall>r. P r \<longrightarrow> (\<forall>m w x. P (put_assistant m r) \<and> P (put_supply w r) \<and> P (r\<lparr>Outer := x\<rparr>)))"

lemma emitAndApply_keeps:
  "ignores_message P \<Longrightarrow> keeps P (emitAndApply emit ev)"
  unfolding emitAndApply_def apply_to_assistant_def hand_over_def
  by (intro keeps hoare_try)
     (auto simp: ignores_message_def go_bind_eq_Ret split: option.splits sum.splits prod.splits)

lemma make_event_keeps:
  "ignores_message P \<Longrightarrow> keeps P (make_event mk)"
  unfolding make_event_def
  by (intro hoare_go) (auto simp: ignores_message_def split: prod.splits)

lemma emit_new_keeps:
  "ignores_message P \<Longrightarrow> keeps P (emit_new emit mk)"
  unfolding emit_new_def by (intro keeps emitAndApply_keeps make_event_keeps)

lemma put_parts [simp]:
  "Trace (put_assistant m r) = Trace r" "Trace (put_supply w r) = Trace r"
  "Outer (put_assistant m r) = Outer r" "Outer (put_supply w r) = Outer r"
  "CurIter (AState (put_assistant m r)) = CurIter (AState r)"
  "StateReplyID (AState (put_assistant m r)) = StateReplyID (AState r)"
  "AState (put_supply w r) = AState r"
  by (simp_all add: put_assistant_def put_supply_def split: option.splits)

lemma ignores_trace: "ignores_message (\<lambda>r. P (Trace r))"
  by (simp add: ignores_message_def)

lemma ignores_iteration: "ignores_message (\<lambda>r. P (CurIter (AState r)))"
  by (simp add: ignores_message_def)

end
