(* ===== verification/Tool_Provider.thy ===== *)
theory Tool_Provider
  imports Agent_Run
begin

text \<open>
  The tool registries an agent sees (\<open>pkg/agent/tool_provider.go\<close>, the interface \<open>ToolProvider\<close>
  and \<open>emptyToolProvider\<close> of \<open>agent.go\<close>): a provider advertises schemas, finds a tool and runs a
  call; two providers are composed with the first taking precedence. A toolkit is a provider.

  A call gets the agent state and may change it. The tools of the repository change its task list,
  read cache, active groups and permission context, never the conversation or the iteration counter;
  those are taken from before the call.
\<close>

record agent_tool =
  ATool :: tool
  IsExternal :: bool
  ConcurrencySafe :: bool
  MCPName :: string

record 'x provider =
  PSchemas :: "string list \<Rightarrow> error + tool_schema list"
  PFind :: "string \<Rightarrow> string list \<Rightarrow> agent_tool option go"
  PCall :: "tool_call option \<Rightarrow> agent_state \<Rightarrow> env \<Rightarrow> 'x
    \<Rightarrow> (((error + tool_chunk list option) \<times> agent_state) \<times> env \<times> 'x) go"

definition emptyToolProvider :: "'x provider" where
  "emptyToolProvider = \<lparr>PSchemas = (\<lambda>gs. Inr []), PFind = (\<lambda>n gs. Ret None),
     PCall = (\<lambda>c st w x. Ret ((Inl (Err ''agentscope: no toolkit configured''), st), w, x))\<rparr>"

definition providerSchemas :: "'x provider option \<Rightarrow> string list \<Rightarrow> error + tool_schema list" where
  "providerSchemas p gs = (case p of None \<Rightarrow> Inr [] | Some p \<Rightarrow> PSchemas p gs)"

fun ensureUniqueToolSchemas :: "string set \<Rightarrow> tool_schema list \<Rightarrow> error option" where
  "ensureUniqueToolSchemas seen [] = None"
| "ensureUniqueToolSchemas seen (s # ss) =
     (if SchemaName s = [] then ensureUniqueToolSchemas seen ss
      else if SchemaName s \<in> seen
      then Some (Err (''agentscope: duplicate tool schema '' @ go_quote (SchemaName s)))
      else ensureUniqueToolSchemas (insert (SchemaName s) seen) ss)"

definition composite_ToolSchemas :: "'x provider option \<Rightarrow> 'x provider option \<Rightarrow> string list
    \<Rightarrow> error + tool_schema list" where
  "composite_ToolSchemas p q gs =
     (case providerSchemas p gs of
        Inl e \<Rightarrow> Inl e
      | Inr ss \<Rightarrow> (case providerSchemas q gs of
            Inl e \<Rightarrow> Inl e
          | Inr ts \<Rightarrow> (case ensureUniqueToolSchemas {} (ss @ ts) of
                Some e \<Rightarrow> Inl e
              | None \<Rightarrow> Inr (ss @ ts))))"

definition find_in :: "'x provider option \<Rightarrow> string \<Rightarrow> string list \<Rightarrow> agent_tool option go" where
  "find_in p name gs = (case p of None \<Rightarrow> Ret None | Some p \<Rightarrow> PFind p name gs)"

definition composite_FindTool :: "'x provider option \<Rightarrow> 'x provider option \<Rightarrow> string \<Rightarrow> string list
    \<Rightarrow> agent_tool option go" where
  "composite_FindTool p q name gs =
     go_bind (find_in p name gs) (\<lambda>found.
       case found of Some t \<Rightarrow> Ret (Some t) | None \<Rightarrow> find_in q name gs)"

definition composite_CallTool :: "'x provider option \<Rightarrow> 'x provider option \<Rightarrow> tool_call option
    \<Rightarrow> agent_state \<Rightarrow> env \<Rightarrow> 'x
    \<Rightarrow> (((error + tool_chunk list option) \<times> agent_state) \<times> env \<times> 'x) go" where
  "composite_CallTool p q call st w x =
     (case call of
        None \<Rightarrow> Ret ((Inl (Err ''agentscope: nil tool call''), st), w, x)
      | Some c \<Rightarrow>
          (let gs = activeGroupsFromState (Some st) in
           go_bind (find_in p (CallName c) gs) (\<lambda>found.
             if found \<noteq> None then PCall (the p) call st w x
             else go_bind (find_in q (CallName c) gs) (\<lambda>found.
               if found \<noteq> None then PCall (the q) call st w x
               else case p of
                 Some p \<Rightarrow> PCall p call st w x
               | None \<Rightarrow> PCall emptyToolProvider call st w x))))"

definition compositeToolProvider :: "'x provider option \<Rightarrow> 'x provider option \<Rightarrow> 'x provider" where
  "compositeToolProvider p q =
     \<lparr>PSchemas = composite_ToolSchemas p q, PFind = composite_FindTool p q, PCall = composite_CallTool p q\<rparr>"

definition composeToolProviders :: "'x provider option \<Rightarrow> 'x provider option \<Rightarrow> 'x provider option" where
  "composeToolProviders p q =
     (case (p, q) of
        (None, q) \<Rightarrow> q
      | (p, None) \<Rightarrow> p
      | (p, q) \<Rightarrow> Some (compositeToolProvider p q))"

definition effectiveToolProvider :: "'x provider option \<Rightarrow> 'x provider option \<Rightarrow> 'x provider option" where
  "effectiveToolProvider toolkit middleware_kit =
     (case middleware_kit of None \<Rightarrow> toolkit | Some k \<Rightarrow> Some (compositeToolProvider toolkit (Some k)))"

text \<open>
  A toolkit as a provider. What the agent asks of a tool beyond the permission engine's surface, by
  its name: whether it is run elsewhere, whether it may run beside others, and its MCP client.
\<close>

definition kit_tool_of :: "(string \<Rightarrow> bool) \<Rightarrow> (string \<Rightarrow> bool) \<Rightarrow> (string \<Rightarrow> string) \<Rightarrow> kit_tool \<Rightarrow> agent_tool" where
  "kit_tool_of external safe mcp t = \<lparr>ATool = KTool t, IsExternal = external (KName t),
     ConcurrencySafe = safe (KName t), MCPName = mcp (KName t)\<rparr>"

definition toolkit_provider :: "(string \<Rightarrow> bool) \<Rightarrow> (string \<Rightarrow> bool) \<Rightarrow> (string \<Rightarrow> string) \<Rightarrow> (string \<Rightarrow> error + gval)
    \<Rightarrow> (error \<Rightarrow> bool) \<Rightarrow> toolkit \<Rightarrow> 'x provider" where
  "toolkit_provider external safe mcp unmarshal canceled kit =
     \<lparr>PSchemas = ToolSchemas kit,
      PFind = (\<lambda>n gs. go_bind (FindTool kit n gs) (\<lambda>t. Ret (map_option (kit_tool_of external safe mcp) t))),
      PCall = (\<lambda>c st w x.
        go_bind (CallTool unmarshal canceled kit w
            (map_option (\<lambda>c. (CallID c, CallName c, CallInput c)) c) (Some st)) (\<lambda>((res, so), w).
          Ret ((case res of Inl e \<Rightarrow> Inl e | Inr cs \<Rightarrow> Inr (Some cs),
                case so of None \<Rightarrow> st | Some st' \<Rightarrow> st'), w, x)))\<rparr>"

section \<open>Lemmas\<close>

lemma ensureUnique_names:
  "ensureUniqueToolSchemas seen ss = None \<longleftrightarrow>
     distinct (filter (\<lambda>n. n \<noteq> []) (map SchemaName ss))
     \<and> (\<forall>s \<in> set ss. SchemaName s \<noteq> [] \<longrightarrow> SchemaName s \<notin> seen)"
  by (induction ss arbitrary: seen) (auto, metis image_eqI)

text \<open>A composition calls the tool it finds, and advertises no name twice.\<close>

lemma composite_calls_what_it_finds:
  assumes "composite_FindTool p q (CallName c) (activeGroupsFromState (Some st)) = Ret (Some t)"
  shows "\<exists>k. (p = Some k \<or> q = Some k) \<and> PFind k (CallName c) (activeGroupsFromState (Some st)) = Ret (Some t)
    \<and> composite_CallTool p q (Some c) st w x = PCall k (Some c) st w x"
proof (cases "find_in p (CallName c) (activeGroupsFromState (Some st))")
  case Panic
  with assms show ?thesis by (simp add: composite_FindTool_def)
next
  case (Ret found)
  show ?thesis
  proof (cases found)
    case None
    with assms Ret have q: "find_in q (CallName c) (activeGroupsFromState (Some st)) = Ret (Some t)"
      by (simp add: composite_FindTool_def)
    then obtain k where "q = Some k" by (cases q) (simp_all add: find_in_def)
    with q Ret None show ?thesis
      by (intro exI [of _ k]) (simp add: composite_CallTool_def find_in_def Let_def)
  next
    case (Some u)
    with assms Ret have p: "find_in p (CallName c) (activeGroupsFromState (Some st)) = Ret (Some t)"
      by (simp add: composite_FindTool_def)
    then obtain k where "p = Some k" by (cases p) (simp_all add: find_in_def)
    with p show ?thesis by (intro exI [of _ k]) (simp add: composite_CallTool_def find_in_def Let_def)
  qed
qed

lemma composite_schemas_distinct:
  "composite_ToolSchemas p q gs = Inr ss \<Longrightarrow> distinct (filter (\<lambda>n. n \<noteq> []) (map SchemaName ss))"
  using ensureUnique_names [of "{}" ss]
  by (auto simp: composite_ToolSchemas_def split: sum.splits option.splits)

end
