(* ===== verification/Agent_Acting.thy ===== *)
theory Agent_Acting
  imports Tool_Provider Auto_Permission
begin

text \<open>
  The acting phase (\<open>pkg/agent/acting.go\<close>) with its audit records (\<open>security_audit.go\<close>): each
  pending tool call is looked up, its arguments are read, the permission engine decides, and an
  allowed call is run alone or with the other concurrency-safe calls of its batch. A tool call is a
  pointer into the running assistant message: its place in the content, which the events applied
  meanwhile never move.

  The chunks of a tool's stream are the list it delivers. The calls of a batch run in the order
  \<open>BatchOrder\<close> gives, any order being one the scheduler may choose, each as one step on the state
  they share.
\<close>

section \<open>The agent\<close>

datatype SecurityAuditEventType = PermissionRequired | PermissionDenied | ToolExecutionError

record audit_event =
  AuditType :: SecurityAuditEventType
  AuditToolName :: string
  AuditMCPName :: string
  AuditReplyID :: string
  AuditSessionID :: string
  AuditError :: string

type_synonym 'x tool_step = "agent_state \<times> env \<times> 'x
  \<Rightarrow> ((error + tool_chunk list option) \<times> agent_state \<times> env \<times> 'x) go"

record 'x agent_core =
  AgentName :: string
  ToolkitOf :: "'x provider"
  MiddlewareKit :: "'x provider option"
  PermissionClassifier :: "classifier option"
  AuditLogger :: "(audit_event \<Rightarrow> 'x \<Rightarrow> 'x) option"
  ActingHooks :: "(tool_call \<Rightarrow> 'x tool_step \<Rightarrow> 'x tool_step) list"
  BatchOrder :: "nat \<Rightarrow> nat list"
  MarshalGo :: "gval \<Rightarrow> error + string"
  UnmarshalGo :: "string \<Rightarrow> error + gval"

definition marshalled :: "('x, 'z) agent_core_scheme \<Rightarrow> gval \<Rightarrow> string option" where
  "marshalled a v = (case MarshalGo a v of Inl e \<Rightarrow> None | Inr s \<Rightarrow> Some s)"

definition provider_of :: "('x, 'z) agent_core_scheme \<Rightarrow> 'x provider" where
  "provider_of a = the (effectiveToolProvider (Some (ToolkitOf a)) (MiddlewareKit a))"

definition activeGroups :: "('m, 'o, 'x) run \<Rightarrow> string list" where
  "activeGroups r = activeGroupsFromState (Some (AState r))"

section \<open>Tool calls of the running message\<close>

fun block_call :: "block option \<Rightarrow> tool_call option" where
  "block_call (Some (ToolCallBlock i n inp st rs x)) =
     Some \<lparr>CallID = i, CallName = n, CallInput = inp, CallState = st, CallRules = rs, CallExtra = x\<rparr>"
| "block_call bo = None"

definition call_at :: "nat \<Rightarrow> ('m, 'o, 'x) run \<Rightarrow> tool_call option" where
  "call_at k r =
     (case assistant_of r of
        None \<Rightarrow> None
      | Some m \<Rightarrow> if k < length (Content m) then block_call (Content m ! k) else None)"

definition put_call :: "nat \<Rightarrow> tool_call \<Rightarrow> ('m, 'o, 'x) run \<Rightarrow> ('m, 'o, 'x) run" where
  "put_call k c r =
     (case assistant_of r of
        None \<Rightarrow> r
      | Some m \<Rightarrow> put_assistant (m\<lparr>Content := (Content m)[k := Some (call_block c)]\<rparr>) r)"

text \<open>Writing a field of the call through its pointer.\<close>

definition edit_call :: "nat \<Rightarrow> (tool_call \<Rightarrow> tool_call) \<Rightarrow> ('m, 'o, 'x, unit) act" where
  "edit_call k f = act_modify (\<lambda>r. case call_at k r of None \<Rightarrow> r | Some c \<Rightarrow> put_call k (f c) r)"

definition set_state :: "nat \<Rightarrow> ToolCallState \<Rightarrow> ('m, 'o, 'x, unit) act" where
  "set_state k s = edit_call k (\<lambda>c. c\<lparr>CallState := s\<rparr>)"

text \<open>
  \<open>pendingToolCalls\<close>: the calls the loop may take up, by their place. A call with a result of its
  identifier is done.
\<close>

definition pending_place :: "message \<Rightarrow> nat \<Rightarrow> bool" where
  "pending_place m k \<longleftrightarrow>
     (case block_call (Content m ! k) of
        None \<Rightarrow> False
      | Some c \<Rightarrow> CallID c \<notin> set (map (BlockID \<circ> the) (GetContentBlocks (Content m) [''tool_result'']))
          \<and> CallState c \<in> {ToolCallPending, ToolCallAllowed})"

definition pendingToolCalls :: "message option \<Rightarrow> nat list" where
  "pendingToolCalls mo =
     (case mo of None \<Rightarrow> [] | Some m \<Rightarrow> filter (pending_place m) [0..<length (Content m)])"

section \<open>Audit records\<close>

definition securityAuditErrorSummary :: "string \<Rightarrow> string" where
  "securityAuditErrorSummary t = take 512 (TrimSpace t)"

definition audit_record :: "SecurityAuditEventType \<Rightarrow> agent_tool option \<Rightarrow> tool_call \<Rightarrow> string
    \<Rightarrow> agent_state \<Rightarrow> audit_event" where
  "audit_record typ t c txt st =
     (let n = (case t of None \<Rightarrow> [] | Some t \<Rightarrow> ToolNameOf (ATool t)) in
      \<lparr>AuditType = typ, AuditToolName = (if n = [] then CallName c else n),
       AuditMCPName = (case t of None \<Rightarrow> [] | Some t \<Rightarrow> MCPName t),
       AuditReplyID = StateReplyID st, AuditSessionID = SessionID st,
       AuditError = securityAuditErrorSummary txt\<rparr>)"

definition auditToolSecurityEvent :: "('x, 'z) agent_core_scheme \<Rightarrow> SecurityAuditEventType
    \<Rightarrow> agent_tool option \<Rightarrow> tool_call \<Rightarrow> string \<Rightarrow> ('m, 'o, 'x, unit) act" where
  "auditToolSecurityEvent a typ t c txt =
     act_modify (\<lambda>r. case AuditLogger a of
         None \<Rightarrow> r
       | Some logger \<Rightarrow> r\<lparr>Outer := logger (audit_record typ t c txt (AState r)) (Outer r)\<rparr>)"

section \<open>Tool output\<close>

definition emit_text_delta :: "'x sink \<Rightarrow> tool_call \<Rightarrow> string \<Rightarrow> ('m, 'o, 'x, unit) act" where
  "emit_text_delta emit c t = emit_new emit (\<lambda>w rid. NewToolResultTextDeltaEvent w rid (CallID c) t)"

definition emit_result_end :: "'x sink \<Rightarrow> tool_call \<Rightarrow> ToolResultState \<Rightarrow> gmap option option
    \<Rightarrow> ('m, 'o, 'x, unit) act" where
  "emit_result_end emit c s md = emit_new emit (\<lambda>w rid. NewToolResultEndEvent w rid (CallID c) s md)"

definition emitToolExecutionError :: "'x sink \<Rightarrow> tool_call \<Rightarrow> string \<Rightarrow> ToolResultState
    \<Rightarrow> ('m, 'o, 'x, unit) act" where
  "emitToolExecutionError emit c t s =
     act_then (if t \<noteq> [] then emit_text_delta emit c t else act_ret ()) (emit_result_end emit c s None)"

definition emit_result_start :: "'x sink \<Rightarrow> tool_call \<Rightarrow> ('m, 'o, 'x, unit) act" where
  "emit_result_start emit c = emit_new emit (\<lambda>w rid. NewToolResultStartEvent w rid (CallID c) (CallName c))"

definition emitToolError :: "'x sink \<Rightarrow> tool_call \<Rightarrow> string \<Rightarrow> ToolResultState \<Rightarrow> ('m, 'o, 'x, unit) act" where
  "emitToolError emit c t s = act_then (emit_result_start emit c) (emitToolExecutionError emit c t s)"

fun emitToolResultData :: "'x sink \<Rightarrow> tool_call \<Rightarrow> string \<Rightarrow> data_source option \<Rightarrow> ('m, 'o, 'x, unit) act" where
  "emitToolResultData emit c b (Some (Base64Source d mt)) =
     emit_new emit (\<lambda>w rid. NewToolResultDataDeltaEvent w rid (CallID c) b mt d [])"
| "emitToolResultData emit c b (Some (URLSource u mt)) =
     emit_new emit (\<lambda>w rid. NewToolResultDataDeltaEvent w rid (CallID c) b mt [] u)"
| "emitToolResultData emit c b None = act_ret ()"

fun emit_chunk_block :: "'x sink \<Rightarrow> tool_call \<Rightarrow> block option \<Rightarrow> ('m, 'o, 'x, unit) act" where
  "emit_chunk_block emit c (Some (TextBlock t i)) = emit_text_delta emit c t"
| "emit_chunk_block emit c (Some (DataBlock i src n)) = emitToolResultData emit c i src"
| "emit_chunk_block emit c bo = act_ret ()"

definition emitToolChunk :: "'x sink \<Rightarrow> tool_call \<Rightarrow> tool_chunk \<Rightarrow> ('m, 'o, 'x, unit) act" where
  "emitToolChunk emit c chunk = act_each (emit_chunk_block emit c) (ChunkContent chunk)"

definition mergeToolResultMetadata :: "gmap \<Rightarrow> gmap option \<Rightarrow> gmap" where
  "mergeToolResultMetadata target md =
     (case md of None \<Rightarrow> target | Some kvs \<Rightarrow> gmap_merge target (map (\<lambda>p. (fst p, CloneAny (snd p))) kvs))"

text \<open>The state and metadata a stream of chunks ends with.\<close>

definition final_state :: "tool_chunk list \<Rightarrow> ToolResultState" where
  "final_state cs = fold (\<lambda>c s. if ChunkState c \<noteq> ToolResultOther [] then ChunkState c else s) cs ToolResultSuccess"

definition final_metadata :: "tool_chunk list \<Rightarrow> gmap" where
  "final_metadata cs = fold (\<lambda>c md. mergeToolResultMetadata md (ChunkMetadata c)) cs []"

definition emit_chunks :: "('x, 'z) agent_core_scheme \<Rightarrow> 'x sink \<Rightarrow> agent_tool option \<Rightarrow> tool_call
    \<Rightarrow> tool_chunk list \<Rightarrow> ('m, 'o, 'x, unit) act" where
  "emit_chunks a emit t c cs =
     act_then (act_each (emitToolChunk emit c) cs)
     (act_then
       (if final_state cs = ToolResultError
        then auditToolSecurityEvent a ToolExecutionError t c ''tool returned error state''
        else act_ret ())
       (emit_result_end emit c (final_state cs) (Some (Some (final_metadata cs)))))"

section \<open>Running a tool\<close>

text \<open>
  The call of the provider behind the acting hooks. The conversation and the iteration counter are
  those from before the call.
\<close>

definition provider_step :: "('x, 'z) agent_core_scheme \<Rightarrow> tool_call \<Rightarrow> 'x tool_step" where
  "provider_step a c = (\<lambda>(st, w, x).
     go_bind (PCall (provider_of a) (Some c) st w x) (\<lambda>((res, st), w, x). Ret (res, st, w, x)))"

definition applyActingHooks :: "('x, 'z) agent_core_scheme \<Rightarrow> tool_call \<Rightarrow> 'x tool_step" where
  "applyActingHooks a c = apply_hooks (map (\<lambda>hook. hook c) (ActingHooks a)) (provider_step a c)"

definition after_tool :: "agent_state \<Rightarrow> agent_state \<Rightarrow> agent_state" where
  "after_tool st st' = st'\<lparr>SessionID := SessionID st, Messages := Messages st,
     StateReplyID := StateReplyID st, CurIter := CurIter st\<rparr>"

definition call_tool :: "('x, 'z) agent_core_scheme \<Rightarrow> tool_call
    \<Rightarrow> ('m, 'o, 'x, error + tool_chunk list option) act" where
  "call_tool a c = act_go (\<lambda>r.
     go_bind (applyActingHooks a c (AState r, Supply (World r), Outer r)) (\<lambda>(res, st, w, x).
       Ret (res, (put_supply w r)\<lparr>AState := after_tool (AState r) st, Outer := x,
                                 Trace := Trace r @ [Ran c]\<rparr>)))"

definition fail_execution :: "('x, 'z) agent_core_scheme \<Rightarrow> 'x sink \<Rightarrow> agent_tool option \<Rightarrow> tool_call
    \<Rightarrow> string \<Rightarrow> ('m, 'o, 'x, unit) act" where
  "fail_execution a emit t c txt =
     act_then (auditToolSecurityEvent a ToolExecutionError t c txt)
              (emitToolExecutionError emit c txt ToolResultError)"

definition executeLocalTool :: "('x, 'z) agent_core_scheme \<Rightarrow> 'x sink \<Rightarrow> nat \<Rightarrow> ('m, 'o, 'x, unit) act" where
  "executeLocalTool a emit k =
     act_bind (act_get (call_at k)) (\<lambda>co. case co of
         None \<Rightarrow> act_ret ()
       | Some c \<Rightarrow>
           act_bind (call_tool a c) (\<lambda>res. case res of
               Inl e \<Rightarrow> fail_execution a emit None c (error_text e)
             | Inr cso \<Rightarrow> (case cso of
                   None \<Rightarrow> fail_execution a emit None c ''tool returned nil chunk stream''
                 | Some cs \<Rightarrow> emit_chunks a emit None c cs)))"

subsection \<open>A batch\<close>

type_synonym plan = "agent_tool \<times> nat"

definition chunk_Clone :: "tool_chunk \<Rightarrow> tool_chunk go" where
  "chunk_Clone c = go_bind (clone_list (ChunkContent c)) (\<lambda>bs.
     Ret (c\<lparr>ChunkContent := bs, ChunkMetadata := CloneAnyMap (ChunkMetadata c)\<rparr>))"

fun clone_chunks :: "tool_chunk list \<Rightarrow> tool_chunk list go" where
  "clone_chunks [] = Ret []"
| "clone_chunks (c # cs) =
     go_bind (chunk_Clone c) (\<lambda>c. go_bind (clone_chunks cs) (\<lambda>cs. Ret (c # cs)))"

definition collectLocalToolChunks :: "('x, 'z) agent_core_scheme \<Rightarrow> tool_call
    \<Rightarrow> ('m, 'o, 'x, error + tool_chunk list) act" where
  "collectLocalToolChunks a c =
     act_bind (call_tool a c) (\<lambda>res. case res of
         Inl e \<Rightarrow> act_ret (Inl e)
       | Inr cso \<Rightarrow> (case cso of
             None \<Rightarrow> act_ret (Inl (Err ''tool returned nil chunk stream''))
           | Some cs \<Rightarrow> act_go (\<lambda>r. go_bind (clone_chunks cs) (\<lambda>cs. Ret (Inr cs, r)))))"

text \<open>
  The goroutines of a batch, one after the other in the order the scheduler chose; each stores its
  result at its own index. An order that does not name every plan once is read as the plans' own.
\<close>

definition schedule :: "('x, 'z) agent_core_scheme \<Rightarrow> nat \<Rightarrow> nat list" where
  "schedule a n = (if distinct (BatchOrder a n) \<and> set (BatchOrder a n) = {0..<n} then BatchOrder a n else [0..<n])"

fun run_batch :: "('x, 'z) agent_core_scheme \<Rightarrow> plan list \<Rightarrow> nat list
    \<Rightarrow> (nat \<Rightarrow> (error + tool_chunk list) option) \<Rightarrow> ('m, 'o, 'x, nat \<Rightarrow> (error + tool_chunk list) option) act" where
  "run_batch a plans [] results = act_ret results"
| "run_batch a plans (i # rest) results =
     act_bind (act_get (call_at (snd (plans ! i)))) (\<lambda>co. case co of
         None \<Rightarrow> run_batch a plans rest results
       | Some c \<Rightarrow> act_bind (collectLocalToolChunks a c) (\<lambda>res.
           run_batch a plans rest (results(i \<mapsto> res))))"

definition emit_batch_result :: "('x, 'z) agent_core_scheme \<Rightarrow> 'x sink \<Rightarrow> plan list
    \<Rightarrow> (nat \<Rightarrow> (error + tool_chunk list) option) \<Rightarrow> nat \<Rightarrow> ('m, 'o, 'x, unit) act" where
  "emit_batch_result a emit plans results i =
     act_bind (act_get (call_at (snd (plans ! i)))) (\<lambda>co. case co of
         None \<Rightarrow> act_ret ()
       | Some c \<Rightarrow> (case results i of
             None \<Rightarrow> act_ret ()
           | Some res \<Rightarrow> (case res of
               Inl e \<Rightarrow> fail_execution a emit (Some (fst (plans ! i))) c (error_text e)
             | Inr cs \<Rightarrow> emit_chunks a emit (Some (fst (plans ! i))) c cs)))"

definition executeLocalToolBatch :: "('x, 'z) agent_core_scheme \<Rightarrow> 'x sink \<Rightarrow> plan list \<Rightarrow> ('m, 'o, 'x, unit) act" where
  "executeLocalToolBatch a emit plans =
     act_bind (run_batch a plans (schedule a (length plans)) Map.empty) (\<lambda>results.
       act_each (emit_batch_result a emit plans results) [0..<length plans])"

section \<open>Preparing a call\<close>

definition note_check :: "tool_call \<Rightarrow> decision \<Rightarrow> ('m, 'o, 'x, unit) act" where
  "note_check c d = act_modify (\<lambda>r. r\<lparr>Trace := Trace r @ [Checked c (AState r) d]\<rparr>)"

definition confirmed_decision :: decision where
  "confirmed_decision = mk_decision BehaviorAllow ''Already allowed by user confirmation.'' []"

definition permission_engine :: "('x, 'z) agent_core_scheme \<Rightarrow> agent_state \<Rightarrow> tool_call \<Rightarrow> engine" where
  "permission_engine a st c =
     (case PermissionClassifier a of
        None \<Rightarrow> NewEngine (PermissionContext st) None []
      | Some cl \<Rightarrow> NewEngine (PermissionContext st) (Some cl)
          (buildAutoPermissionTranscript (marshalled a) (UnmarshalGo a) (Messages st) (CallID c)))"

definition ask_engine :: "('x, 'z) agent_core_scheme \<Rightarrow> agent_state \<Rightarrow> tool_call \<Rightarrow> agent_tool \<Rightarrow> gmap
    \<Rightarrow> (error + decision) \<times> engine" where
  "ask_engine a st c t input =
     CheckPermission (marshalled a) (permission_engine a st c) (Some (ATool t)) (Some input)"

text \<open>The engine works on the agent's own permission context, which it changes.\<close>

definition decide :: "('x, 'z) agent_core_scheme \<Rightarrow> tool_call \<Rightarrow> agent_tool \<Rightarrow> gmap \<Rightarrow> ('m, 'o, 'x, decision) act" where
  "decide a c t input =
     (if CallState c = ToolCallAllowed
      then act_then (note_check c confirmed_decision) (act_ret confirmed_decision)
      else act_bind (act_get (\<lambda>r. ask_engine a (AState r) c t input)) (\<lambda>(res, e).
        act_then (case res of Inl err \<Rightarrow> act_ret () | Inr d \<Rightarrow> note_check c d)
        (act_then (act_modify (\<lambda>r. r\<lparr>AState := (AState r)\<lparr>PermissionContext :=
            map_option (\<lambda>p. Context e) (PermissionContext (AState r))\<rparr>\<rparr>))
          (case res of Inl err \<Rightarrow> act_fail err | Inr d \<Rightarrow> act_ret d))))"

definition update_input :: "('x, 'z) agent_core_scheme \<Rightarrow> nat \<Rightarrow> decision \<Rightarrow> ('m, 'o, 'x, unit) act" where
  "update_input a k d =
     (case UpdatedInput d of
        None \<Rightarrow> act_ret ()
      | Some m \<Rightarrow> (case MarshalGo a (VMap m) of
            Inl e \<Rightarrow> act_fail e
          | Inr s \<Rightarrow> edit_call k (\<lambda>c. c\<lparr>CallInput := s\<rparr>)))"

text \<open>The events that stop the reply carry a copy of the call as it is then.\<close>

definition emit_with_call :: "'x sink \<Rightarrow> nat \<Rightarrow> (env \<Rightarrow> string \<Rightarrow> tool_call option list \<Rightarrow> event \<times> env)
    \<Rightarrow> ('m, 'o, 'x, unit) act" where
  "emit_with_call emit k mk =
     act_bind (act_get (call_at k)) (\<lambda>co. emit_new emit (\<lambda>w rid. mk w rid [co]))"

definition ask_user :: "('x, 'z) agent_core_scheme \<Rightarrow> 'x sink \<Rightarrow> nat \<Rightarrow> tool_call \<Rightarrow> agent_tool \<Rightarrow> decision
    \<Rightarrow> ('m, 'o, 'x, unit) act" where
  "ask_user a emit k c t d =
     act_then (auditToolSecurityEvent a PermissionRequired (Some t) c (DecMessage d))
     (act_then (edit_call k (\<lambda>c. c\<lparr>CallState := ToolCallAsking, CallRules := SuggestedRules d\<rparr>))
       (emit_with_call emit k NewRequireUserConfirmEvent))"

definition refuse :: "('x, 'z) agent_core_scheme \<Rightarrow> 'x sink \<Rightarrow> nat \<Rightarrow> tool_call \<Rightarrow> agent_tool \<Rightarrow> decision
    \<Rightarrow> ('m, 'o, 'x, unit) act" where
  "refuse a emit k c t d =
     act_then (auditToolSecurityEvent a PermissionDenied (Some t) c (DecMessage d))
     (act_then (set_state k ToolCallFinished)
       (emitToolError emit c (DecMessage d) ToolResultDenied))"

definition accept :: "'x sink \<Rightarrow> nat \<Rightarrow> tool_call \<Rightarrow> agent_tool \<Rightarrow> ('m, 'o, 'x, plan option \<times> bool) act" where
  "accept emit k c t =
     act_then (set_state k ToolCallAllowed)
     (act_then (emit_result_start emit c)
       (if IsExternal t
        then act_then (set_state k ToolCallSubmitted)
             (act_then (emit_with_call emit k NewRequireExternalExecutionEvent) (act_ret (None, True)))
        else act_ret (Some (t, k), False)))"

definition settle :: "('x, 'z) agent_core_scheme \<Rightarrow> 'x sink \<Rightarrow> nat \<Rightarrow> tool_call \<Rightarrow> agent_tool \<Rightarrow> decision
    \<Rightarrow> ('m, 'o, 'x, plan option \<times> bool) act" where
  "settle a emit k c t d =
     (case DecBehavior d of
        BehaviorAsk \<Rightarrow> act_then (ask_user a emit k c t d) (act_ret (None, True))
      | BehaviorPassthrough \<Rightarrow> act_then (ask_user a emit k c t d) (act_ret (None, True))
      | BehaviorDeny \<Rightarrow> act_then (refuse a emit k c t d) (act_ret (None, False))
      | BehaviorAllow \<Rightarrow> accept emit k c t
      | BehaviorOther b \<Rightarrow> act_fail (Err (''agentscope: unsupported permission behavior '' @ go_quote b)))"

definition prepare_found :: "('x, 'z) agent_core_scheme \<Rightarrow> 'x sink \<Rightarrow> nat \<Rightarrow> tool_call \<Rightarrow> agent_tool
    \<Rightarrow> ('m, 'o, 'x, plan option \<times> bool) act" where
  "prepare_found a emit k c t =
     (case LoadObject (UnmarshalGo a) (CallInput c) of
        Inl e \<Rightarrow> act_then (emitToolError emit c (error_text e) ToolResultError) (act_ret (None, False))
      | Inr input \<Rightarrow>
          act_bind (decide a c t input) (\<lambda>d.
            act_then (update_input a k d) (settle a emit k c t d)))"

definition find_tool :: "('x, 'z) agent_core_scheme \<Rightarrow> string \<Rightarrow> ('m, 'o, 'x, agent_tool option) act" where
  "find_tool a n = act_go (\<lambda>r. go_bind (PFind (provider_of a) n (activeGroups r)) (\<lambda>t. Ret (t, r)))"

definition prepareToolCall :: "('x, 'z) agent_core_scheme \<Rightarrow> 'x sink \<Rightarrow> nat
    \<Rightarrow> ('m, 'o, 'x, plan option \<times> bool) act" where
  "prepareToolCall a emit k =
     act_bind (act_get (call_at k)) (\<lambda>co. case co of
         None \<Rightarrow> act_ret (None, False)
       | Some c \<Rightarrow>
           act_bind (find_tool a (CallName c)) (\<lambda>to. case to of
               None \<Rightarrow> act_then (emitToolError emit c (''tool '' @ CallName c @ '' not found'') ToolResultError)
                               (act_ret (None, False))
             | Some t \<Rightarrow> prepare_found a emit k c t))"

section \<open>The phase\<close>

definition executeToolCall :: "('x, 'z) agent_core_scheme \<Rightarrow> 'x sink \<Rightarrow> nat \<Rightarrow> ('m, 'o, 'x, bool) act" where
  "executeToolCall a emit k =
     act_bind (prepareToolCall a emit k) (\<lambda>(plan, waiting).
       if waiting \<or> plan = None then act_ret waiting
       else act_then (executeLocalTool a emit k)
            (act_then (set_state k ToolCallFinished) (act_ret False)))"

text \<open>The batch runner's only state is its batch, which each step returns.\<close>

definition flush :: "('x, 'z) agent_core_scheme \<Rightarrow> 'x sink \<Rightarrow> plan list \<Rightarrow> ('m, 'o, 'x, plan list) act" where
  "flush a emit batch =
     (if batch = [] then act_ret []
      else act_then (executeLocalToolBatch a emit batch)
           (act_then (act_each (\<lambda>p. set_state (snd p) ToolCallFinished) batch) (act_ret [])))"

definition flushBeforeIfNeeded :: "('x, 'z) agent_core_scheme \<Rightarrow> 'x sink \<Rightarrow> plan list \<Rightarrow> nat
    \<Rightarrow> ('m, 'o, 'x, plan list) act" where
  "flushBeforeIfNeeded a emit batch k =
     (if batch = [] then act_ret []
      else act_bind (act_get (call_at k)) (\<lambda>co. case co of
          None \<Rightarrow> act_ret batch
        | Some c \<Rightarrow> act_bind (find_tool a (CallName c)) (\<lambda>to. case to of
              None \<Rightarrow> flush a emit batch
            | Some t \<Rightarrow> if \<not> IsExternal t \<and> ConcurrencySafe t then act_ret batch else flush a emit batch)))"

definition take_up :: "('x, 'z) agent_core_scheme \<Rightarrow> 'x sink \<Rightarrow> plan list \<Rightarrow> plan
    \<Rightarrow> ('m, 'o, 'x, plan list) act" where
  "take_up a emit batch plan =
     (if ConcurrencySafe (fst plan) then act_ret (batch @ [plan])
      else act_bind (flush a emit batch) (\<lambda>batch.
        act_then (executeLocalTool a emit (snd plan))
        (act_then (set_state (snd plan) ToolCallFinished) (act_ret batch))))"

definition handle :: "('x, 'z) agent_core_scheme \<Rightarrow> 'x sink \<Rightarrow> plan list \<Rightarrow> nat
    \<Rightarrow> ('m, 'o, 'x, bool \<times> plan list) act" where
  "handle a emit batch k =
     act_bind (flushBeforeIfNeeded a emit batch k) (\<lambda>batch.
       act_bind (prepareToolCall a emit k) (\<lambda>(plan, waiting).
         if waiting then act_bind (flush a emit batch) (\<lambda>batch. act_ret (True, batch))
         else case plan of
           None \<Rightarrow> act_ret (False, batch)
         | Some p \<Rightarrow> act_bind (take_up a emit batch p) (\<lambda>batch. act_ret (False, batch))))"

fun handle_all :: "('x, 'z) agent_core_scheme \<Rightarrow> 'x sink \<Rightarrow> plan list \<Rightarrow> nat list \<Rightarrow> ('m, 'o, 'x, bool) act" where
  "handle_all a emit batch [] = act_bind (flush a emit batch) (\<lambda>b. act_ret False)"
| "handle_all a emit batch (k # ks) =
     act_bind (handle a emit batch k) (\<lambda>(waiting, batch).
       if waiting then act_ret True else handle_all a emit batch ks)"

definition runActing :: "('x, 'z) agent_core_scheme \<Rightarrow> 'x sink \<Rightarrow> nat list \<Rightarrow> ('m, 'o, 'x, bool) act" where
  "runActing a emit ks =
     (case ks of
        [k] \<Rightarrow> executeToolCall a emit k
      | ks \<Rightarrow> handle_all a emit [] ks)"

end
