(* ===== verification/Acting_Safety.thy ===== *)
theory Acting_Safety
  imports Agent_Acting
begin

text \<open>
  What the acting phase runs: every call it hands to the tool provider was allowed by the permission
  engine or confirmed by the user, and goes there with the arguments that were allowed. The proof
  follows the identifiers, names and arguments of the calls of the running message, which no event
  of the phase changes, and the trace of checks and runs.
\<close>

section \<open>Call signatures\<close>

type_synonym call_sig = "string \<times> string \<times> string"

definition sig_of :: "tool_call \<Rightarrow> call_sig" where
  "sig_of c = (CallID c, CallName c, CallInput c)"

definition block_sig :: "block option \<Rightarrow> call_sig option" where
  "block_sig bo = map_option sig_of (block_call bo)"

definition sigs :: "message \<Rightarrow> call_sig option list" where
  "sigs m = map block_sig (Content m)"

definition calls :: "('m, 'o, 'x) run \<Rightarrow> call_sig option list" where
  "calls r = (case assistant_of r of None \<Rightarrow> [] | Some m \<Rightarrow> sigs m)"

lemma block_sig_call [simp]:
  "block_sig None = None"
  "block_sig (Some (ToolCallBlock i n inp st rs x)) = Some (i, n, inp)"
  "block_sig (Some (call_block c)) = Some (sig_of c)"
  by (simp_all add: block_sig_def sig_of_def call_block_def)

lemma block_sig_other: "BlockType b \<noteq> ''tool_call'' \<Longrightarrow> block_sig (Some b) = None"
  by (cases b) (simp_all add: block_sig_def)

lemma sigs_append [simp]: "sigs (append_block b m) = sigs m @ [block_sig (Some b)]"
  by (simp add: sigs_def append_block_def)

lemma sigs_edit:
  assumes "\<And>b. BlockType b = typ \<Longrightarrow> block_sig (Some (f b)) = block_sig (Some b)"
  shows "sigs (edit_block typ i f m) = sigs m"
proof -
  have "block_sig (map_option f x) = block_sig x" if "block_matches typ i x" for x
    using that assms by (cases x) (auto simp: block_matches_def)
  then show ?thesis by (simp add: sigs_def edit_block_def map_update_first)
qed

lemma sig_set_state [simp]: "block_sig (Some (set_call_state s b)) = block_sig (Some b)"
  by (cases b) (simp_all add: block_sig_def sig_of_def)

lemma sig_ask [simp]: "block_sig (Some (ask_call rs b)) = block_sig (Some b)"
  by (cases b) (simp_all add: block_sig_def sig_of_def)

lemma sig_end_result [simp]: "block_sig (Some (end_result s md b)) = block_sig (Some b)"
  by (cases b) (simp_all add: block_sig_def)

lemma sigs_requireUserConfirm: "requireUserConfirm m cs = Ret m' \<Longrightarrow> sigs m' = sigs m"
  by (induction m cs rule: requireUserConfirm.induct) (auto simp: sigs_edit)

lemma sigs_requireExternal: "sigs (requireExternalExecution m cs) = sigs m"
  by (induction m cs rule: requireExternalExecution.induct) (auto simp: sigs_edit)

text \<open>The events of the acting phase.\<close>

fun acting_body :: "event_body \<Rightarrow> bool" where
  "acting_body (ToolResultStart i n) = True"
| "acting_body (ToolResultTextDelta i d) = True"
| "acting_body (ToolResultDataDelta i b mt d u) = True"
| "acting_body (ToolResultEnd i s md) = True"
| "acting_body (RequireUserConfirm cs) = True"
| "acting_body (RequireExternalExecution cs) = True"
| "acting_body b = False"

lemma sigs_result_event:
  assumes "applyToolResultEvent w m e = Ret ((h, m'), w')"
    and "(\<exists>i d. Body e = ToolResultTextDelta i d) \<or> (\<exists>i b mt d u. Body e = ToolResultDataDelta i b mt d u)"
  shows "sigs m' = sigs m"
proof -
  have edit: "sigs (edit_block ''tool_result'' i (\<lambda>u. b') m) = sigs m"
    if "BlockType b' = ''tool_result''" for i b'
    using that by (intro sigs_edit) (simp add: block_sig_other)
  have tx: "BlockType b' = ''tool_result''"
    if "FindBlock (Content m) ''tool_result'' i = Some b" "appendToolResultText w b d = Ret (b', w')" for i b d b' w'
    using FindBlock_Some [OF that(1)] appendToolResultText_key [OF that(2)] by simp
  have dat: "BlockType b' = ''tool_result''"
    if "FindBlock (Content m) ''tool_result'' i = Some b" "appendToolResultData w b bid mt d u = (b', w')"
    for i b bid mt d u b' w'
    using FindBlock_Some [OF that(1)] appendToolResultData_key [OF that(2)] by simp
  show ?thesis
    using assms edit tx dat
    by (fastforce simp: applyToolResultEvent_def go_bind_eq_Ret split: option.splits prod.splits)
qed

lemma sigs_acting_event:
  assumes "ApplyEvent w m (Some e) = Ret ((err, m'), w')" and "acting_body (Body e)"
  shows "prefix (sigs m) (sigs m')"
proof (cases "ReplyID e = MsgID m")
  case False
  with assms(1) show ?thesis by (simp add: ApplyEvent_foreign)
next
  case True
  show ?thesis
  proof (cases "Body e")
    case (ToolResultTextDelta i d)
    with assms(1) obtain h where "applyToolResultEvent w m e = Ret ((h, m'), w')"
      by (auto simp: ApplyEvent_own [OF True] go_bind_eq_Ret)
    from sigs_result_event [OF this] ToolResultTextDelta show ?thesis by auto
  next
    case (ToolResultDataDelta i b mt d u)
    with assms(1) obtain h where "applyToolResultEvent w m e = Ret ((h, m'), w')"
      by (auto simp: ApplyEvent_own [OF True] go_bind_eq_Ret)
    from sigs_result_event [OF this] ToolResultDataDelta show ?thesis by auto
  next
    case (RequireUserConfirm cs)
    with assms(1) show ?thesis
      by (auto simp: ApplyEvent_own [OF True] go_bind_eq_Ret dest: sigs_requireUserConfirm)
  qed (use assms in \<open>auto simp: ApplyEvent_own [OF True] sigs_edit sigs_requireExternal\<close>)
qed

section \<open>Steps that change neither the trace nor a call\<close>

definition framed :: "('m, 'o, 'x, 'a) act \<Rightarrow> bool" where
  "framed m \<longleftrightarrow> (\<forall>T S. keeps (\<lambda>r. Trace r = T \<and> prefix S (calls r)) m)"

named_theorems framed "steps that change neither the trace nor a call's signature"

lemma framed_ret [framed]: "framed (act_ret x)"
  by (simp add: framed_def hoare_ret)

lemma framed_fail [framed]: "framed (act_fail e)"
  by (simp add: framed_def hoare_fail)

lemma framed_get [framed]: "framed (act_get f)"
  by (simp add: framed_def hoare_get)

lemma framed_bind [framed]: "framed m \<Longrightarrow> (\<And>x. framed (f x)) \<Longrightarrow> framed (act_bind m f)"
  unfolding framed_def by (blast intro: keeps_bind)

lemma framed_then [framed]: "framed m \<Longrightarrow> framed n \<Longrightarrow> framed (act_then m n)"
  unfolding framed_def by (blast intro: keeps_then)

lemma framed_if [framed]: "(b \<Longrightarrow> framed m) \<Longrightarrow> (\<not> b \<Longrightarrow> framed n) \<Longrightarrow> framed (if b then m else n)"
  by simp

lemma framed_each [framed]: "(\<And>b. framed (f b)) \<Longrightarrow> framed (act_each f bs)"
  unfolding framed_def by (blast intro: hoare_each)

lemma framed_option [framed]:
  "framed f \<Longrightarrow> (\<And>x. framed (g x)) \<Longrightarrow> framed (case s of None \<Rightarrow> f | Some x \<Rightarrow> g x)"
  by (cases s) simp_all

lemma framed_sum [framed]:
  "(\<And>e. framed (f e)) \<Longrightarrow> (\<And>x. framed (g x)) \<Longrightarrow> framed (case s of Inl e \<Rightarrow> f e | Inr x \<Rightarrow> g x)"
  by (cases s) simp_all

text \<open>Such a step keeps what holds of the trace and, upward, of the calls.\<close>

definition upward :: "(act_step list \<Rightarrow> call_sig option list \<Rightarrow> bool) \<Rightarrow> bool" where
  "upward F \<longleftrightarrow> (\<forall>T S S'. F T S \<longrightarrow> prefix S S' \<longrightarrow> F T S')"

lemma framed_keeps:
  assumes "framed m" and "upward F"
  shows "keeps (\<lambda>r. F (Trace r) (calls r)) m"
  unfolding hoare_def
proof (intro allI impI)
  fix r x r'
  assume F: "F (Trace r) (calls r)" and run: "m r = Ret (Some (x, r'))"
  have "Trace r' = Trace r \<and> prefix (calls r) (calls r')"
    using assms(1) keepsD [of "\<lambda>q. Trace q = Trace r \<and> prefix (calls r) (calls q)" m r x r'] run
    unfolding framed_def by blast
  with F assms(2) have "F (Trace r') (calls r')" by (auto simp: upward_def)
  then show "case x of Inl e \<Rightarrow> F (Trace r') (calls r') | Inr y \<Rightarrow> F (Trace r') (calls r')"
    by (simp split: sum.split)
qed

lemma calls_put_supply [simp]: "calls (put_supply w r) = calls r"
  by (simp add: calls_def put_supply_def assistant_of_def split: option.split)

lemma calls_outer [simp]: "calls (r\<lparr>Outer := x\<rparr>) = calls r" "calls (r\<lparr>Trace := T\<rparr>) = calls r"
  by (simp_all add: calls_def assistant_of_def split: option.split)

lemma assistant_put: "assistant_of r = Some m0 \<Longrightarrow> assistant_of (put_assistant m r) = Some m"
  by (auto simp: assistant_of_def put_assistant_def split: option.splits if_splits)

lemma assistant_put_supply [simp]: "assistant_of (put_supply w r) = assistant_of r"
  by (simp add: assistant_of_def put_supply_def split: option.split)

lemma calls_put: "assistant_of r = Some m0 \<Longrightarrow> calls (put_assistant m r) = sigs m"
  by (simp add: calls_def assistant_put)

lemma framed_apply:
  assumes "acting_body (Body ev)"
  shows "framed (apply_to_assistant ev)"
  unfolding framed_def apply_to_assistant_def
proof (intro allI hoare_try)
  fix T S r x r'
  assume P: "Trace r = T \<and> prefix S (calls r)"
    and run: "(case assistant_of r of
        None \<Rightarrow> Ret (Inr (), r)
      | Some m \<Rightarrow>
          go_bind (ApplyEvent (Supply (World r)) m (Some ev)) (\<lambda>((e, m), w).
            Ret (case e of None \<Rightarrow> Inr () | Some e \<Rightarrow> Inl e, put_assistant m (put_supply w r)))) = Ret (x, r')"
  have "Trace r' = T \<and> prefix S (calls r')"
  proof (cases "assistant_of r")
    case None
    with run P show ?thesis by simp
  next
    case (Some m)
    with run obtain e m' w where ev: "ApplyEvent (Supply (World r)) m (Some ev) = Ret ((e, m'), w)"
        and r': "r' = put_assistant m' (put_supply w r)"
      by (auto simp: go_bind_eq_Ret)
    have "prefix (sigs m) (sigs m')" by (rule sigs_acting_event [OF ev assms])
    moreover have "calls r = sigs m" using Some by (simp add: calls_def)
    moreover have "calls r' = sigs m'" using Some r' by (simp add: calls_put [of _ m])
    ultimately show ?thesis using P r' by (auto dest: prefix_order.trans)
  qed
  then show "case x of Inl e \<Rightarrow> Trace r' = T \<and> prefix S (calls r') | Inr y \<Rightarrow> Trace r' = T \<and> prefix S (calls r')"
    by (simp split: sum.split)
qed

lemma framed_hand_over [framed]: "framed (hand_over emit ev)"
  unfolding framed_def hand_over_def
  by (intro allI hoare_try) (auto split: option.splits sum.splits prod.splits)

lemma framed_emit: "acting_body (Body ev) \<Longrightarrow> framed (emitAndApply emit ev)"
  unfolding emitAndApply_def by (intro framed framed_apply)

lemma framed_emit_new:
  assumes "\<And>w rid. acting_body (Body (fst (mk w rid)))"
  shows "framed (emit_new emit mk)"
  unfolding framed_def emit_new_def
proof (intro allI)
  fix T S
  let ?P = "\<lambda>r. Trace r = T \<and> prefix S (calls r)"
  have "hoare ?P (make_event mk) (\<lambda>ev r. ?P r \<and> acting_body (Body ev)) ?P"
    unfolding make_event_def
  proof (rule hoare_go)
    fix r x r'
    assume "?P r" and "(let (ev, w) = mk (Supply (World r)) (StateReplyID (AState r)) in Ret (ev, put_supply w r)) = Ret (x, r')"
    with assms [of "Supply (World r)" "StateReplyID (AState r)"] show "?P r' \<and> acting_body (Body x)"
      by (auto split: prod.splits)
  qed
  moreover have "hoare (\<lambda>r. ?P r \<and> acting_body (Body ev)) (emitAndApply emit ev) (\<lambda>u. ?P) ?P" for ev
  proof (cases "acting_body (Body ev)")
    case True
    show ?thesis
      by (rule hoare_pre [OF _ framed_emit [OF True, unfolded framed_def, rule_format]]) simp
  next
    case False
    then show ?thesis by (simp add: hoare_def)
  qed
  ultimately show "keeps ?P (act_bind (make_event mk) (emitAndApply emit))"
    by (rule hoare_bind)
qed

lemma new_event_body [simp]: "Body (fst (newReplyEventBase w rid b)) = b"
  by (simp add: newReplyEventBase_def split: prod.split)

lemma framed_events [framed]:
  "framed (emit_text_delta emit c t)" "framed (emit_result_end emit c s md)"
  "framed (emit_result_start emit c)" "framed (emitToolResultData emit c b src)"
  by (auto simp: emit_text_delta_def emit_result_end_def emit_result_start_def NewToolResultTextDeltaEvent_def
      NewToolResultEndEvent_def NewToolResultStartEvent_def NewToolResultDataDeltaEvent_def
      intro!: framed_emit_new)
     (cases "(emit, c, b, src)" rule: emitToolResultData.cases,
      auto simp: NewToolResultDataDeltaEvent_def intro!: framed framed_emit_new)

lemma framed_edit [framed]:
  assumes "\<And>c. sig_of (f c) = sig_of c"
  shows "framed (edit_call k f)"
  unfolding framed_def edit_call_def
proof (intro allI hoare_modify)
  fix T S r
  assume P: "Trace r = T \<and> prefix S (calls r)"
  show "Trace (case call_at k r of None \<Rightarrow> r | Some c \<Rightarrow> put_call k (f c) r) = T
    \<and> prefix S (calls (case call_at k r of None \<Rightarrow> r | Some c \<Rightarrow> put_call k (f c) r))"
  proof (cases "call_at k r")
    case None
    with P show ?thesis by simp
  next
    case (Some c)
    then obtain m where m: "assistant_of r = Some m" and k: "k < length (Content m)"
        and c: "block_call (Content m ! k) = Some c"
      by (auto simp: call_at_def split: option.splits if_splits)
    have "sigs (m\<lparr>Content := (Content m)[k := Some (call_block (f c))]\<rparr>) = sigs m"
    proof -
      have "map block_sig (Content m) ! k = Some (sig_of (f c))"
        using k c assms by (simp add: block_sig_def)
      then have "(map block_sig (Content m))[k := Some (sig_of (f c))] = map block_sig (Content m)"
        by (metis list_update_id)
      then show ?thesis by (simp add: sigs_def map_update)
    qed
    moreover have "calls r = sigs m" using m by (simp add: calls_def)
    ultimately show ?thesis using Some m P by (simp add: put_call_def calls_put [OF m])
  qed
qed

lemma framed_output [framed]:
  "framed (emitToolExecutionError emit c t s)" "framed (emitToolError emit c t s)"
  "framed (emitToolChunk emit c chunk)"
proof -
  have "framed (emit_chunk_block emit c bo)" for bo
    by (cases "(emit, c, bo)" rule: emit_chunk_block.cases) (simp_all add: framed)
  then show "framed (emitToolChunk emit c chunk)"
    unfolding emitToolChunk_def by (intro framed)
qed (auto simp: emitToolExecutionError_def emitToolError_def intro!: framed)

lemma framed_audit [framed]: "framed (auditToolSecurityEvent a typ t c tx)"
  unfolding auditToolSecurityEvent_def framed_def by (auto intro!: hoare_modify split: option.splits)

lemma framed_chunks [framed]:
  "framed (emit_chunks a emit t c cs)" "framed (fail_execution a emit t c tx)"
  unfolding emit_chunks_def fail_execution_def by (intro framed)+

lemma framed_state [framed]: "framed (set_state k s)"
  unfolding set_state_def by (intro framed) (simp add: sig_of_def)

lemma framed_find [framed]: "framed (find_tool a n)"
  unfolding find_tool_def framed_def by (auto intro!: hoare_go simp: go_bind_eq_Ret)

lemma framed_ask [framed]: "framed (emit_with_call emit k NewRequireUserConfirmEvent)"
    "framed (emit_with_call emit k NewRequireExternalExecutionEvent)"
  unfolding emit_with_call_def
  by (intro framed framed_emit_new; simp add: NewRequireUserConfirmEvent_def NewRequireExternalExecutionEvent_def)+

lemma framed_answers [framed]: "framed (ask_user a emit k c t d)" "framed (refuse a emit k c t d)"
  unfolding ask_user_def refuse_def by (intro framed; simp add: sig_of_def)+

lemma framed_accept [framed]: "framed (accept emit k c t)"
  unfolding accept_def by (intro framed)

lemma framed_batch_result [framed]: "framed (emit_batch_result a emit plans results i)"
  unfolding emit_batch_result_def by (intro framed)

section \<open>What the trace says\<close>

text \<open>The arguments a decision lets through, and a check that is an answer of the engine or of the user.\<close>

definition allowed_input :: "('x, 'z) agent_core_scheme \<Rightarrow> tool_call \<Rightarrow> decision \<Rightarrow> string \<Rightarrow> bool" where
  "allowed_input a c d inp \<longleftrightarrow>
     (case UpdatedInput d of None \<Rightarrow> inp = CallInput c | Some m \<Rightarrow> MarshalGo a (VMap m) = Inr inp)"

definition approved :: "('x, 'z) agent_core_scheme \<Rightarrow> act_step list \<Rightarrow> call_sig \<Rightarrow> bool" where
  "approved a T s \<longleftrightarrow>
     (case s of (i, n, inp) \<Rightarrow>
       \<exists>c st d. Checked c st d \<in> set T \<and> DecBehavior d = BehaviorAllow
         \<and> CallID c = i \<and> CallName c = n \<and> allowed_input a c d inp)"

definition genuine :: "('x, 'z) agent_core_scheme \<Rightarrow> tool_call \<Rightarrow> agent_state \<Rightarrow> decision \<Rightarrow> bool" where
  "genuine a c st d \<longleftrightarrow>
     CallState c = ToolCallAllowed \<and> d = confirmed_decision
     \<or> (\<exists>t input. PFind (provider_of a) (CallName c) (activeGroupsFromState (Some st)) = Ret (Some t)
          \<and> LoadObject (UnmarshalGo a) (CallInput c) = Inr input
          \<and> fst (ask_engine a st c t input) = Inr d)"

definition step_ok :: "('x, 'z) agent_core_scheme \<Rightarrow> act_step list \<Rightarrow> act_step \<Rightarrow> bool" where
  "step_ok a T s \<longleftrightarrow> (case s of Checked c st d \<Rightarrow> genuine a c st d | Ran c \<Rightarrow> approved a T (sig_of c))"

definition trace_ok :: "('x, 'z) agent_core_scheme \<Rightarrow> act_step list \<Rightarrow> bool" where
  "trace_ok a T \<longleftrightarrow> (\<forall>xs s ys. T = xs @ s # ys \<longrightarrow> step_ok a xs s)"

lemma trace_ok_snoc: "trace_ok a (T @ [s]) \<longleftrightarrow> trace_ok a T \<and> step_ok a T s"
proof
  assume ok: "trace_ok a (T @ [s])"
  have "step_ok a xs q" if "T = xs @ q # ys" for xs q ys
    using ok that unfolding trace_ok_def by (metis append.assoc append_Cons)
  moreover have "step_ok a T s" using ok unfolding trace_ok_def by blast
  ultimately show "trace_ok a T \<and> step_ok a T s" unfolding trace_ok_def by blast
next
  assume ok: "trace_ok a T \<and> step_ok a T s"
  show "trace_ok a (T @ [s])"
    unfolding trace_ok_def
  proof (intro allI impI)
    fix xs q ys
    assume "T @ [s] = xs @ q # ys"
    then show "step_ok a xs q"
    proof (cases ys rule: rev_cases)
      case Nil
      with \<open>T @ [s] = xs @ q # ys\<close> ok show ?thesis by simp
    next
      case (snoc zs z)
      with \<open>T @ [s] = xs @ q # ys\<close> have "T = xs @ q # zs" by simp
      with ok show ?thesis unfolding trace_ok_def by blast
    qed
  qed
qed

lemma approved_mono: "approved a T s \<Longrightarrow> set T \<subseteq> set T' \<Longrightarrow> approved a T' s"
  unfolding approved_def by (auto split: prod.splits)

text \<open>The invariant: a good trace, and the calls at the places \<open>B\<close> approved as they are now.\<close>

definition ready :: "('x, 'z) agent_core_scheme \<Rightarrow> nat set \<Rightarrow> act_step list \<Rightarrow> call_sig option list \<Rightarrow> bool" where
  "ready a B T S \<longleftrightarrow> trace_ok a T \<and> (\<forall>k \<in> B. \<exists>s. k < length S \<and> S ! k = Some s \<and> approved a T s)"

abbreviation inv :: "('x, 'z) agent_core_scheme \<Rightarrow> nat set \<Rightarrow> ('m, 'o, 'x) run \<Rightarrow> bool" where
  "inv a B r \<equiv> ready a B (Trace r) (calls r)"

lemma upward_ready: "upward (ready a B)"
  unfolding upward_def ready_def
  by (auto simp: prefix_def nth_append)

lemma framed_inv: "framed m \<Longrightarrow> keeps (inv a B) m"
  by (rule framed_keeps [OF _ upward_ready])

lemma ready_less: "ready a B T S \<Longrightarrow> B' \<subseteq> B \<Longrightarrow> ready a B' T S"
  unfolding ready_def by blast

lemma ready_snoc:
  "ready a B T S \<Longrightarrow> step_ok a T s \<Longrightarrow> ready a B (T @ [s]) S"
  unfolding ready_def by (fastforce simp: trace_ok_snoc intro: approved_mono)

section \<open>A call is prepared\<close>

lemma calls_context [simp]:
  "calls (r\<lparr>AState := (AState r)\<lparr>PermissionContext := p\<rparr>\<rparr>) = calls r"
  by (simp add: calls_def assistant_of_def split: option.split)

lemma call_at_calls:
  assumes "call_at k r = Some c"
  shows "k < length (calls r) \<and> calls r ! k = Some (sig_of c)"
  using assms by (auto simp: call_at_def calls_def sigs_def block_sig_def split: option.splits if_splits)

lemma calls_edit:
  assumes "call_at k r = Some c"
  shows "calls (put_call k (f c) r) = (calls r)[k := Some (sig_of (f c))]"
proof -
  obtain m where m: "assistant_of r = Some m"
    using assms by (auto simp: call_at_def split: option.splits)
  then have "calls r = sigs m" by (simp add: calls_def)
  with m show ?thesis by (simp add: put_call_def calls_put [OF m] sigs_def map_update)
qed

lemma Trace_put_call [simp]: "Trace (put_call k c r) = Trace r"
  by (simp add: put_call_def split: option.split)

lemma approved_check:
  "Checked c st d \<in> set T \<Longrightarrow> DecBehavior d = BehaviorAllow \<Longrightarrow> allowed_input a c d inp
    \<Longrightarrow> approved a T (CallID c, CallName c, inp)"
  unfolding approved_def by auto

definition checked :: "('x, 'z) agent_core_scheme \<Rightarrow> nat set \<Rightarrow> call_sig option list \<Rightarrow> tool_call \<Rightarrow> decision
    \<Rightarrow> ('m, 'o, 'x) run \<Rightarrow> bool" where
  "checked a B S c d r \<longleftrightarrow> inv a B r \<and> (\<exists>st. Checked c st d \<in> set (Trace r)) \<and> calls r = S"

lemma note_check_ok:
  assumes "\<And>r. P r \<Longrightarrow> inv a B r \<and> genuine a c (AState r) d \<and> calls r = S"
  shows "hoare P (note_check c d) (\<lambda>u. checked a B S c d) (inv a B)"
  unfolding note_check_def
  by (rule hoare_modify) (use assms in \<open>auto intro!: ready_snoc simp: step_ok_def checked_def\<close>)

definition found_now :: "('x, 'z) agent_core_scheme \<Rightarrow> tool_call \<Rightarrow> agent_tool \<Rightarrow> ('m, 'o, 'x) run \<Rightarrow> bool" where
  "found_now a c t r \<longleftrightarrow> PFind (provider_of a) (CallName c) (activeGroupsFromState (Some (AState r))) = Ret (Some t)"

lemma find_tool_ok:
  "hoare P (find_tool a n)
     (\<lambda>to r. P r \<and> PFind (provider_of a) n (activeGroupsFromState (Some (AState r))) = Ret to) P"
  unfolding find_tool_def by (rule hoare_go) (auto simp: go_bind_eq_Ret activeGroups_def)

lemma decide_ok:
  assumes "LoadObject (UnmarshalGo a) (CallInput c) = Inr input"
  shows "hoare (\<lambda>r. inv a B r \<and> found_now a c t r \<and> calls r = S) (decide a c t input :: ('m, 'o, 'x, decision) act)
    (checked a B S c) (inv a B)"
proof (cases "CallState c = ToolCallAllowed")
  case True
  then show ?thesis
    unfolding decide_def
    by (auto intro!: hoare_then [OF note_check_ok] hoare_ret simp: genuine_def)
next
  case False
  let ?P = "\<lambda>r :: ('m, 'o, 'x) run. inv a B r \<and> found_now a c t r \<and> calls r = S"
  have step: "hoare (\<lambda>r. ?P r \<and> fst p = fst (ask_engine a (AState r) c t input))
      (case p of (res, e) \<Rightarrow>
        act_then (case res of Inl err \<Rightarrow> act_ret () | Inr d \<Rightarrow> note_check c d)
        (act_then (act_modify (\<lambda>r. r\<lparr>AState := (AState r)\<lparr>PermissionContext :=
            map_option (\<lambda>p. Context e) (PermissionContext (AState r))\<rparr>\<rparr>))
          (case res of Inl err \<Rightarrow> act_fail err | Inr d \<Rightarrow> act_ret d)))
      (checked a B S c) (inv a B)" for p
  proof (cases p)
    case (Pair res e)
    show ?thesis
    proof (cases res)
      case (Inl err)
      then show ?thesis
        unfolding Pair
        by (auto intro!: hoare_then [where R = "inv a B"] hoare_ret hoare_modify hoare_fail)
    next
      case (Inr d)
      have g: "genuine a c (AState r) d"
        if "?P r" "fst p = fst (ask_engine a (AState r) c t input)" for r :: "('m, 'o, 'x) run"
        using that assms Pair Inr unfolding genuine_def found_now_def by auto
      show ?thesis
        unfolding Pair prod.case Inr sum.case
      proof (rule hoare_then [OF note_check_ok hoare_then [where R = "checked a B S c d"]])
        show "inv a B r \<and> genuine a c (AState r) d \<and> calls r = S"
          if "?P r \<and> fst (Inr d, e) = fst (ask_engine a (AState r) c t input)" for r
          using g [of r] that Pair Inr by auto
      qed (auto intro!: hoare_modify hoare_ret simp: checked_def)
    qed
  qed
  show ?thesis
    unfolding decide_def if_not_P [OF False] by (rule hoare_bind [OF hoare_get step]) auto
qed

lemma update_input_ok:
  assumes "k \<notin> B" and k: "k < length S" "S ! k = Some (sig_of c)"
  shows "hoare (checked a B S c d)
     (update_input a k d :: ('m, 'o, 'x, unit) act)
     (\<lambda>u. inv a (if DecBehavior d = BehaviorAllow then insert k B else B)) (inv a B)"
proof (cases "UpdatedInput d")
  case None
  have "approved a T (sig_of c)" if "Checked c st d \<in> set T" "DecBehavior d = BehaviorAllow" for T st
    using approved_check [OF that, where a = a] None unfolding sig_of_def allowed_input_def by simp
  then show ?thesis
    unfolding update_input_def None option.case
    by (intro hoare_ret) (use k in \<open>auto simp: ready_def checked_def simp del: split_paired_Ex\<close>)
next
  case (Some m)
  show ?thesis
  proof (cases "MarshalGo a (VMap m)")
    case (Inl e)
    then show ?thesis unfolding update_input_def Some by (auto intro!: hoare_fail simp: checked_def)
  next
    case (Inr s)
    have ap: "approved a T (CallID c, CallName c, s)" if "Checked c st d \<in> set T" "DecBehavior d = BehaviorAllow" for T st
      using approved_check [OF that, where a = a] Some Inr unfolding allowed_input_def by simp
    show ?thesis
      unfolding update_input_def Some option.case Inr sum.case edit_call_def
    proof (rule hoare_modify)
      fix r :: "('m, 'o, 'x) run"
      assume "checked a B S c d r"
      then have P: "inv a B r \<and> (\<exists>st. Checked c st d \<in> set (Trace r)) \<and> k < length (calls r) \<and> calls r ! k = Some (sig_of c)"
        using k by (auto simp: checked_def)
      obtain c' where c': "call_at k r = Some c'" and sig: "sig_of c' = sig_of c"
        using P by (auto simp: calls_def call_at_def sigs_def block_sig_def split: option.splits)
      let ?r = "put_call k (c'\<lparr>CallInput := s\<rparr>) r"
      have "calls ?r = (calls r)[k := Some (CallID c, CallName c, s)]"
        using calls_edit [OF c', of "\<lambda>c. c\<lparr>CallInput := s\<rparr>"] sig by (simp add: sig_of_def)
      with P ap assms have "inv a (if DecBehavior d = BehaviorAllow then insert k B else B) ?r"
        by (auto simp: ready_def nth_list_update)
      with c' show "inv a (if DecBehavior d = BehaviorAllow then insert k B else B)
          (case call_at k r of None \<Rightarrow> r | Some c \<Rightarrow> put_call k (c\<lparr>CallInput := s\<rparr>) r)"
        by simp
    qed
  qed
qed

definition prepared :: "('x, 'z) agent_core_scheme \<Rightarrow> nat set \<Rightarrow> nat \<Rightarrow> plan option \<times> bool \<Rightarrow> ('m, 'o, 'x) run \<Rightarrow> bool" where
  "prepared a B k pw r \<longleftrightarrow>
     (case fst pw of None \<Rightarrow> inv a B r | Some p \<Rightarrow> snd p = k \<and> \<not> IsExternal (fst p) \<and> inv a (insert k B) r)"

lemma inv_then:
  "framed m \<Longrightarrow> hoare (inv a B') n Q (inv a B) \<Longrightarrow> B \<subseteq> B' \<Longrightarrow> hoare (inv a B') (act_then m n) Q (inv a B)"
  by (rule hoare_then [OF hoare_post [OF framed_inv [where B = B']]]) (auto intro: ready_less)

lemma accept_ok:
  "hoare (inv a (insert k B)) (accept emit k c t) (prepared a B k) (inv a B)"
  unfolding accept_def
  by (intro inv_then framed hoare_if hoare_ret) (auto simp: prepared_def intro: ready_less)

lemma settle_ok:
  "hoare (inv a (if DecBehavior d = BehaviorAllow then insert k B else B)) (settle a emit k c t d)
     (prepared a B k) (inv a B)"
proof (cases "DecBehavior d")
  case BehaviorAllow
  then show ?thesis using accept_ok by (simp add: settle_def)
qed (auto simp: settle_def prepared_def intro!: inv_then hoare_ret hoare_fail framed)

lemma hoare_value:
  "(\<And>S. hoare (\<lambda>r. P r \<and> f r = S) m Q E) \<Longrightarrow> hoare P m Q E"
  unfolding hoare_def by blast

lemma prepare_found_ok:
  assumes "k \<notin> B" and k: "k < length S" "S ! k = Some (sig_of c)"
  shows "hoare (\<lambda>r. inv a B r \<and> found_now a c t r \<and> calls r = S) (prepare_found a emit k c t)
    (prepared a B k) (inv a B)"
proof (cases "LoadObject (UnmarshalGo a) (CallInput c)")
  case (Inl e)
  have "hoare (inv a B) (act_then (emitToolError emit c (error_text e) ToolResultError) (act_ret (None, False)))
      (prepared a B k) (inv a B)"
    by (intro inv_then framed hoare_ret) (auto simp: prepared_def)
  then show ?thesis
    unfolding prepare_found_def Inl sum.case by (rule hoare_pre [rotated]) auto
next
  case (Inr input)
  show ?thesis
    unfolding prepare_found_def Inr sum.case
    by (rule hoare_bind [OF decide_ok [OF Inr] hoare_then [OF update_input_ok [OF assms] settle_ok]])
qed

lemma prepare_ok:
  assumes "k \<notin> B"
  shows "hoare (inv a B) (prepareToolCall a emit k) (prepared a B k) (inv a B)"
  unfolding prepareToolCall_def
proof (rule hoare_bind [OF hoare_get [where Q = "\<lambda>co r. inv a B r \<and> call_at k r = co"]], simp)
  fix co
  show "hoare (\<lambda>r. inv a B r \<and> call_at k r = co)
     (case co of None \<Rightarrow> act_ret (None, False)
      | Some c \<Rightarrow> act_bind (find_tool a (CallName c)) (\<lambda>to. case to of
            None \<Rightarrow> act_then (emitToolError emit c (''tool '' @ CallName c @ '' not found'') ToolResultError)
                           (act_ret (None, False))
          | Some t \<Rightarrow> prepare_found a emit k c t))
     (prepared a B k) (inv a B)"
  proof (cases co)
    case None
    then show ?thesis by (auto intro!: hoare_ret simp: prepared_def)
  next
    case (Some c)
    have miss: "hoare (inv a B) (act_then (emitToolError emit c tx ToolResultError) (act_ret (None, False)))
        (prepared a B k) (inv a B)" for tx
      by (intro inv_then framed hoare_ret) (auto simp: prepared_def)
    have found: "hoare (\<lambda>r. (inv a B r \<and> call_at k r = Some c)
          \<and> PFind (provider_of a) (CallName c) (activeGroupsFromState (Some (AState r))) = Ret to)
        (case to of
            None \<Rightarrow> act_then (emitToolError emit c (''tool '' @ CallName c @ '' not found'') ToolResultError)
                           (act_ret (None, False))
          | Some t \<Rightarrow> prepare_found a emit k c t) (prepared a B k) (inv a B)" for to
    proof (cases to)
      case None
      show ?thesis unfolding None option.case by (rule hoare_pre [OF _ miss]) simp
    next
      case (Some t)
      show ?thesis unfolding Some option.case
      proof (rule hoare_value [where f = calls])
        fix S
        show "hoare (\<lambda>r. ((inv a B r \<and> call_at k r = Some c)
          \<and> PFind (provider_of a) (CallName c) (activeGroupsFromState (Some (AState r))) = Ret (Some t)) \<and> calls r = S)
          (prepare_found a emit k c t) (prepared a B k) (inv a B)"
        proof (cases "k < length S \<and> S ! k = Some (sig_of c)")
          case True
          then show ?thesis
            by (intro hoare_pre [OF _ prepare_found_ok [OF assms]]) (auto simp: found_now_def)
        next
          case False
          then show ?thesis using call_at_calls unfolding hoare_def by blast
        qed
      qed
    qed
    show ?thesis
      unfolding Some option.case
      by (rule hoare_bind, rule hoare_post, rule find_tool_ok, assumption, simp, rule found)
  qed
qed

section \<open>A call is run\<close>

lemma calls_after_tool:
  "calls ((put_supply w r)\<lparr>AState := after_tool (AState r) st\<rparr>) = calls r"
  by (simp add: calls_def assistant_of_def put_supply_def after_tool_def split: option.split)

lemma call_tool_ok:
  assumes "k \<in> B"
  shows "hoare (\<lambda>r. inv a B r \<and> call_at k r = Some c) (call_tool a c :: ('m, 'o, 'x, _) act)
    (\<lambda>res. inv a B) (inv a B)"
  unfolding call_tool_def
proof (rule hoare_go)
  fix r :: "('m, 'o, 'x) run" and res r'
  assume P: "inv a B r \<and> call_at k r = Some c"
    and run: "go_bind (applyActingHooks a c (AState r, Supply (World r), Outer r)) (\<lambda>(res, st, w, x).
       Ret (res, (put_supply w r)\<lparr>AState := after_tool (AState r) st, Outer := x,
                                 Trace := Trace r @ [Ran c]\<rparr>)) = Ret (res, r')"
  from P assms call_at_calls [of k r c] have "approved a (Trace r) (sig_of c)"
    by (auto simp: ready_def)
  moreover have "Trace r' = Trace r @ [Ran c]" "calls r' = calls r"
    using run by (auto simp: go_bind_eq_Ret calls_after_tool)
  ultimately show "inv a B r'" using P by (auto intro!: ready_snoc simp: step_ok_def)
qed

lemma executeLocalTool_ok:
  assumes "k \<in> B"
  shows "keeps (inv a B) (executeLocalTool a emit k)"
  unfolding executeLocalTool_def
proof (rule hoare_bind [OF hoare_get [where Q = "\<lambda>co r. inv a B r \<and> call_at k r = co"]], simp)
  fix co
  have outs: "keeps (inv a B) (case res of
      Inl e \<Rightarrow> fail_execution a emit None c (error_text e)
    | Inr cso \<Rightarrow> (case cso of
          None \<Rightarrow> fail_execution a emit None c ''tool returned nil chunk stream''
        | Some cs \<Rightarrow> emit_chunks a emit None c cs))" for c res
    by (intro framed_inv framed)
  show "hoare (\<lambda>r. inv a B r \<and> call_at k r = co)
     (case co of None \<Rightarrow> act_ret ()
      | Some c \<Rightarrow> act_bind (call_tool a c) (\<lambda>res. case res of
            Inl e \<Rightarrow> fail_execution a emit None c (error_text e)
          | Inr cso \<Rightarrow> (case cso of
                None \<Rightarrow> fail_execution a emit None c ''tool returned nil chunk stream''
              | Some cs \<Rightarrow> emit_chunks a emit None c cs))) (\<lambda>u. inv a B) (inv a B)"
  proof (cases co)
    case None
    then show ?thesis by (auto intro!: hoare_ret)
  next
    case (Some c)
    show ?thesis unfolding Some option.case by (rule hoare_bind [OF call_tool_ok [OF assms] outs])
  qed
qed

lemma collect_ok:
  assumes "k \<in> B"
  shows "hoare (\<lambda>r. inv a B r \<and> call_at k r = Some c) (collectLocalToolChunks a c) (\<lambda>res. inv a B) (inv a B)"
  unfolding collectLocalToolChunks_def
  by (rule hoare_bind [OF call_tool_ok [OF assms]])
     (auto intro!: hoare_ret hoare_go simp: go_bind_eq_Ret split: sum.splits option.splits)

lemma run_batch_ok:
  assumes "\<forall>i \<in> set is. snd (plans ! i) \<in> B"
  shows "keeps (inv a B) (run_batch a plans is results :: ('m, 'o, 'x, _) act)"
  using assms
proof (induction "is" arbitrary: results)
  case Nil
  then show ?case by (simp add: hoare_ret)
next
  case (Cons i "is")
  from Cons.prems have k: "snd (plans ! i) \<in> B" and p: "\<forall>i \<in> set is. snd (plans ! i) \<in> B" by simp_all
  note rest = Cons.IH [OF p]
  show ?case
    unfolding run_batch.simps
  proof (rule hoare_bind [OF hoare_get [where Q = "\<lambda>co r. inv a B r \<and> call_at (snd (plans ! i)) r = co"]], simp)
    fix co
    show "hoare (\<lambda>r :: ('m, 'o, 'x) run. inv a B r \<and> call_at (snd (plans ! i)) r = co)
        (case co of None \<Rightarrow> run_batch a plans is results
         | Some c \<Rightarrow> act_bind (collectLocalToolChunks a c) (\<lambda>res. run_batch a plans is (results(i \<mapsto> res))))
        (\<lambda>x. inv a B) (inv a B)"
    proof (cases co)
      case None
      show ?thesis unfolding None option.case by (rule hoare_pre [rotated], rule rest) simp
    next
      case (Some c)
      show ?thesis unfolding Some option.case by (rule hoare_bind [OF collect_ok [OF k] rest])
    qed
  qed
qed

lemma schedule_set: "set (schedule a n) = {0..<n}"
  by (simp add: schedule_def)

lemma batch_ok:
  assumes "snd ` set plans \<subseteq> B"
  shows "keeps (inv a B) (executeLocalToolBatch a emit plans)"
  unfolding executeLocalToolBatch_def
proof (rule hoare_bind [OF run_batch_ok])
  show "\<forall>i \<in> set (schedule a (length plans)). snd (plans ! i) \<in> B"
    using assms by (force simp: schedule_set)
qed (intro framed_inv framed)

section \<open>The phase\<close>

lemma flush_ok:
  "hoare (inv a (snd ` set batch)) (flush a emit batch) (\<lambda>b r. b = [] \<and> inv a {} r) (inv a {})"
  unfolding flush_def
proof (rule hoare_if)
  show "hoare (inv a (snd ` set batch)) (act_ret []) (\<lambda>b r. b = [] \<and> inv a {} r) (inv a {})" if "batch = []"
    using that by (auto intro!: hoare_ret)
  have b: "hoare (inv a (snd ` set batch)) (executeLocalToolBatch a emit batch) (\<lambda>u. inv a {}) (inv a {})"
    by (rule hoare_post [OF batch_ok [OF order_refl]]) (auto intro: ready_less)
  show "hoare (inv a (snd ` set batch))
      (act_then (executeLocalToolBatch a emit batch)
        (act_then (act_each (\<lambda>p. set_state (snd p) ToolCallFinished) batch) (act_ret [])))
      (\<lambda>b r. b = [] \<and> inv a {} r) (inv a {})"
    by (rule hoare_then [OF b]) (auto intro!: inv_then framed hoare_ret)
qed

text \<open>Between two calls: the batch holds approved calls, all at earlier places.\<close>

definition batched :: "('x, 'z) agent_core_scheme \<Rightarrow> nat set \<Rightarrow> plan list \<Rightarrow> ('m, 'o, 'x) run \<Rightarrow> bool" where
  "batched a K batch r \<longleftrightarrow> snd ` set batch \<subseteq> K \<and> inv a (snd ` set batch) r"

lemma flush_batched:
  "hoare (batched a K batch) (flush a emit batch) (batched a K) (inv a {})"
  by (rule hoare_pre [OF _ hoare_post [OF flush_ok]]) (auto simp: batched_def)

lemma flushBefore_ok:
  "hoare (batched a K batch) (flushBeforeIfNeeded a emit batch k) (batched a K) (inv a {})"
proof -
  have r: "hoare (batched a K batch) (act_ret batch) (batched a K) (inv a {})" by (rule hoare_ret)
  have f: "hoare (batched a K batch) (find_tool a n) (\<lambda>u. batched a K batch) (inv a {})" for n
    by (rule hoare_post [OF find_tool_ok]) (auto simp: batched_def intro: ready_less)
  have t: "hoare (batched a K batch) (case to of
        None \<Rightarrow> flush a emit batch
      | Some t \<Rightarrow> if \<not> IsExternal t \<and> ConcurrencySafe t then act_ret batch else flush a emit batch)
      (batched a K) (inv a {})" for to
    by (cases to) (simp_all add: r flush_batched)
  have step: "hoare (batched a K batch) (case co of
        None \<Rightarrow> act_ret batch
      | Some c \<Rightarrow> act_bind (find_tool a (CallName c)) (\<lambda>to. case to of
            None \<Rightarrow> flush a emit batch
          | Some t \<Rightarrow> if \<not> IsExternal t \<and> ConcurrencySafe t then act_ret batch else flush a emit batch))
      (batched a K) (inv a {})" for co
  proof (cases co)
    case None
    show ?thesis unfolding None option.case by (rule r)
  next
    case (Some c)
    show ?thesis unfolding Some option.case by (rule hoare_bind [OF f t])
  qed
  show ?thesis
    unfolding flushBeforeIfNeeded_def
  proof (rule hoare_if)
    show "hoare (batched a K batch) (act_ret []) (batched a K) (inv a {})" if "batch = []"
      using that by (auto intro!: hoare_ret)
  qed (rule hoare_bind [OF hoare_get step], simp)
qed

lemma execute_then:
  assumes "k \<in> B" and "hoare (inv a {}) n Q (inv a {})"
  shows "hoare (inv a B) (act_then (executeLocalTool a emit k) (act_then (set_state k s) n)) Q (inv a {})"
proof (rule hoare_then)
  show "hoare (inv a B) (executeLocalTool a emit k) (\<lambda>u. inv a {}) (inv a {})"
    by (rule hoare_post [OF executeLocalTool_ok [OF assms(1)]]) (auto intro: ready_less)
  show "hoare (inv a {}) (act_then (set_state k s) n) Q (inv a {})"
    by (rule inv_then [OF framed_state assms(2)]) simp
qed

lemma execute_call_ok: "keeps (inv a {}) (executeToolCall a emit k)"
  unfolding executeToolCall_def
proof (rule hoare_bind [OF prepare_ok])
  show "hoare (prepared a {} k pw)
      (case pw of (plan, waiting) \<Rightarrow>
        if waiting \<or> plan = None then act_ret waiting
        else act_then (executeLocalTool a emit k) (act_then (set_state k ToolCallFinished) (act_ret False)))
      (\<lambda>x. inv a {}) (inv a {})" for pw
  proof (cases pw)
    case (Pair plan waiting)
    have run: "hoare (inv a {k}) (act_then (executeLocalTool a emit k)
        (act_then (set_state k ToolCallFinished) (act_ret False))) (\<lambda>x. inv a {}) (inv a {})"
      by (rule execute_then) (auto intro!: hoare_ret)
    show ?thesis
      unfolding Pair prod.case
    proof (rule hoare_if)
      show "hoare (prepared a {} k (plan, waiting)) (act_ret waiting) (\<lambda>x. inv a {}) (inv a {})"
        by (rule hoare_ret) (auto simp: prepared_def intro: ready_less split: option.splits)
      show "hoare (prepared a {} k (plan, waiting)) (act_then (executeLocalTool a emit k)
          (act_then (set_state k ToolCallFinished) (act_ret False))) (\<lambda>x. inv a {}) (inv a {})"
        if "\<not> (waiting \<or> plan = None)"
        by (rule hoare_pre [OF _ run]) (use that in \<open>auto simp: prepared_def split: option.splits\<close>)
    qed
  qed
qed simp

lemma take_up_ok:
  assumes "snd ` set batch \<subseteq> K" and "snd p \<notin> K"
  shows "hoare (inv a (insert (snd p) (snd ` set batch))) (take_up a emit batch p)
    (batched a (insert (snd p) K)) (inv a {})"
proof -
  have safe: "hoare (inv a (insert (snd p) (snd ` set batch))) (act_ret (batch @ [p]))
      (batched a (insert (snd p) K)) (inv a {})"
    using assms(1) by (intro hoare_ret) (auto simp: batched_def)
  have alone: "hoare (inv a (insert (snd p) (snd ` set batch))) (flush a emit batch)
      (\<lambda>b r. b = [] \<and> inv a {snd p} r) (inv a {})"
    unfolding flush_def
  proof (rule hoare_if)
    show "hoare (inv a (insert (snd p) (snd ` set batch))) (act_ret [])
        (\<lambda>b r. b = [] \<and> inv a {snd p} r) (inv a {})"
      by (rule hoare_ret) (auto intro: ready_less)
    have b: "hoare (inv a (insert (snd p) (snd ` set batch))) (executeLocalToolBatch a emit batch)
        (\<lambda>u. inv a {snd p}) (inv a {})"
      by (rule hoare_post [OF batch_ok [where B = "insert (snd p) (snd ` set batch)"]]) (auto intro: ready_less)
    show "hoare (inv a (insert (snd p) (snd ` set batch)))
        (act_then (executeLocalToolBatch a emit batch)
          (act_then (act_each (\<lambda>p. set_state (snd p) ToolCallFinished) batch) (act_ret [])))
        (\<lambda>b r. b = [] \<and> inv a {snd p} r) (inv a {})"
      by (rule hoare_then [OF b]) (auto intro!: inv_then framed hoare_ret)
  qed
  have run: "hoare (\<lambda>r. b = [] \<and> inv a {snd p} r)
      (act_then (executeLocalTool a emit (snd p)) (act_then (set_state (snd p) ToolCallFinished) (act_ret b)))
      (batched a (insert (snd p) K)) (inv a {})" for b
  proof (cases "b = []")
    case True
    have "hoare (inv a {snd p})
      (act_then (executeLocalTool a emit (snd p)) (act_then (set_state (snd p) ToolCallFinished) (act_ret b)))
      (batched a (insert (snd p) K)) (inv a {})"
      by (rule execute_then) (auto intro!: hoare_ret simp: batched_def True)
    then show ?thesis by (rule hoare_pre [rotated]) simp
  qed (simp add: hoare_def)
  show ?thesis
    unfolding take_up_def by (rule hoare_if [OF safe hoare_bind [OF alone run]])
qed

lemma handle_ok:
  assumes "k \<notin> K"
  shows "hoare (batched a K batch) (handle a emit batch k) (\<lambda>(w, b). batched a (insert k K) b) (inv a {})"
proof -
  have next_call: "hoare (batched a K b) (act_bind (prepareToolCall a emit k) (\<lambda>(plan, waiting).
       if waiting then act_bind (flush a emit b) (\<lambda>batch. act_ret (True, batch))
       else case plan of
         None \<Rightarrow> act_ret (False, b)
       | Some p \<Rightarrow> act_bind (take_up a emit b p) (\<lambda>batch. act_ret (False, batch))))
      (\<lambda>(w, b). batched a (insert k K) b) (inv a {})" for b
  proof (cases "snd ` set b \<subseteq> K")
    case False
    then show ?thesis by (simp add: hoare_def batched_def)
  next
    case True
    let ?B = "snd ` set b"
    have stop: "hoare (batched a (insert k K) b) (act_ret (w, b)) (\<lambda>(w, b). batched a (insert k K) b) (inv a {})"
      for w b by (rule hoare_ret) simp
    have prep: "hoare (batched a K b) (prepareToolCall a emit k) (prepared a ?B k) (inv a {})"
      by (rule hoare_pre [OF _ hoare_post [OF prepare_ok [where B = ?B]]]) (use True assms in \<open>auto simp: batched_def intro: ready_less\<close>)
    have fl: "hoare (prepared a ?B k (plan, w)) (act_bind (flush a emit b) (\<lambda>batch. act_ret (True, batch)))
        (\<lambda>(w, b). batched a (insert k K) b) (inv a {})" for plan w
      by (rule hoare_pre [OF _ hoare_bind [OF flush_batched [where K = "insert k K"] stop]])
         (use True in \<open>auto simp: prepared_def batched_def intro: ready_less split: option.splits\<close>)
    have none: "hoare (prepared a ?B k (None, w)) (act_ret (False, b))
        (\<lambda>(w, b). batched a (insert k K) b) (inv a {})" for w
      by (rule hoare_ret) (use True in \<open>auto simp: prepared_def batched_def\<close>)
    have some: "hoare (prepared a ?B k (Some p, w)) (act_bind (take_up a emit b p) (\<lambda>batch. act_ret (False, batch)))
        (\<lambda>(w, b). batched a (insert k K) b) (inv a {})" for p w
    proof (cases "snd p = k")
      case True
      with \<open>snd ` set b \<subseteq> K\<close> assms take_up_ok [of b K p a emit] show ?thesis
        by (intro hoare_pre [OF _ hoare_bind [OF _ stop]]) (auto simp: prepared_def)
    next
      case False
      then show ?thesis by (simp add: hoare_def prepared_def)
    qed
    show ?thesis
    proof (rule hoare_bind [OF prep])
      fix pw :: "plan option \<times> bool"
      obtain plan w where pw: "pw = (plan, w)" by fastforce
      show "hoare (prepared a ?B k pw) (case pw of (plan, waiting) \<Rightarrow>
           if waiting then act_bind (flush a emit b) (\<lambda>batch. act_ret (True, batch))
           else (case plan of
             None \<Rightarrow> act_ret (False, b)
           | Some p \<Rightarrow> act_bind (take_up a emit b p) (\<lambda>batch. act_ret (False, batch))))
         (\<lambda>(w, b). batched a (insert k K) b) (inv a {})"
        unfolding pw prod.case
        by (rule hoare_if [OF fl], cases plan) (simp_all add: none some)
    qed
  qed
  show ?thesis
    unfolding handle_def by (rule hoare_bind [OF flushBefore_ok next_call])
qed

lemma handle_all_ok:
  "distinct ks \<Longrightarrow> set ks \<inter> K = {} \<Longrightarrow>
     hoare (batched a K batch) (handle_all a emit batch ks :: ('m, 'o, 'x, bool) act) (\<lambda>w. inv a {}) (inv a {})"
proof (induction ks arbitrary: K batch)
  case Nil
  show ?case
    unfolding handle_all.simps
    by (rule hoare_bind [OF flush_batched]) (auto intro!: hoare_ret simp: batched_def intro: ready_less)
next
  case (Cons k ks)
  then have k: "k \<notin> K" and p: "distinct ks" "set ks \<inter> insert k K = {}" by auto
  show ?case
    unfolding handle_all.simps
  proof (rule hoare_bind [OF handle_ok [OF k]])
    fix wb
    show "hoare (case wb of (w, b) \<Rightarrow> batched a (insert k K) b)
        (case wb of (waiting, batch) \<Rightarrow> if waiting then act_ret True else (handle_all a emit batch ks :: ('m, 'o, 'x, bool) act))
        (\<lambda>w. inv a {}) (inv a {})"
      by (cases wb) (auto intro!: hoare_if hoare_ret Cons.IH [OF p] simp: batched_def intro: ready_less)
  qed
qed

lemma runActing_ok:
  assumes "distinct ks"
  shows "keeps (inv a {}) (runActing a emit ks)"
proof -
  have all: "keeps (inv a {}) (handle_all a emit [] ks)"
    by (rule hoare_pre [OF _ handle_all_ok [OF assms, where K = "{}"]]) (auto simp: batched_def)
  show ?thesis
  proof (cases "length ks = 1")
    case True
    then obtain k where "ks = [k]" by (auto simp: length_Suc_conv)
    show ?thesis unfolding \<open>ks = [k]\<close> runActing_def list.case by (rule execute_call_ok)
  next
    case False
    then have same: "runActing a emit ks = handle_all a emit [] ks"
      by (auto simp: runActing_def split: list.splits)
    show ?thesis unfolding same by (rule all)
  qed
qed

section \<open>Property\<close>

lemma trace_ok_run:
  assumes "trace_ok a T" and "T = xs @ Ran c # ys"
  shows "\<exists>c0 st d. Checked c0 st d \<in> set xs \<and> DecBehavior d = BehaviorAllow
    \<and> CallID c0 = CallID c \<and> CallName c0 = CallName c
    \<and> allowed_input a c0 d (CallInput c) \<and> genuine a c0 st d"
proof -
  from assms have "approved a xs (sig_of c)" by (fastforce simp: trace_ok_def step_ok_def)
  then obtain c0 st d where c: "Checked c0 st d \<in> set xs" "DecBehavior d = BehaviorAllow"
      "CallID c0 = CallID c" "CallName c0 = CallName c" "allowed_input a c0 d (CallInput c)"
    by (auto simp: approved_def sig_of_def)
  then obtain us vs where "xs = us @ Checked c0 st d # vs" by (meson split_list)
  with assms have "genuine a c0 st d" by (fastforce simp: trace_ok_def step_ok_def)
  with c show ?thesis by blast
qed

text \<open>C5: Whatever the order in which a batch is scheduled, every call the acting phase hands to the
  tool provider was checked before in the phase, under the same identifier and name, and allowed: by
  the permission engine, for the tool found under that name and the arguments the call had, or
  because the user had confirmed the call. The arguments it runs with are those that were checked, or
  those the decision replaced them with.\<close>

theorem acting_runs_only_allowed_calls:
  assumes "runActing a emit ks r = Ret (Some (x, r'))" and "distinct ks" and "Trace r = []"
    and "Trace r' = xs @ Ran c # ys"
  shows "\<exists>c0 st d. Checked c0 st d \<in> set xs \<and> DecBehavior d = BehaviorAllow
    \<and> CallID c0 = CallID c \<and> CallName c0 = CallName c
    \<and> allowed_input a c0 d (CallInput c)
    \<and> (CallState c0 = ToolCallAllowed \<and> d = confirmed_decision
       \<or> (\<exists>t input. PFind (provider_of a) (CallName c0) (activeGroupsFromState (Some st)) = Ret (Some t)
            \<and> LoadObject (UnmarshalGo a) (CallInput c0) = Inr input
            \<and> fst (ask_engine a st c0 t input) = Inr d))"
proof -
  have "inv a {} r" using assms(3) by (simp add: ready_def trace_ok_def)
  with keepsD [OF runActing_ok [OF assms(2)] _ assms(1)] have "trace_ok a (Trace r')"
    by (simp add: ready_def)
  from trace_ok_run [OF this assms(4)] show ?thesis unfolding genuine_def .
qed

text \<open>An agent with one tool, and a message whose only call the user has confirmed.\<close>

definition echo_tool :: agent_tool where
  "echo_tool = \<lparr>ATool = \<lparr>ToolNameOf = ''echo'', IsReadOnly = False, IsReadOnlyInput = None,
     CheckPermissions = (\<lambda>i c. Inr None), MatchRule = (\<lambda>s i. False), GenerateSuggestions = (\<lambda>i. []),
     ToolDescription = None\<rparr>, IsExternal = False, ConcurrencySafe = False, MCPName = []\<rparr>"

definition echo_provider :: "unit provider" where
  "echo_provider = \<lparr>PSchemas = (\<lambda>gs. Inr []), PFind = (\<lambda>n gs. Ret (if n = ''echo'' then Some echo_tool else None)),
     PCall = (\<lambda>c st w x. Ret ((Inr (Some []), st), w, x))\<rparr>"

definition echo_agent :: "unit agent_core" where
  "echo_agent = \<lparr>AgentName = ''Friday'', ToolkitOf = echo_provider, MiddlewareKit = None,
     PermissionClassifier = None, AuditLogger = None, ActingHooks = [], BatchOrder = (\<lambda>n. []),
     MarshalGo = (\<lambda>v. Inr ''{}''), UnmarshalGo = (\<lambda>s. Inr (VMap []))\<rparr>"

definition confirmed_call :: tool_call where
  "confirmed_call = \<lparr>CallID = ''c1'', CallName = ''echo'', CallInput = ''{}'', CallState = ToolCallAllowed,
     CallRules = [], CallExtra = None\<rparr>"

definition echo_message :: "block list \<Rightarrow> message" where
  "echo_message bs = \<lparr>MsgName = ''Friday'', Content = map Some bs, MsgRole = RoleAssistant, MsgID = ''m1'',
     Metadata = None, CreatedAt = [], FinishedAt = None, Usage = None\<rparr>"

definition echo_run :: "(unit, unit, unit) run" where
  "echo_run = \<lparr>World = short_world\<lparr>RunningAt := Some 0\<rparr>,
     AState = short_state\<lparr>Messages := [Some (echo_message [call_block confirmed_call])], StateReplyID := ''m1''\<rparr>,
     Status = None, Outer = (), Trace = []\<rparr>"

lemma echo_runs:
  "\<exists>x r' st. runActing echo_agent None [0] echo_run = Ret (Some (x, r'))
     \<and> Trace r' = [Checked confirmed_call st confirmed_decision] @ Ran confirmed_call # []"
  by (simp add: runActing_def executeToolCall_def prepareToolCall_def act_bind_def act_get_def act_ret_def act_then_def
    act_go_def act_modify_def act_try_def div_bind_def find_tool_def prepare_found_def decide_def note_check_def
    update_input_def settle_def accept_def set_state_def edit_call_def emit_result_start_def emit_new_def
    make_event_def emitAndApply_def apply_to_assistant_def hand_over_def executeLocalTool_def call_tool_def
    applyActingHooks_def apply_hooks_def provider_step_def emit_chunks_def emit_result_end_def final_state_def
    final_metadata_def echo_run_def echo_agent_def confirmed_call_def echo_message_def call_at_def put_call_def
    assistant_of_def put_assistant_def put_supply_def call_block_def provider_of_def effectiveToolProvider_def
    echo_provider_def echo_tool_def LoadObject_def decodeObject_def confirmed_decision_def mk_decision_def
    short_world_def short_state_def NewToolResultStartEvent_def NewToolResultEndEvent_def newReplyEventBase_def
    newID_def nowISO_def Let_def ApplyEvent_def ReplyID_def applyLifecycleEvent_def applyContentBlockEvent_def
    applyToolCallEvent_def applyToolResultEvent_def append_block_def NewToolResultBlock_def edit_block_def
    block_matches_def after_tool_def)

theorem acting_runs_only_allowed_calls_witness:
  "\<exists>x r' c0 st d. runActing echo_agent None [0] echo_run = Ret (Some (x, r'))
     \<and> Checked c0 st d \<in> set (Trace r') \<and> DecBehavior d = BehaviorAllow \<and> CallName c0 = ''echo''"
proof -
  obtain x r' st where run: "runActing echo_agent None [0] echo_run = Ret (Some (x, r'))"
      and T: "Trace r' = [Checked confirmed_call st confirmed_decision] @ Ran confirmed_call # []"
    using echo_runs by blast
  have "Trace echo_run = []" "distinct [0::nat]" by (simp_all add: echo_run_def)
  from acting_runs_only_allowed_calls [OF run this(2,1) T] obtain c0 st' d where
      "Checked c0 st' d \<in> set [Checked confirmed_call st confirmed_decision]"
      "DecBehavior d = BehaviorAllow" "CallName c0 = CallName confirmed_call"
    by blast
  with run T show ?thesis by (auto simp: confirmed_call_def)
qed

end
