(* ===== verification/Agent_Stream.thy ===== *)
theory Agent_Stream
  imports Agent_Run
begin

text \<open>
  The reasoning phase's use of a model response (\<open>pkg/agent/reasoning.go\<close>): the chunks of a
  stream become events that open, extend and close the blocks of the running message
  (\<open>emitChatResponseStream\<close>), and a response that came without chunks becomes whole blocks
  (\<open>emitChatResponse\<close>). The emitter is a parameter; the reasoning phase passes \<open>emitAndApply\<close>. A
  stream is the list of the responses its channel delivers; the pool of stream states only reuses
  memory.
\<close>

section \<open>Emitting\<close>

type_synonym ('m, 'o, 'x) emitter = "event \<Rightarrow> ('m, 'o, 'x, unit) act"

definition emit_made :: "('m, 'o, 'x) emitter \<Rightarrow> (env \<Rightarrow> string \<Rightarrow> event \<times> env) \<Rightarrow> ('m, 'o, 'x, unit) act" where
  "emit_made emit mk = act_bind (make_event mk) emit"

datatype modelDeltaBlockKind = textDeltaBlock | thinkingDeltaBlock

text \<open>All three events are made, whichever are then emitted.\<close>

definition deltaBlockEvents :: "modelDeltaBlockKind \<Rightarrow> string \<Rightarrow> string
    \<Rightarrow> ('m, 'o, 'x, event \<times> event \<times> event) act" where
  "deltaBlockEvents kind b delta =
     (case kind of
        thinkingDeltaBlock \<Rightarrow>
          act_bind (make_event (\<lambda>w rid. NewThinkingBlockStartEvent w rid b)) (\<lambda>s.
          act_bind (make_event (\<lambda>w rid. NewThinkingBlockDeltaEvent w rid b delta)) (\<lambda>d.
          act_bind (make_event (\<lambda>w rid. NewThinkingBlockEndEvent w rid b)) (\<lambda>e. act_ret (s, d, e))))
      | textDeltaBlock \<Rightarrow>
          act_bind (make_event (\<lambda>w rid. NewTextBlockStartEvent w rid b)) (\<lambda>s.
          act_bind (make_event (\<lambda>w rid. NewTextBlockDeltaEvent w rid b delta)) (\<lambda>d.
          act_bind (make_event (\<lambda>w rid. NewTextBlockEndEvent w rid b)) (\<lambda>e. act_ret (s, d, e)))))"

definition emitDeltaBlock :: "('m, 'o, 'x) emitter \<Rightarrow> modelDeltaBlockKind \<Rightarrow> string \<Rightarrow> string
    \<Rightarrow> ('m, 'o, 'x, unit) act" where
  "emitDeltaBlock emit kind b delta =
     act_bind (deltaBlockEvents kind b delta) (\<lambda>(s, d, e).
       act_then (emit s) (act_then (if delta \<noteq> [] then emit d else act_ret ()) (emit e)))"

definition emitToolCallBlock :: "('m, 'o, 'x) emitter \<Rightarrow> string \<Rightarrow> string \<Rightarrow> string \<Rightarrow> ('m, 'o, 'x, unit) act" where
  "emitToolCallBlock emit i n inp =
     act_then (emit_made emit (\<lambda>w rid. NewToolCallStartEvent w rid i n))
     (act_then (if inp \<noteq> [] then emit_made emit (\<lambda>w rid. NewToolCallDeltaEvent w rid i inp) else act_ret ())
       (emit_made emit (\<lambda>w rid. NewToolCallEndEvent w rid i)))"

fun emitDataBlock :: "('m, 'o, 'x) emitter \<Rightarrow> string \<Rightarrow> data_source option \<Rightarrow> ('m, 'o, 'x, unit) act" where
  "emitDataBlock emit i (Some (Base64Source d mt)) =
     act_then (emit_made emit (\<lambda>w rid. NewDataBlockStartEvent w rid i mt))
     (act_then (if d \<noteq> [] then emit_made emit (\<lambda>w rid. NewDataBlockDeltaEvent w rid i d mt) else act_ret ())
       (emit_made emit (\<lambda>w rid. NewDataBlockEndEvent w rid i)))"
| "emitDataBlock emit i (Some (URLSource u mt)) =
     act_then (emit_made emit (\<lambda>w rid. NewDataBlockStartEvent w rid i mt))
     (act_then (emit_made emit (\<lambda>w rid. NewDataBlockDeltaEvent w rid i [] mt))
       (emit_made emit (\<lambda>w rid. NewDataBlockEndEvent w rid i)))"
| "emitDataBlock emit i None = act_ret ()"

fun emit_whole :: "('m, 'o, 'x) emitter \<Rightarrow> block option \<Rightarrow> ('m, 'o, 'x, unit) act" where
  "emit_whole emit (Some (TextBlock t i)) = emitDeltaBlock emit textDeltaBlock i t"
| "emit_whole emit (Some (ThinkingBlock t i x)) = emitDeltaBlock emit thinkingDeltaBlock i t"
| "emit_whole emit (Some (ToolCallBlock i n inp st rs x)) = emitToolCallBlock emit i n inp"
| "emit_whole emit (Some (DataBlock i src n)) = emitDataBlock emit i src"
| "emit_whole emit bo = act_ret ()"

definition emitChatResponse :: "('m, 'o, 'x) emitter \<Rightarrow> chat_response \<Rightarrow> ('m, 'o, 'x, unit) act" where
  "emitChatResponse emit r = act_each (emit_whole emit) (RespContent r)"

section \<open>The stream\<close>

text \<open>The sets are Go maps to bool whose values are only ever true, but for \<open>ToolActive\<close>.\<close>

record stream_state =
  TextID :: string
  ThinkingID :: string
  ToolActive :: "string \<Rightarrow> bool"
  ToolOrder :: "string list"
  SeenText :: bool
  SeenThinking :: bool
  SeenTools :: "string set"
  SeenData :: "string set"
  Emitted :: bool

definition newModelStreamState :: stream_state where
  "newModelStreamState = \<lparr>TextID = [], ThinkingID = [], ToolActive = (\<lambda>i. False), ToolOrder = [],
     SeenText = False, SeenThinking = False, SeenTools = {}, SeenData = {}, Emitted = False\<rparr>"

record chunk_state =
  CurrentTools :: "string set"
  HasText :: bool
  HasThinking :: bool

definition current_id :: "modelDeltaBlockKind \<Rightarrow> stream_state \<Rightarrow> string" where
  "current_id kind s = (case kind of thinkingDeltaBlock \<Rightarrow> ThinkingID s | textDeltaBlock \<Rightarrow> TextID s)"

definition set_current :: "modelDeltaBlockKind \<Rightarrow> string \<Rightarrow> stream_state \<Rightarrow> stream_state" where
  "set_current kind i s =
     (case kind of thinkingDeltaBlock \<Rightarrow> s\<lparr>ThinkingID := i\<rparr> | textDeltaBlock \<Rightarrow> s\<lparr>TextID := i\<rparr>)"

definition mark_seen :: "modelDeltaBlockKind \<Rightarrow> stream_state \<Rightarrow> stream_state" where
  "mark_seen kind s =
     (case kind of thinkingDeltaBlock \<Rightarrow> s\<lparr>SeenThinking := True\<rparr> | textDeltaBlock \<Rightarrow> s\<lparr>SeenText := True\<rparr>)\<lparr>Emitted := True\<rparr>"

definition emitStreamDeltaBlock :: "('m, 'o, 'x) emitter \<Rightarrow> modelDeltaBlockKind \<Rightarrow> string \<Rightarrow> string
    \<Rightarrow> stream_state \<Rightarrow> ('m, 'o, 'x, stream_state) act" where
  "emitStreamDeltaBlock emit kind b delta s =
     act_bind
       (if current_id kind s = []
        then act_bind (deltaBlockEvents kind b delta) (\<lambda>(st, d, e).
               act_then (emit st) (act_ret (set_current kind b s)))
        else act_ret s) (\<lambda>s.
     let s = mark_seen kind s in
     if delta = [] then act_ret s
     else act_bind (deltaBlockEvents kind (current_id kind s) delta) (\<lambda>(st, d, e).
            act_then (emit d) (act_ret s)))"

definition open_tool :: "string \<Rightarrow> stream_state \<Rightarrow> stream_state" where
  "open_tool i s = s\<lparr>ToolActive := (ToolActive s)(i := True), ToolOrder := ToolOrder s @ [i],
     SeenTools := insert i (SeenTools s)\<rparr>"

definition emitStreamToolCallBlock :: "('m, 'o, 'x) emitter \<Rightarrow> string \<Rightarrow> string \<Rightarrow> string
    \<Rightarrow> stream_state \<Rightarrow> ('m, 'o, 'x, stream_state) act" where
  "emitStreamToolCallBlock emit i n inp s =
     act_bind
       (if i \<notin> SeenTools s
        then act_then (emit_made emit (\<lambda>w rid. NewToolCallStartEvent w rid i n)) (act_ret (open_tool i s))
        else act_ret s) (\<lambda>s.
     let s = s\<lparr>Emitted := True\<rparr> in
     if inp = [] then act_ret s
     else act_then (emit_made emit (\<lambda>w rid. NewToolCallDeltaEvent w rid i inp)) (act_ret s))"

fun emitStreamChunkBlock :: "('m, 'o, 'x) emitter \<Rightarrow> block option \<Rightarrow> stream_state \<times> chunk_state
    \<Rightarrow> ('m, 'o, 'x, stream_state \<times> chunk_state) act" where
  "emitStreamChunkBlock emit (Some (TextBlock t i)) (s, c) =
     act_bind (emitStreamDeltaBlock emit textDeltaBlock i t s) (\<lambda>s. act_ret (s, c\<lparr>HasText := True\<rparr>))"
| "emitStreamChunkBlock emit (Some (ThinkingBlock t i x)) (s, c) =
     act_bind (emitStreamDeltaBlock emit thinkingDeltaBlock i t s) (\<lambda>s. act_ret (s, c\<lparr>HasThinking := True\<rparr>))"
| "emitStreamChunkBlock emit (Some (ToolCallBlock i n inp st rs x)) (s, c) =
     act_bind (emitStreamToolCallBlock emit i n inp s)
       (\<lambda>s. act_ret (s, c\<lparr>CurrentTools := insert i (CurrentTools c)\<rparr>))"
| "emitStreamChunkBlock emit (Some (DataBlock i src n)) (s, c) =
     act_then (emitDataBlock emit i src)
       (act_ret (s\<lparr>SeenData := insert i (SeenData s), Emitted := True\<rparr>, c))"
| "emitStreamChunkBlock emit bo sc = act_ret sc"

fun chunk_blocks :: "('m, 'o, 'x) emitter \<Rightarrow> blocks \<Rightarrow> stream_state \<times> chunk_state
    \<Rightarrow> ('m, 'o, 'x, stream_state \<times> chunk_state) act" where
  "chunk_blocks emit [] sc = act_ret sc"
| "chunk_blocks emit (bo # bs) sc = act_bind (emitStreamChunkBlock emit bo sc) (chunk_blocks emit bs)"

definition end_delta :: "('m, 'o, 'x) emitter \<Rightarrow> modelDeltaBlockKind \<Rightarrow> stream_state \<Rightarrow> ('m, 'o, 'x, unit) act" where
  "end_delta emit kind s =
     (case kind of
        textDeltaBlock \<Rightarrow> emit_made emit (\<lambda>w rid. NewTextBlockEndEvent w rid (TextID s))
      | thinkingDeltaBlock \<Rightarrow> emit_made emit (\<lambda>w rid. NewThinkingBlockEndEvent w rid (ThinkingID s)))"

definition close_delta :: "('m, 'o, 'x) emitter \<Rightarrow> modelDeltaBlockKind \<Rightarrow> bool \<Rightarrow> stream_state
    \<Rightarrow> ('m, 'o, 'x, stream_state) act" where
  "close_delta emit kind still s =
     (if \<not> still \<and> current_id kind s \<noteq> []
      then act_then (end_delta emit kind s) (act_ret (set_current kind [] s))
      else act_ret s)"

fun close_tools :: "('m, 'o, 'x) emitter \<Rightarrow> string set \<Rightarrow> string list \<Rightarrow> stream_state
    \<Rightarrow> ('m, 'o, 'x, stream_state) act" where
  "close_tools emit current [] s = act_ret s"
| "close_tools emit current (i # is) s =
     act_bind
       (if ToolActive s i \<and> i \<notin> current
        then act_then (emit_made emit (\<lambda>w rid. NewToolCallEndEvent w rid i))
               (act_ret (s\<lparr>ToolActive := (ToolActive s)(i := False)\<rparr>))
        else act_ret s) (close_tools emit current is)"

definition endInactiveChunkBlocks :: "('m, 'o, 'x) emitter \<Rightarrow> stream_state \<Rightarrow> chunk_state
    \<Rightarrow> ('m, 'o, 'x, stream_state) act" where
  "endInactiveChunkBlocks emit s c =
     act_bind (close_delta emit textDeltaBlock (HasText c) s) (\<lambda>s.
     act_bind (close_delta emit thinkingDeltaBlock (HasThinking c) s) (\<lambda>s.
       close_tools emit (CurrentTools c) (ToolOrder s) s))"

definition emitChatResponseChunk :: "('m, 'o, 'x) emitter \<Rightarrow> chat_response \<Rightarrow> stream_state
    \<Rightarrow> ('m, 'o, 'x, stream_state) act" where
  "emitChatResponseChunk emit r s =
     act_bind (chunk_blocks emit (RespContent r) (s, \<lparr>CurrentTools = {}, HasText = False, HasThinking = False\<rparr>))
       (\<lambda>(s, c). endInactiveChunkBlocks emit s c)"

text \<open>What the final response holds and no chunk showed.\<close>

fun unseen :: "stream_state \<Rightarrow> block option \<Rightarrow> bool" where
  "unseen s (Some (TextBlock t i)) = (\<not> SeenText s)"
| "unseen s (Some (ThinkingBlock t i x)) = (\<not> SeenThinking s)"
| "unseen s (Some (ToolCallBlock i n inp st rs x)) = (i \<notin> SeenTools s)"
| "unseen s (Some (DataBlock i src n)) = (i \<notin> SeenData s)"
| "unseen s bo = False"

definition emitFinalUnseenBlocks :: "('m, 'o, 'x) emitter \<Rightarrow> chat_response \<Rightarrow> stream_state \<Rightarrow> ('m, 'o, 'x, unit) act" where
  "emitFinalUnseenBlocks emit r s =
     act_each (\<lambda>bo. if unseen s bo then emit_whole emit bo else act_ret ()) (RespContent r)"

definition endOpenStreamBlocks :: "('m, 'o, 'x) emitter \<Rightarrow> stream_state \<Rightarrow> ('m, 'o, 'x, stream_state) act" where
  "endOpenStreamBlocks emit s =
     act_then (if TextID s \<noteq> [] then end_delta emit textDeltaBlock s else act_ret ())
     (act_then (if ThinkingID s \<noteq> [] then end_delta emit thinkingDeltaBlock s else act_ret ())
       (close_tools emit {} (ToolOrder s) s))"

text \<open>Reading the channel until it is closed: the last final response, and the state of the stream.\<close>

fun read_stream :: "('m, 'o, 'x) emitter \<Rightarrow> chat_response list \<Rightarrow> stream_state \<Rightarrow> chat_response option
    \<Rightarrow> ('m, 'o, 'x, stream_state \<times> chat_response option) act" where
  "read_stream emit [] s completed = act_ret (s, completed)"
| "read_stream emit (r # rs) s completed =
     act_bind (act_go (\<lambda>q. go_bind (response_Clone r) (\<lambda>c. Ret (c, q)))) (\<lambda>chunk.
       case RespError chunk of
         Some e \<Rightarrow> act_fail e
       | None \<Rightarrow>
           if IsLast chunk then read_stream emit rs s (Some chunk)
           else act_bind (emitChatResponseChunk emit chunk s) (\<lambda>s. read_stream emit rs s completed))"

definition emitChatResponseStream :: "('m, 'o, 'x) emitter \<Rightarrow> chat_response list \<Rightarrow> ('m, 'o, 'x, chat_response) act" where
  "emitChatResponseStream emit rs =
     act_bind (read_stream emit rs newModelStreamState None) (\<lambda>(s, completed).
       case completed of
         None \<Rightarrow> act_fail (Err ''agentscope: model stream did not return a final response'')
       | Some r \<Rightarrow>
           if \<not> Emitted s then act_then (emitChatResponse emit r) (act_ret r)
           else act_then (emitFinalUnseenBlocks emit r s)
                (act_bind (endOpenStreamBlocks emit s) (\<lambda>s. act_ret r)))"

end
