(* ===== verification/Stream_Events.thy ===== *)
theory Stream_Events
  imports Agent_Stream Acting_Safety
begin

text \<open>
  What the consumer of a model response sees. The locale \<open>emission\<close> is the contract between the
  reasoning phase and whoever takes its events: an observation of the run, changed by each emitted
  body as \<open>upd\<close> says. Under it the stateful code of \<open>reasoning.go\<close> emits exactly the list of bodies a
  pure reference function computes. The contract is discharged twice, for the sink that records the
  events and for the running message that accumulates them; the reference function is then shown to
  open and close every block in order.
\<close>

section \<open>The contract of an emitter\<close>

text \<open>The bodies a response gives, and a constructor of events that always gives the same one.\<close>

fun stream_body :: "event_body \<Rightarrow> bool" where
  "stream_body (TextBlockStart i) = True"
| "stream_body (TextBlockDelta i d) = True"
| "stream_body (TextBlockEnd i) = True"
| "stream_body (ThinkingBlockStart i) = True"
| "stream_body (ThinkingBlockDelta i d) = True"
| "stream_body (ThinkingBlockEnd i) = True"
| "stream_body (ToolCallStart i n) = True"
| "stream_body (ToolCallDelta i d) = True"
| "stream_body (ToolCallEnd i) = True"
| "stream_body (DataBlockStart i mt) = True"
| "stream_body (DataBlockDelta i d mt) = True"
| "stream_body (DataBlockEnd i) = True"
| "stream_body b = False"

definition makes_body :: "(env \<Rightarrow> string \<Rightarrow> event \<times> env) \<Rightarrow> event_body \<Rightarrow> bool" where
  "makes_body mk b \<longleftrightarrow> stream_body b \<and> (\<forall>w i. Body (fst (mk w i)) = b \<and> ReplyIDValue (fst (mk w i)) = i)"

lemma base_body: "stream_body b \<Longrightarrow> makes_body (\<lambda>w i. newReplyEventBase w i b) b"
  by (simp add: makes_body_def newReplyEventBase_def split: prod.split)

lemma made_bodies:
  "makes_body (\<lambda>w r. NewTextBlockStartEvent w r i) (TextBlockStart i)"
  "makes_body (\<lambda>w r. NewTextBlockDeltaEvent w r i d) (TextBlockDelta i d)"
  "makes_body (\<lambda>w r. NewTextBlockEndEvent w r i) (TextBlockEnd i)"
  "makes_body (\<lambda>w r. NewThinkingBlockStartEvent w r i) (ThinkingBlockStart i)"
  "makes_body (\<lambda>w r. NewThinkingBlockDeltaEvent w r i d) (ThinkingBlockDelta i d)"
  "makes_body (\<lambda>w r. NewThinkingBlockEndEvent w r i) (ThinkingBlockEnd i)"
  "makes_body (\<lambda>w r. NewToolCallStartEvent w r i n) (ToolCallStart i n)"
  "makes_body (\<lambda>w r. NewToolCallDeltaEvent w r i d) (ToolCallDelta i d)"
  "makes_body (\<lambda>w r. NewToolCallEndEvent w r i) (ToolCallEnd i)"
  "makes_body (\<lambda>w r. NewDataBlockStartEvent w r i mt) (DataBlockStart i mt)"
  "makes_body (\<lambda>w r. NewDataBlockDeltaEvent w r i d mt) (DataBlockDelta i d mt)"
  "makes_body (\<lambda>w r. NewDataBlockEndEvent w r i) (DataBlockEnd i)"
  by (simp_all add: base_body NewTextBlockStartEvent_def NewTextBlockDeltaEvent_def NewTextBlockEndEvent_def
      NewThinkingBlockStartEvent_def NewThinkingBlockDeltaEvent_def NewThinkingBlockEndEvent_def
      NewToolCallStartEvent_def NewToolCallDeltaEvent_def NewToolCallEndEvent_def NewDataBlockStartEvent_def
      NewDataBlockDeltaEvent_def NewDataBlockEndEvent_def)


locale emission =
  fixes emit :: "('m, 'o, 'x) emitter"
    and I :: "('m, 'o, 'x) run \<Rightarrow> bool"
    and obs :: "('m, 'o, 'x) run \<Rightarrow> 's"
    and upd :: "event_body \<Rightarrow> 's \<Rightarrow> 's"
    and rid :: string
  assumes emits: "I r \<Longrightarrow> ReplyIDValue ev = rid \<Longrightarrow> stream_body (Body ev) \<Longrightarrow>
      \<exists>r'. emit ev r = Ret (Some (Inr (), r')) \<and> I r' \<and> obs r' = upd (Body ev) (obs r)"
    and keeps_id: "I r \<Longrightarrow> StateReplyID (AState r) = rid"
    and supplied: "I r \<Longrightarrow> I (put_supply w r) \<and> obs (put_supply w r) = obs r"
begin

text \<open>\<open>m\<close> returns \<open>x\<close> and emits the bodies \<open>bs\<close>.\<close>

definition says :: "('m, 'o, 'x, 'a) act \<Rightarrow> event_body list \<Rightarrow> 'a \<Rightarrow> bool" where
  "says m bs x \<longleftrightarrow> (\<forall>r. I r \<longrightarrow>
     (\<exists>r'. m r = Ret (Some (Inr x, r')) \<and> I r' \<and> obs r' = fold upd bs (obs r)))"

lemma saysE:
  assumes "says m bs x" "I r"
  obtains r' where "m r = Ret (Some (Inr x, r'))" "I r'" "obs r' = fold upd bs (obs r)"
  using assms unfolding says_def by blast

lemma says_ret: "says (act_ret x) [] x"
  by (simp add: says_def act_ret_def)

lemma says_bind:
  assumes m: "says m bs x" and f: "says (f x) cs y"
  shows "says (act_bind m f) (bs @ cs) y"
  unfolding says_def
proof (intro allI impI)
  fix r
  assume "I r"
  with m obtain r1 where r1: "m r = Ret (Some (Inr x, r1))" "I r1" "obs r1 = fold upd bs (obs r)"
    by (rule saysE)
  from f r1(2) obtain r2 where "f x r1 = Ret (Some (Inr y, r2))" "I r2" "obs r2 = fold upd cs (obs r1)"
    by (rule saysE)
  with r1(1,3) have "act_bind m f r = Ret (Some (Inr y, r2)) \<and> I r2 \<and> obs r2 = fold upd (bs @ cs) (obs r)"
    by (simp add: act_bind_def div_bind_def)
  then show "\<exists>r'. act_bind m f r = Ret (Some (Inr y, r')) \<and> I r' \<and> obs r' = fold upd (bs @ cs) (obs r)" ..
qed

lemma says_then: "says m bs () \<Longrightarrow> says n cs y \<Longrightarrow> says (act_then m n) (bs @ cs) y"
  unfolding act_then_def by (rule says_bind)

lemma says_if: "(b \<Longrightarrow> says m bs x) \<Longrightarrow> (\<not> b \<Longrightarrow> says n cs y) \<Longrightarrow>
    says (if b then m else n) (if b then bs else cs) (if b then x else y)"
  by simp

lemma says_optional: "says m bs () \<Longrightarrow> says (if b then m else act_ret ()) (if b then bs else []) ()"
  by (simp add: says_ret)

lemma says_each: "(\<And>b. b \<in> set xs \<Longrightarrow> says (f b) (g b) ()) \<Longrightarrow> says (act_each f xs) (concat (map g xs)) ()"
  by (induction xs) (simp_all add: says_ret says_then)

text \<open>An event made and emitted at once, and one of three that were made together.\<close>

lemma says_emit:
  assumes "Body ev = b" "ReplyIDValue ev = rid" "stream_body b"
  shows "says (emit ev) [b] ()"
  unfolding says_def using emits [of _ ev] assms by auto

lemma says_make:
  assumes mk: "makes_body mk b" and f: "\<And>ev. Body ev = b \<Longrightarrow> ReplyIDValue ev = rid \<Longrightarrow> says (f ev) bs x"
  shows "says (act_bind (make_event mk) f) bs x"
  unfolding says_def
proof (intro allI impI)
  fix r
  assume r: "I r"
  obtain ev w where ev: "mk (Supply (World r)) (StateReplyID (AState r)) = (ev, w)" by fastforce
  with mk r have "Body ev = b" "ReplyIDValue ev = rid"
    unfolding makes_body_def by (metis fst_conv, metis fst_conv keeps_id)
  then have "says (f ev) bs x" by (rule f)
  with r obtain r' where "f ev (put_supply w r) = Ret (Some (Inr x, r'))" "I r'" "obs r' = fold upd bs (obs r)"
    using supplied [OF r, of w] saysE by metis
  then show "\<exists>r'. act_bind (make_event mk) f r = Ret (Some (Inr x, r')) \<and> I r' \<and> obs r' = fold upd bs (obs r)"
    using ev by (simp add: act_bind_def make_event_def act_go_def div_bind_def)
qed

lemma says_made: "makes_body mk b \<Longrightarrow> says (emit_made emit mk) [b] ()"
  unfolding emit_made_def
  by (rule says_make, assumption, rule says_emit) (simp_all add: makes_body_def)

lemma says_pure:
  assumes "\<And>q. f q = Ret (x, q)" and "says (g x) bs z"
  shows "says (act_bind (act_go f) g) bs z"
  using assms by (simp add: says_def act_bind_def act_go_def div_bind_def)

end

section \<open>The reference function\<close>

fun delta_start :: "modelDeltaBlockKind \<Rightarrow> string \<Rightarrow> event_body" where
  "delta_start textDeltaBlock i = TextBlockStart i"
| "delta_start thinkingDeltaBlock i = ThinkingBlockStart i"

fun delta_part :: "modelDeltaBlockKind \<Rightarrow> string \<Rightarrow> string \<Rightarrow> event_body" where
  "delta_part textDeltaBlock i d = TextBlockDelta i d"
| "delta_part thinkingDeltaBlock i d = ThinkingBlockDelta i d"

fun delta_end :: "modelDeltaBlockKind \<Rightarrow> string \<Rightarrow> event_body" where
  "delta_end textDeltaBlock i = TextBlockEnd i"
| "delta_end thinkingDeltaBlock i = ThinkingBlockEnd i"

lemma delta_stream [simp]:
  "stream_body (delta_start kind i)" "stream_body (delta_part kind i d)" "stream_body (delta_end kind i)"
  by (cases kind; simp)+

fun whole_bodies :: "block option \<Rightarrow> event_body list" where
  "whole_bodies (Some (TextBlock t i)) =
     TextBlockStart i # (if t = [] then [] else [TextBlockDelta i t]) @ [TextBlockEnd i]"
| "whole_bodies (Some (ThinkingBlock t i x)) =
     ThinkingBlockStart i # (if t = [] then [] else [ThinkingBlockDelta i t]) @ [ThinkingBlockEnd i]"
| "whole_bodies (Some (ToolCallBlock i n inp st rs x)) =
     ToolCallStart i n # (if inp = [] then [] else [ToolCallDelta i inp]) @ [ToolCallEnd i]"
| "whole_bodies (Some (DataBlock i (Some (Base64Source d mt)) n)) =
     DataBlockStart i mt # (if d = [] then [] else [DataBlockDelta i d mt]) @ [DataBlockEnd i]"
| "whole_bodies (Some (DataBlock i (Some (URLSource u mt)) n)) =
     [DataBlockStart i mt, DataBlockDelta i [] mt, DataBlockEnd i]"
| "whole_bodies bo = []"

definition delta_bodies :: "modelDeltaBlockKind \<Rightarrow> string \<Rightarrow> string \<Rightarrow> stream_state \<Rightarrow> event_body list" where
  "delta_bodies kind b d s =
     (let i = (if current_id kind s = [] then b else current_id kind s)
      in (if current_id kind s = [] then [delta_start kind b] else []) @ (if d = [] then [] else [delta_part kind i d]))"

definition delta_state :: "modelDeltaBlockKind \<Rightarrow> string \<Rightarrow> stream_state \<Rightarrow> stream_state" where
  "delta_state kind b s = mark_seen kind (if current_id kind s = [] then set_current kind b s else s)"

definition tool_bodies :: "string \<Rightarrow> string \<Rightarrow> string \<Rightarrow> stream_state \<Rightarrow> event_body list" where
  "tool_bodies i n inp s =
     (if i \<in> SeenTools s then [] else [ToolCallStart i n]) @ (if inp = [] then [] else [ToolCallDelta i inp])"

definition tool_state :: "string \<Rightarrow> stream_state \<Rightarrow> stream_state" where
  "tool_state i s = (if i \<in> SeenTools s then s else open_tool i s)\<lparr>Emitted := True\<rparr>"

fun block_bodies :: "block option \<Rightarrow> stream_state \<Rightarrow> event_body list" where
  "block_bodies (Some (TextBlock t i)) s = delta_bodies textDeltaBlock i t s"
| "block_bodies (Some (ThinkingBlock t i x)) s = delta_bodies thinkingDeltaBlock i t s"
| "block_bodies (Some (ToolCallBlock i n inp st rs x)) s = tool_bodies i n inp s"
| "block_bodies (Some (DataBlock i src n)) s = whole_bodies (Some (DataBlock i src n))"
| "block_bodies bo s = []"

fun block_state :: "block option \<Rightarrow> stream_state \<times> chunk_state \<Rightarrow> stream_state \<times> chunk_state" where
  "block_state (Some (TextBlock t i)) (s, c) = (delta_state textDeltaBlock i s, c\<lparr>HasText := True\<rparr>)"
| "block_state (Some (ThinkingBlock t i x)) (s, c) = (delta_state thinkingDeltaBlock i s, c\<lparr>HasThinking := True\<rparr>)"
| "block_state (Some (ToolCallBlock i n inp st rs x)) (s, c) =
     (tool_state i s, c\<lparr>CurrentTools := insert i (CurrentTools c)\<rparr>)"
| "block_state (Some (DataBlock i src n)) (s, c) = (s\<lparr>SeenData := insert i (SeenData s), Emitted := True\<rparr>, c)"
| "block_state bo sc = sc"

fun blocks_bodies :: "blocks \<Rightarrow> stream_state \<times> chunk_state \<Rightarrow> event_body list" where
  "blocks_bodies [] sc = []"
| "blocks_bodies (bo # bs) sc = block_bodies bo (fst sc) @ blocks_bodies bs (block_state bo sc)"

definition blocks_state :: "blocks \<Rightarrow> stream_state \<times> chunk_state \<Rightarrow> stream_state \<times> chunk_state" where
  "blocks_state bs sc = fold block_state bs sc"

definition closing :: "modelDeltaBlockKind \<Rightarrow> bool \<Rightarrow> stream_state \<Rightarrow> event_body list" where
  "closing kind still s = (if still \<or> current_id kind s = [] then [] else [delta_end kind (current_id kind s)])"

definition after_closing :: "modelDeltaBlockKind \<Rightarrow> bool \<Rightarrow> stream_state \<Rightarrow> stream_state" where
  "after_closing kind still s = (if still \<or> current_id kind s = [] then s else set_current kind [] s)"

fun tools_closing :: "string set \<Rightarrow> string list \<Rightarrow> stream_state \<Rightarrow> event_body list" where
  "tools_closing current [] s = []"
| "tools_closing current (i # is) s =
     (if ToolActive s i \<and> i \<notin> current
      then ToolCallEnd i # tools_closing current is (s\<lparr>ToolActive := (ToolActive s)(i := False)\<rparr>)
      else tools_closing current is s)"

fun tools_closed :: "string set \<Rightarrow> string list \<Rightarrow> stream_state \<Rightarrow> stream_state" where
  "tools_closed current [] s = s"
| "tools_closed current (i # is) s =
     tools_closed current is (if ToolActive s i \<and> i \<notin> current then s\<lparr>ToolActive := (ToolActive s)(i := False)\<rparr> else s)"

definition inactive_bodies :: "stream_state \<Rightarrow> chunk_state \<Rightarrow> event_body list" where
  "inactive_bodies s c =
     (let s1 = after_closing textDeltaBlock (HasText c) s; s2 = after_closing thinkingDeltaBlock (HasThinking c) s1
      in closing textDeltaBlock (HasText c) s @ closing thinkingDeltaBlock (HasThinking c) s1
         @ tools_closing (CurrentTools c) (ToolOrder s2) s2)"

definition inactive_state :: "stream_state \<Rightarrow> chunk_state \<Rightarrow> stream_state" where
  "inactive_state s c =
     (let s2 = after_closing thinkingDeltaBlock (HasThinking c) (after_closing textDeltaBlock (HasText c) s)
      in tools_closed (CurrentTools c) (ToolOrder s2) s2)"

abbreviation no_chunk :: chunk_state where
  "no_chunk \<equiv> \<lparr>CurrentTools = {}, HasText = False, HasThinking = False\<rparr>"

definition chunk_bodies :: "blocks \<Rightarrow> stream_state \<Rightarrow> event_body list" where
  "chunk_bodies bs s =
     blocks_bodies bs (s, no_chunk) @ (case blocks_state bs (s, no_chunk) of (s, c) \<Rightarrow> inactive_bodies s c)"

definition chunk_state_after :: "blocks \<Rightarrow> stream_state \<Rightarrow> stream_state" where
  "chunk_state_after bs s = (case blocks_state bs (s, no_chunk) of (s, c) \<Rightarrow> inactive_state s c)"

text \<open>The bodies and the state of a stream, and the final response among its chunks.\<close>

fun stream_bodies :: "chat_response list \<Rightarrow> stream_state \<Rightarrow> event_body list" where
  "stream_bodies [] s = []"
| "stream_bodies (r # rs) s =
     (if IsLast r then stream_bodies rs s
      else chunk_bodies (RespContent r) s @ stream_bodies rs (chunk_state_after (RespContent r) s))"

fun stream_after :: "chat_response list \<Rightarrow> stream_state \<Rightarrow> stream_state" where
  "stream_after [] s = s"
| "stream_after (r # rs) s =
     (if IsLast r then stream_after rs s else stream_after rs (chunk_state_after (RespContent r) s))"

definition copied :: "chat_response \<Rightarrow> chat_response" where
  "copied r = r\<lparr>RespUsage := usage_Clone (RespUsage r), RespMetadata := CloneAnyMap (RespMetadata r)\<rparr>"

fun final_response :: "chat_response list \<Rightarrow> chat_response option \<Rightarrow> chat_response option" where
  "final_response [] d = d"
| "final_response (r # rs) d = final_response rs (if IsLast r then Some (copied r) else d)"

definition final_bodies :: "chat_response \<Rightarrow> stream_state \<Rightarrow> event_body list" where
  "final_bodies r s =
     (if \<not> Emitted s then concat (map whole_bodies (RespContent r))
      else concat (map (\<lambda>bo. if unseen s bo then whole_bodies bo else []) (RespContent r))
        @ closing textDeltaBlock False s @ closing thinkingDeltaBlock False s @ tools_closing {} (ToolOrder s) s)"

definition response_bodies :: "chat_response list \<Rightarrow> chat_response \<Rightarrow> event_body list" where
  "response_bodies rs r =
     stream_bodies rs newModelStreamState @ final_bodies r (stream_after rs newModelStreamState)"

definition good_response :: "chat_response \<Rightarrow> bool" where
  "good_response r \<longleftrightarrow> RespError r = None \<and> (\<forall>b. Some b \<in> set (RespContent r) \<longrightarrow> copyable b)"

lemma response_Clone_good:
  assumes "good_response r"
  shows "response_Clone r = Ret (copied r)"
proof -
  have "clone_list (RespContent r) \<noteq> Panic"
    using assms by (simp add: good_response_def clone_list_Panic)
  then obtain bs where "clone_list (RespContent r) = Ret bs" by (cases "clone_list (RespContent r)") auto
  moreover from this have "bs = RespContent r" by (rule clone_identity(2))
  ultimately show ?thesis by (simp add: response_Clone_def copied_def go_bind_def)
qed

lemma copied_parts [simp]:
  "RespContent (copied r) = RespContent r" "IsLast (copied r) = IsLast r" "RespError (copied r) = RespError r"
  by (simp_all add: copied_def)

section \<open>The stateful code emits what the reference function computes\<close>

context emission
begin

lemma says_delta_events:
  assumes "\<And>s d e. Body s = delta_start kind b \<Longrightarrow> Body d = delta_part kind b delta \<Longrightarrow> Body e = delta_end kind b
      \<Longrightarrow> ReplyIDValue s = rid \<Longrightarrow> ReplyIDValue d = rid \<Longrightarrow> ReplyIDValue e = rid \<Longrightarrow> says (f (s, d, e)) bs x"
  shows "says (act_bind (deltaBlockEvents kind b delta) f) bs x"
proof (cases kind)
  case textDeltaBlock
  show ?thesis
    unfolding textDeltaBlock deltaBlockEvents_def modelDeltaBlockKind.case act_bind_assoc act_bind_ret
    by (rule says_make [OF made_bodies(1)], rule says_make [OF made_bodies(2)], rule says_make [OF made_bodies(3)])
      (use assms textDeltaBlock in simp)
next
  case thinkingDeltaBlock
  show ?thesis
    unfolding thinkingDeltaBlock deltaBlockEvents_def modelDeltaBlockKind.case act_bind_assoc act_bind_ret
    by (rule says_make [OF made_bodies(4)], rule says_make [OF made_bodies(5)], rule says_make [OF made_bodies(6)])
      (use assms thinkingDeltaBlock in simp)
qed

lemma says_delta_block:
  "says (emitDeltaBlock emit kind b d)
     (delta_start kind b # (if d = [] then [] else [delta_part kind b d]) @ [delta_end kind b]) ()"
  unfolding emitDeltaBlock_def
proof (rule says_delta_events)
  fix s p e :: event
  assume b: "Body s = delta_start kind b" "Body p = delta_part kind b d" "Body e = delta_end kind b"
    and r: "ReplyIDValue s = rid" "ReplyIDValue p = rid" "ReplyIDValue e = rid"
  have "says (act_then (emit s) (act_then (if d \<noteq> [] then emit p else act_ret ()) (emit e)))
      ([delta_start kind b] @ (if d \<noteq> [] then [delta_part kind b d] else []) @ [delta_end kind b]) ()"
    using b r by (intro says_then says_optional says_emit) simp_all
  then show "says (case (s, p, e) of (s, da, e) \<Rightarrow>
      act_then (emit s) (act_then (if d \<noteq> [] then emit da else act_ret ()) (emit e)))
      (delta_start kind b # (if d = [] then [] else [delta_part kind b d]) @ [delta_end kind b]) ()"
    by (cases "d = []") simp_all
qed

lemma says_tool_call:
  "says (emitToolCallBlock emit i n inp) (whole_bodies (Some (ToolCallBlock i n inp st rs x))) ()"
proof -
  have "says (emitToolCallBlock emit i n inp)
      ([ToolCallStart i n] @ (if inp \<noteq> [] then [ToolCallDelta i inp] else []) @ [ToolCallEnd i]) ()"
    unfolding emitToolCallBlock_def by (intro says_then says_optional says_made made_bodies)
  then show ?thesis by (cases "inp = []") simp_all
qed

lemma says_data: "says (emitDataBlock emit i src) (whole_bodies (Some (DataBlock i src n))) ()"
proof (cases "(emit, i, src)" rule: emitDataBlock.cases)
  case (1 e j d mt)
  then have i: "i = j" "src = Some (Base64Source d mt)" by simp_all
  have "says (emitDataBlock emit j (Some (Base64Source d mt)))
      ([DataBlockStart j mt] @ (if d \<noteq> [] then [DataBlockDelta j d mt] else []) @ [DataBlockEnd j]) ()"
    unfolding emitDataBlock.simps by (intro says_then says_optional says_made made_bodies)
  then show ?thesis unfolding i by (cases "d = []") simp_all
next
  case (2 e j u mt)
  then have i: "i = j" "src = Some (URLSource u mt)" by simp_all
  have "says (emitDataBlock emit j (Some (URLSource u mt)))
      ([DataBlockStart j mt] @ [DataBlockDelta j [] mt] @ [DataBlockEnd j]) ()"
    unfolding emitDataBlock.simps by (intro says_then says_made made_bodies)
  then show ?thesis unfolding i by simp
next
  case (3 e j)
  then show ?thesis by (simp add: says_ret)
qed

lemma says_whole: "says (emit_whole emit bo) (whole_bodies bo) ()"
proof (cases "(emit, bo)" rule: emit_whole.cases)
  case (1 e t i)
  then show ?thesis using says_delta_block [of textDeltaBlock i t] by (cases "t = []") simp_all
next
  case (2 e t i x)
  then show ?thesis using says_delta_block [of thinkingDeltaBlock i t] by (cases "t = []") simp_all
next
  case (3 e i n inp st rs x)
  then show ?thesis using says_tool_call [of i n inp st rs x] by simp
next
  case (4 e i src n)
  then show ?thesis using says_data [of i src n] by simp
qed (simp_all add: says_ret)

lemma says_response: "says (emitChatResponse emit r) (concat (map whole_bodies (RespContent r))) ()"
  unfolding emitChatResponse_def by (rule says_each) (rule says_whole)

lemma says_unseen:
  "says (emitFinalUnseenBlocks emit r s) (concat (map (\<lambda>bo. if unseen s bo then whole_bodies bo else []) (RespContent r))) ()"
  unfolding emitFinalUnseenBlocks_def by (rule says_each) (rule says_optional [OF says_whole])

text \<open>The stream: each step's bodies and the state it leaves.\<close>

lemma says_stream_delta:
  "says (emitStreamDeltaBlock emit kind b d s) (delta_bodies kind b d s) (delta_state kind b s)"
proof -
  let ?new = "current_id kind s = []"
  let ?s = "if ?new then set_current kind b s else s"
  have id: "current_id kind (mark_seen kind ?s) = (if ?new then b else current_id kind s)"
    by (cases kind) (simp_all add: current_id_def mark_seen_def set_current_def)
  have begins: "says (if ?new then act_bind (deltaBlockEvents kind b d)
        (\<lambda>(st, d, e). act_then (emit st) (act_ret (set_current kind b s))) else act_ret s)
      (if ?new then [delta_start kind b] else []) ?s"
  proof (rule says_if)
    show "says (act_bind (deltaBlockEvents kind b d) (\<lambda>(st, d, e). act_then (emit st) (act_ret (set_current kind b s))))
        [delta_start kind b] (set_current kind b s)"
    proof (rule says_delta_events)
      fix st p e :: event
      assume "Body st = delta_start kind b" "ReplyIDValue st = rid"
      then have "says (emit st) [delta_start kind b] ()" by (rule says_emit) simp
      then show "says (case (st, p, e) of (st, d, e) \<Rightarrow> act_then (emit st) (act_ret (set_current kind b s)))
          [delta_start kind b] (set_current kind b s)"
        using says_then [OF _ says_ret] by fastforce
    qed
  qed (rule says_ret)
  have goes: "says (if d = [] then act_ret t else act_bind (deltaBlockEvents kind i d) (\<lambda>(st, d, e). act_then (emit d) (act_ret t)))
      (if d = [] then [] else [delta_part kind i d]) t" for t i
  proof (cases "d = []")
    case False
    have "says (act_bind (deltaBlockEvents kind i d) (\<lambda>(st, d, e). act_then (emit d) (act_ret t))) [delta_part kind i d] t"
    proof (rule says_delta_events)
      fix st p e :: event
      assume "Body p = delta_part kind i d" "ReplyIDValue p = rid"
      then have "says (emit p) [delta_part kind i d] ()" by (rule says_emit) simp
      then show "says (case (st, p, e) of (st, d, e) \<Rightarrow> act_then (emit d) (act_ret t)) [delta_part kind i d] t"
        using says_then [OF _ says_ret] by fastforce
    qed
    with False show ?thesis by simp
  qed (simp add: says_ret)
  show ?thesis
    unfolding emitStreamDeltaBlock_def delta_bodies_def delta_state_def Let_def
    by (rule says_bind, rule begins, unfold id, rule goes)
qed

lemma says_stream_tool: "says (emitStreamToolCallBlock emit i n inp s) (tool_bodies i n inp s) (tool_state i s)"
proof -
  let ?s = "if i \<notin> SeenTools s then open_tool i s else s"
  have begins: "says (if i \<notin> SeenTools s then act_then (emit_made emit (\<lambda>w rid. NewToolCallStartEvent w rid i n)) (act_ret (open_tool i s))
        else act_ret s) (if i \<notin> SeenTools s then [ToolCallStart i n] @ [] else []) ?s"
    by (intro says_if says_then says_made made_bodies says_ret)
  have goes: "says (if inp = [] then act_ret t else act_then (emit_made emit (\<lambda>w rid. NewToolCallDeltaEvent w rid i inp)) (act_ret t))
      (if inp = [] then [] else [ToolCallDelta i inp]) t" for t :: stream_state
  proof (cases "inp = []")
    case False
    have "says (act_then (emit_made emit (\<lambda>w rid. NewToolCallDeltaEvent w rid i inp)) (act_ret t)) ([ToolCallDelta i inp] @ []) t"
      by (intro says_then says_made made_bodies says_ret)
    with False show ?thesis by simp
  qed (simp add: says_ret)
  have "says (emitStreamToolCallBlock emit i n inp s)
      ((if i \<notin> SeenTools s then [ToolCallStart i n] @ [] else []) @ (if inp = [] then [] else [ToolCallDelta i inp]))
      (?s\<lparr>Emitted := True\<rparr>)"
    unfolding emitStreamToolCallBlock_def Let_def by (rule says_bind, rule begins, rule goes)
  then show ?thesis
    by (cases "i \<in> SeenTools s") (simp_all add: tool_bodies_def tool_state_def)
qed

lemma says_stream_block: "says (emitStreamChunkBlock emit bo (s, c)) (block_bodies bo s) (block_state bo (s, c))"
proof (cases "(emit, bo, (s, c))" rule: emitStreamChunkBlock.cases)
  case (1 e t i s' c')
  then show ?thesis
    using says_bind [OF says_stream_delta [of textDeltaBlock i t s] says_ret] by simp
next
  case (2 e t i x s' c')
  then show ?thesis
    using says_bind [OF says_stream_delta [of thinkingDeltaBlock i t s] says_ret] by simp
next
  case (3 e i n inp st rs x s' c')
  then show ?thesis
    using says_bind [OF says_stream_tool [of i n inp s] says_ret] by simp
next
  case (4 e i src n s' c')
  then show ?thesis
    using says_then [OF says_data [of i src n] says_ret] by simp
qed (simp_all add: says_ret)

lemma says_stream_blocks: "says (chunk_blocks emit bs sc) (blocks_bodies bs sc) (blocks_state bs sc)"
proof (induction bs arbitrary: sc)
  case Nil
  show ?case by (simp add: blocks_state_def says_ret)
next
  case (Cons bo bs)
  have "says (emitStreamChunkBlock emit bo sc) (block_bodies bo (fst sc)) (block_state bo sc)"
    using says_stream_block [of bo "fst sc" "snd sc"] by simp
  then show ?case
    using Cons.IH [of "block_state bo sc"] by (auto simp: blocks_state_def intro: says_bind)
qed

lemma says_end: "says (end_delta emit kind s) [delta_end kind (current_id kind s)] ()"
  by (cases kind) (simp_all add: end_delta_def current_id_def says_made made_bodies)

lemma says_seq: "says m bs () \<Longrightarrow> says (act_then m (act_ret x)) bs x"
  using says_then [OF _ says_ret] by fastforce

lemma says_close: "says (close_delta emit kind still s) (closing kind still s) (after_closing kind still s)"
  using says_seq [OF says_end [of kind s]] says_ret
  by (cases "still \<or> current_id kind s = []") (auto simp: close_delta_def closing_def after_closing_def)

lemma says_close_tools: "says (close_tools emit current is s) (tools_closing current is s) (tools_closed current is s)"
proof (induction "is" arbitrary: s)
  case Nil
  show ?case by (simp add: says_ret)
next
  case (Cons i "is")
  have ends: "says (act_then (emit_made emit (\<lambda>w rid. NewToolCallEndEvent w rid i)) (act_ret t)) [ToolCallEnd i] t"
    for t :: stream_state
    by (intro says_seq says_made made_bodies)
  show ?case
  proof (cases "ToolActive s i \<and> i \<notin> current")
    case True
    then show ?thesis
      using says_bind [OF ends Cons.IH, of "s\<lparr>ToolActive := (ToolActive s)(i := False)\<rparr>"] by simp
  next
    case False
    then show ?thesis using Cons.IH [of s] by (simp only: close_tools.simps tools_closing.simps tools_closed.simps if_False act_bind_ret)
  qed
qed

lemma says_inactive: "says (endInactiveChunkBlocks emit s c) (inactive_bodies s c) (inactive_state s c)"
  unfolding endInactiveChunkBlocks_def inactive_bodies_def inactive_state_def Let_def
  by (rule says_bind, rule says_close, rule says_bind, rule says_close, rule says_close_tools)

lemma says_chunk: "says (emitChatResponseChunk emit r s) (chunk_bodies (RespContent r) s) (chunk_state_after (RespContent r) s)"
  unfolding emitChatResponseChunk_def chunk_bodies_def chunk_state_after_def
  by (rule says_bind, rule says_stream_blocks) (simp add: says_inactive split: prod.split)

lemma says_read_stream:
  "\<forall>r\<in>set rs. good_response r \<Longrightarrow>
     says (read_stream emit rs s d) (stream_bodies rs s) (stream_after rs s, final_response rs d)"
proof (induction rs arbitrary: s d)
  case Nil
  show ?case by (simp add: says_ret)
next
  case (Cons r rs)
  then have good: "good_response r" and IH: "\<And>s d. says (read_stream emit rs s d) (stream_bodies rs s)
      (stream_after rs s, final_response rs d)" by simp_all
  have "says (act_bind (emitChatResponseChunk emit (copied r) s) (\<lambda>s. read_stream emit rs s d))
      (chunk_bodies (RespContent (copied r)) s @ stream_bodies rs (chunk_state_after (RespContent (copied r)) s))
      (stream_after rs (chunk_state_after (RespContent (copied r)) s), final_response rs d)"
    by (rule says_bind, rule says_chunk, rule IH)
  with good IH show ?case
    unfolding read_stream.simps
    by (intro says_pure [where x = "copied r"]) (simp_all add: response_Clone_good go_bind_def good_response_def)
qed

lemma says_open:
  "\<exists>t. says (endOpenStreamBlocks emit s)
     (closing textDeltaBlock False s @ closing thinkingDeltaBlock False s @ tools_closing {} (ToolOrder s) s) t"
proof
  have "says (if TextID s \<noteq> [] then end_delta emit textDeltaBlock s else act_ret ()) (closing textDeltaBlock False s) ()"
    "says (if ThinkingID s \<noteq> [] then end_delta emit thinkingDeltaBlock s else act_ret ()) (closing thinkingDeltaBlock False s) ()"
    using says_end [of textDeltaBlock s] says_end [of thinkingDeltaBlock s]
    by (simp_all add: closing_def current_id_def says_ret)
  then show "says (endOpenStreamBlocks emit s)
     (closing textDeltaBlock False s @ closing thinkingDeltaBlock False s @ tools_closing {} (ToolOrder s) s)
     (tools_closed {} (ToolOrder s) s)"
    unfolding endOpenStreamBlocks_def by (intro says_then says_close_tools)
qed

lemma says_stream:
  assumes "\<forall>c\<in>set rs. good_response c" and "final_response rs None = Some r"
  shows "says (emitChatResponseStream emit rs) (response_bodies rs r) r"
proof -
  let ?s = "stream_after rs newModelStreamState"
  obtain t where t: "says (endOpenStreamBlocks emit ?s)
      (closing textDeltaBlock False ?s @ closing thinkingDeltaBlock False ?s @ tools_closing {} (ToolOrder ?s) ?s) t"
    using says_open by blast
  have "says (if \<not> Emitted ?s then act_then (emitChatResponse emit r) (act_ret r)
      else act_then (emitFinalUnseenBlocks emit r ?s) (act_bind (endOpenStreamBlocks emit ?s) (\<lambda>s. act_ret r)))
      (final_bodies r ?s) r"
    using says_seq [OF says_response [of r], of r] says_then [OF says_unseen [of r ?s] says_bind [OF t says_ret [of r]]]
    by (cases "Emitted ?s") (simp_all add: final_bodies_def)
  with assms show ?thesis
    unfolding emitChatResponseStream_def response_bodies_def
    by (intro says_bind [OF says_read_stream]) simp_all
qed

end

section \<open>The consumer that records the events\<close>

text \<open>A stream body is applied by every message without an error.\<close>

fun stream_step :: "event_body \<Rightarrow> message \<Rightarrow> message" where
  "stream_step (TextBlockStart i) m = append_block (TextBlock [] i) m"
| "stream_step (TextBlockDelta i d) m = edit_block ''text'' i (add_text d) m"
| "stream_step (ThinkingBlockStart i) m = append_block (ThinkingBlock [] i None) m"
| "stream_step (ThinkingBlockDelta i d) m = edit_block ''thinking'' i (add_thinking d) m"
| "stream_step (ToolCallStart i n) m = append_block (NewToolCallBlock i n []) m"
| "stream_step (ToolCallDelta i d) m = edit_block ''tool_call'' i (add_input d) m"
| "stream_step (DataBlockStart i mt) m = append_block (DataBlock i (Some (Base64Source [] mt)) None) m"
| "stream_step (DataBlockDelta i d mt) m = edit_block ''data'' i (add_data d) m"
| "stream_step b m = m"

lemma stream_body_applies:
  assumes "stream_body (Body ev)"
  shows "ApplyEvent w m (Some ev) = Ret ((None, if ReplyID ev = MsgID m then stream_step (Body ev) m else m), w)"
  using assms by (cases "Body ev") (simp_all add: ApplyEvent_own ApplyEvent_foreign)

lemma stream_body_reply: "stream_body (Body ev) \<Longrightarrow> ReplyID ev = ReplyIDValue ev"
  by (cases "Body ev") (simp_all add: ReplyID_def)

lemma assistant_of_put [simp]: "assistant_of r = Some m \<Longrightarrow> assistant_of (put_assistant m' r) = Some m'"
  by (auto simp: assistant_of_def put_assistant_def split: option.splits if_splits)

lemma assistant_of_supply [simp]: "assistant_of (put_supply w r) = assistant_of r"
  by (simp add: assistant_of_def put_supply_def split: option.split)

lemma assistant_of_outer [simp]: "assistant_of (r\<lparr>Outer := x\<rparr>) = assistant_of r"
  by (simp add: assistant_of_def split: option.split)

definition accepting :: "'x sink \<Rightarrow> bool" where
  "accepting sink \<longleftrightarrow> (\<forall>f e x. sink = Some f \<longrightarrow> fst (f e x) = None)"

lemma hand_over_accepting:
  "accepting sink \<Longrightarrow> hand_over sink ev r = Ret (Some (Inr (),
     case sink of None \<Rightarrow> r | Some f \<Rightarrow> r\<lparr>Outer := snd (f ev (Outer r))\<rparr>))"
  by (auto simp: hand_over_def act_try_def accepting_def prod_eq_iff split: option.split sum.split prod.split)

definition stepped :: "event \<Rightarrow> ('m, 'o, 'x) run \<Rightarrow> ('m, 'o, 'x) run" where
  "stepped ev r =
     (case assistant_of r of None \<Rightarrow> r
      | Some m \<Rightarrow> put_assistant (if ReplyID ev = MsgID m then stream_step (Body ev) m else m) (put_supply (Supply (World r)) r))"

lemma stepped_parts [simp]:
  "StateReplyID (AState (stepped ev r)) = StateReplyID (AState r)" "Outer (stepped ev r) = Outer r"
  "assistant_of (stepped ev r) =
     map_option (\<lambda>m. if ReplyID ev = MsgID m then stream_step (Body ev) m else m) (assistant_of r)"
  by (auto simp: stepped_def split: option.split)

lemma stream_body_emitted:
  assumes "stream_body (Body ev)" and "accepting sink"
  shows "emitAndApply sink ev r = Ret (Some (Inr (),
    case sink of None \<Rightarrow> stepped ev r | Some f \<Rightarrow> (stepped ev r)\<lparr>Outer := snd (f ev (Outer r))\<rparr>))"
proof -
  have "apply_to_assistant ev r = Ret (Some (Inr (), stepped ev r))"
    using assms(1) by (auto simp: apply_to_assistant_def act_try_def stepped_def stream_body_applies split: option.split)
  then show ?thesis
    using assms(2) by (simp add: emitAndApply_def act_then_def act_bind_def div_bind_def hand_over_accepting split: option.split)
qed

definition recorder :: "event \<Rightarrow> event list \<Rightarrow> error option \<times> event list" where
  "recorder ev evs = (None, evs @ [ev])"

interpretation recording: emission "emitAndApply (Some recorder)" "\<lambda>r. StateReplyID (AState r) = rid"
  "\<lambda>r. map Body (Outer r)" "\<lambda>b bs. bs @ [b]" rid for rid
proof
  fix r :: "('a, 'b, event list) run" and ev :: event
  assume "StateReplyID (AState r) = rid" "stream_body (Body ev)"
  then show "\<exists>r'. emitAndApply (Some recorder) ev r = Ret (Some (Inr (), r'))
      \<and> StateReplyID (AState r') = rid \<and> map Body (Outer r') = map Body (Outer r) @ [Body ev]"
    by (simp add: stream_body_emitted accepting_def recorder_def)
qed simp_all

lemma fold_snoc: "fold (\<lambda>b bs. bs @ [b]) bs xs = xs @ bs"
  by (induction bs arbitrary: xs) simp_all

section \<open>The message that accumulates them\<close>

interpretation written: emission "emitAndApply None :: ('m, 'o, 'x) emitter"
  "\<lambda>r. StateReplyID (AState r) = rid \<and> (\<exists>m. assistant_of r = Some m \<and> MsgID m = rid)"
  assistant_of "\<lambda>b. map_option (stream_step b)" rid for rid
proof
  fix r :: "('m, 'o, 'x) run" and ev :: event
  assume r: "StateReplyID (AState r) = rid \<and> (\<exists>m. assistant_of r = Some m \<and> MsgID m = rid)"
    and ev: "ReplyIDValue ev = rid" "stream_body (Body ev)"
  have id: "MsgID (stream_step b m) = MsgID m" for b m
    by (cases "(b, m)" rule: stream_step.cases) (simp_all add: append_block_def edit_block_def)
  from r obtain m where m: "assistant_of r = Some m" "MsgID m = rid" by blast
  with r ev show "\<exists>r'. emitAndApply None ev r = Ret (Some (Inr (), r'))
      \<and> (StateReplyID (AState r') = rid \<and> (\<exists>m. assistant_of r' = Some m \<and> MsgID m = rid))
      \<and> assistant_of r' = map_option (stream_step (Body ev)) (assistant_of r)"
    by (simp add: stream_body_emitted accepting_def id stream_body_reply)
qed simp_all

text \<open>What a message holds of a whole block; the block of a URL is left without its address.\<close>

fun recorded :: "block option \<Rightarrow> blocks" where
  "recorded (Some (TextBlock t i)) = [Some (TextBlock t i)]"
| "recorded (Some (ThinkingBlock t i x)) = [Some (ThinkingBlock t i None)]"
| "recorded (Some (ToolCallBlock i n inp st rs x)) = [Some (ToolCallBlock i n inp ToolCallPending [] None)]"
| "recorded (Some (DataBlock i (Some (Base64Source d mt)) n)) = [Some (DataBlock i (Some (Base64Source d mt)) None)]"
| "recorded (Some (DataBlock i (Some (URLSource u mt)) n)) = [Some (DataBlock i (Some (Base64Source [] mt)) None)]"
| "recorded bo = []"

lemma update_first_snoc:
  "(\<forall>y\<in>set xs. \<not> p y) \<Longrightarrow> p x \<Longrightarrow> update_first p f (xs @ [x]) = xs @ [f x]"
  by (induction xs) simp_all

lemma edit_last_block:
  assumes "BlockType b = typ" "BlockID b = i" "Some (typ, i) \<notin> set (keys m)"
  shows "edit_block typ i f (append_block b m) = append_block (f b) m"
proof -
  have "\<forall>y\<in>set (Content m). \<not> block_matches typ i y"
    using assms(3) by (auto simp: keys_def block_matches_iff image_iff)
  then show ?thesis
    using assms by (simp add: edit_block_def append_block_def update_first_snoc block_matches_iff)
qed

lemma whole_block_recorded:
  assumes "\<forall>b\<in>set (recorded bo). block_key b \<notin> set (keys m)"
  shows "fold stream_step (whole_bodies bo) m = m\<lparr>Content := Content m @ recorded bo\<rparr>"
  using assms
  by (cases bo rule: recorded.cases)
     (simp_all add: edit_last_block NewToolCallBlock_def, simp_all add: append_block_def)

lemma whole_blocks_recorded:
  "distinct (keys m @ map block_key (concat (map recorded bs))) \<Longrightarrow>
     fold stream_step (concat (map whole_bodies bs)) m = m\<lparr>Content := Content m @ concat (map recorded bs)\<rparr>"
proof (induction bs arbitrary: m)
  case (Cons bo bs)
  let ?m = "m\<lparr>Content := Content m @ recorded bo\<rparr>"
  have "fold stream_step (whole_bodies bo) m = ?m"
    using Cons.prems by (intro whole_block_recorded) auto
  moreover have "distinct (keys ?m @ map block_key (concat (map recorded bs)))"
    using Cons.prems by (simp add: keys_def)
  ultimately show ?case using Cons.IH [of ?m] by simp
qed simp

lemma fold_map_option: "fold (\<lambda>b. map_option (f b)) bs (Some x) = Some (fold f bs x)"
  by (induction bs arbitrary: x) simp_all

section \<open>Every block is opened and closed in order\<close>

datatype phase = Begins | Goes_on | Stops

fun part_of :: "modelDeltaBlockKind \<Rightarrow> event_body \<Rightarrow> (phase \<times> string) option" where
  "part_of textDeltaBlock (TextBlockStart i) = Some (Begins, i)"
| "part_of textDeltaBlock (TextBlockDelta i d) = Some (Goes_on, i)"
| "part_of textDeltaBlock (TextBlockEnd i) = Some (Stops, i)"
| "part_of thinkingDeltaBlock (ThinkingBlockStart i) = Some (Begins, i)"
| "part_of thinkingDeltaBlock (ThinkingBlockDelta i d) = Some (Goes_on, i)"
| "part_of thinkingDeltaBlock (ThinkingBlockEnd i) = Some (Stops, i)"
| "part_of kind b = None"

text \<open>
  Following the blocks of one kind: the block that is open, or \<open>None\<close> once a block began inside
  another, or an event named a block that is not the open one.
\<close>

fun track :: "modelDeltaBlockKind \<Rightarrow> event_body \<Rightarrow> string option option \<Rightarrow> string option option" where
  "track kind b v =
     (case part_of kind b of
        None \<Rightarrow> v
      | Some (Begins, i) \<Rightarrow> if v = Some None then Some (Some i) else None
      | Some (Goes_on, i) \<Rightarrow> if v = Some (Some i) then v else None
      | Some (Stops, i) \<Rightarrow> if v = Some (Some i) then Some None else None)"

fun tool_balance :: "string \<Rightarrow> event_body \<Rightarrow> int" where
  "tool_balance i (ToolCallStart j n) = of_bool (j = i)"
| "tool_balance i (ToolCallEnd j) = - of_bool (j = i)"
| "tool_balance i b = 0"

definition balance :: "string \<Rightarrow> event_body list \<Rightarrow> int" where
  "balance i bs = sum_list (map (tool_balance i) bs)"

lemma balance_simps [simp]:
  "balance i [] = 0" "balance i (b # bs) = tool_balance i b + balance i bs"
  "balance i (bs @ cs) = balance i bs + balance i cs"
  by (simp_all add: balance_def)

definition open_of :: "modelDeltaBlockKind \<Rightarrow> stream_state \<Rightarrow> string option" where
  "open_of kind s = (if current_id kind s = [] then None else Some (current_id kind s))"

fun named_block :: "block option \<Rightarrow> bool" where
  "named_block (Some (TextBlock t i)) = (i \<noteq> [])"
| "named_block (Some (ThinkingBlock t i x)) = (i \<noteq> [])"
| "named_block bo = True"

definition stream_ok :: "stream_state \<Rightarrow> bool" where
  "stream_ok s \<longleftrightarrow>
     (TextID s \<noteq> [] \<longrightarrow> SeenText s \<and> Emitted s) \<and> (ThinkingID s \<noteq> [] \<longrightarrow> SeenThinking s \<and> Emitted s)
     \<and> (\<forall>i. ToolActive s i \<longrightarrow> i \<in> SeenTools s \<and> i \<in> set (ToolOrder s) \<and> Emitted s)"

text \<open>Some bodies lead from one state of the stream to another.\<close>

definition leads :: "event_body list \<Rightarrow> stream_state \<Rightarrow> stream_state \<Rightarrow> bool" where
  "leads bs s s' \<longleftrightarrow>
     (\<forall>kind. fold (track kind) bs (Some (open_of kind s)) = Some (open_of kind s'))
     \<and> (\<forall>i. balance i bs + of_bool (ToolActive s i) = of_bool (ToolActive s' i)) \<and> stream_ok s'"

lemma leads_append: "leads bs s s1 \<Longrightarrow> (stream_ok s1 \<Longrightarrow> leads cs s1 s2) \<Longrightarrow> leads (bs @ cs) s s2"
proof -
  assume one: "leads bs s s1" and two: "stream_ok s1 \<Longrightarrow> leads cs s1 s2"
  then have two: "leads cs s1 s2" by (simp add: leads_def)
  have "balance i (bs @ cs) + of_bool (ToolActive s i) = of_bool (ToolActive s2 i)" for i
  proof -
    have "balance i bs + of_bool (ToolActive s i) = of_bool (ToolActive s1 i)"
      "balance i cs + of_bool (ToolActive s1 i) = of_bool (ToolActive s2 i)"
      using one two unfolding leads_def by blast+
    then show ?thesis by simp
  qed
  with one two show "leads (bs @ cs) s s2" by (simp add: leads_def)
qed

lemma leads_same: "stream_ok s \<Longrightarrow> leads [] s s"
  by (simp add: leads_def)

lemma kinds: "kind = textDeltaBlock \<or> kind = thinkingDeltaBlock"
  by (cases kind) simp_all

lemma delta_leads:
  "b \<noteq> [] \<Longrightarrow> stream_ok s \<Longrightarrow> leads (delta_bodies kind b d s) s (delta_state kind b s)"
  by (cases kind) (auto simp: leads_def delta_bodies_def delta_state_def open_of_def current_id_def set_current_def
      mark_seen_def stream_ok_def Let_def elim!: allE [of _ thinkingDeltaBlock] split: modelDeltaBlockKind.splits)

lemma tool_leads: "stream_ok s \<Longrightarrow> leads (tool_bodies i n inp s) s (tool_state i s)"
  by (auto simp: leads_def tool_bodies_def tool_state_def open_of_def current_id_def open_tool_def stream_ok_def
      split: modelDeltaBlockKind.splits)

lemma data_leads: "stream_ok s \<Longrightarrow>
    leads (whole_bodies (Some (DataBlock i src n))) s (s\<lparr>SeenData := insert i (SeenData s), Emitted := True\<rparr>)"
proof -
  have "fold (track kind) (whole_bodies (Some (DataBlock i src n))) v = v
      \<and> balance j (whole_bodies (Some (DataBlock i src n))) = 0" for kind v j
    by (cases "Some (DataBlock i src n)" rule: whole_bodies.cases; cases kind) simp_all
  then show "stream_ok s \<Longrightarrow> ?thesis"
    by (simp add: leads_def stream_ok_def open_of_def current_id_def split: modelDeltaBlockKind.splits)
qed

lemma block_leads:
  assumes "named_block bo" "stream_ok s"
  shows "leads (block_bodies bo s) s (fst (block_state bo (s, c)))"
  using assms delta_leads tool_leads data_leads
  by (cases "(bo, (s, c))" rule: block_state.cases) (simp_all add: leads_same del: whole_bodies.simps)

lemma blocks_lead:
  "\<forall>bo\<in>set bs. named_block bo \<Longrightarrow> stream_ok (fst sc) \<Longrightarrow>
     leads (blocks_bodies bs sc) (fst sc) (fst (blocks_state bs sc))"
proof (induction bs arbitrary: sc)
  case Nil
  then show ?case by (simp add: blocks_state_def leads_same)
next
  case (Cons bo bs)
  have one: "leads (block_bodies bo (fst sc)) (fst sc) (fst (block_state bo sc))"
    using Cons.prems block_leads [of bo "fst sc" "snd sc"] by simp
  have "leads (block_bodies bo (fst sc) @ blocks_bodies bs (block_state bo sc)) (fst sc)
      (fst (blocks_state bs (block_state bo sc)))"
    using Cons.prems by (intro leads_append [OF one] Cons.IH) simp_all
  then show ?case by (simp add: blocks_state_def)
qed

lemma closing_leads: "stream_ok s \<Longrightarrow> leads (closing kind still s) s (after_closing kind still s)"
  by (cases kind) (auto simp: leads_def closing_def after_closing_def open_of_def current_id_def set_current_def
      stream_ok_def split: modelDeltaBlockKind.splits)

lemma tools_closing_leads: "stream_ok s \<Longrightarrow> leads (tools_closing current is s) s (tools_closed current is s)"
proof (induction "is" arbitrary: s)
  case Nil
  then show ?case by (simp add: leads_same)
next
  case (Cons i "is")
  let ?s = "s\<lparr>ToolActive := (ToolActive s)(i := False)\<rparr>"
  have "ToolActive s i \<Longrightarrow> leads [ToolCallEnd i] s ?s"
    using Cons.prems by (auto simp: leads_def open_of_def current_id_def stream_ok_def split: modelDeltaBlockKind.splits)
  then show ?case
    using Cons leads_append [of "[ToolCallEnd i]" s ?s "tools_closing current is ?s"] by auto
qed

lemma tools_all_closed:
  "ToolActive (tools_closed {} is s) i \<longleftrightarrow> ToolActive s i \<and> i \<notin> set is"
  by (induction "is" arbitrary: s) auto

lemma inactive_leads: "stream_ok s \<Longrightarrow> leads (inactive_bodies s c) s (inactive_state s c)"
  unfolding inactive_bodies_def inactive_state_def Let_def
  by (rule leads_append [OF closing_leads leads_append [OF closing_leads tools_closing_leads]])

lemma chunk_leads:
  assumes "\<forall>bo\<in>set bs. named_block bo" "stream_ok s"
  shows "leads (chunk_bodies bs s) s (chunk_state_after bs s)"
proof -
  obtain t c where tc: "blocks_state bs (s, no_chunk) = (t, c)" by fastforce
  have "leads (blocks_bodies bs (s, no_chunk)) s t"
    using blocks_lead [of bs "(s, no_chunk)"] assms tc by simp
  then show ?thesis
    unfolding chunk_bodies_def chunk_state_after_def tc prod.case by (rule leads_append) (rule inactive_leads)
qed

lemma stream_leads:
  "\<forall>r\<in>set rs. IsLast r \<or> (\<forall>bo\<in>set (RespContent r). named_block bo) \<Longrightarrow> stream_ok s \<Longrightarrow>
     leads (stream_bodies rs s) s (stream_after rs s)"
proof (induction rs arbitrary: s)
  case Nil
  then show ?case by (simp add: leads_same)
next
  case (Cons r rs)
  show ?case
  proof (cases "IsLast r")
    case True
    with Cons show ?thesis by simp
  next
    case False
    then have one: "leads (chunk_bodies (RespContent r) s) s (chunk_state_after (RespContent r) s)"
      using Cons.prems by (intro chunk_leads) simp_all
    have "leads (chunk_bodies (RespContent r) s @ stream_bodies rs (chunk_state_after (RespContent r) s)) s
        (stream_after rs (chunk_state_after (RespContent r) s))"
      using Cons.prems by (intro leads_append [OF one] Cons.IH) simp_all
    with False show ?thesis by simp
  qed
qed

text \<open>A whole block leaves open what was open, if nothing of its kind was.\<close>

definition fits :: "block option \<Rightarrow> stream_state \<Rightarrow> bool" where
  "fits bo s = (case bo of
     Some (TextBlock t i) \<Rightarrow> TextID s = [] | Some (ThinkingBlock t i x) \<Rightarrow> ThinkingID s = [] | _ \<Rightarrow> True)"

lemma whole_leads: "stream_ok s \<Longrightarrow> fits bo s \<Longrightarrow> leads (whole_bodies bo) s s"
proof -
  assume "fits bo s"
  then have "fold (track kind) (whole_bodies bo) (Some (open_of kind s)) = Some (open_of kind s)"
    "balance j (whole_bodies bo) = 0" for kind j
    by (cases bo rule: whole_bodies.cases; cases kind; simp add: fits_def open_of_def current_id_def)+
  then show "stream_ok s \<Longrightarrow> ?thesis" by (simp add: leads_def)
qed

lemma wholes_lead:
  "stream_ok s \<Longrightarrow> \<forall>bo\<in>set bs. p bo \<longrightarrow> fits bo s \<Longrightarrow>
     leads (concat (map (\<lambda>bo. if p bo then whole_bodies bo else []) bs)) s s"
proof (induction bs)
  case Nil
  then show ?case by (simp add: leads_same)
next
  case (Cons bo bs)
  then have "leads (if p bo then whole_bodies bo else []) s s"
    by (simp add: whole_leads leads_same)
  then show ?case
    using Cons by (auto intro: leads_append)
qed

lemma unseen_fits: "stream_ok s \<Longrightarrow> unseen s bo \<Longrightarrow> fits bo s"
  by (cases "(s, bo)" rule: unseen.cases) (auto simp: fits_def stream_ok_def)

lemma tools_closing_cong: "ToolActive s = ToolActive t \<Longrightarrow> tools_closing c is s = tools_closing c is t"
proof (induction "is" arbitrary: s t)
  case (Cons i "is")
  have "tools_closing c is (s\<lparr>ToolActive := (ToolActive t)(i := False)\<rparr>)
      = tools_closing c is (t\<lparr>ToolActive := (ToolActive t)(i := False)\<rparr>)"
    by (rule Cons.IH) simp
  moreover have "tools_closing c is s = tools_closing c is t" using Cons.prems by (rule Cons.IH)
  ultimately show ?case
    unfolding tools_closing.simps Cons.prems by simp
qed simp

lemma shut_fits: "TextID s = [] \<Longrightarrow> ThinkingID s = [] \<Longrightarrow> fits bo s"
  by (cases "(s, bo)" rule: unseen.cases) (simp_all add: fits_def)

lemma final_leads:
  assumes "stream_ok s"
  shows "fold (track kind) (final_bodies r s) (Some (open_of kind s)) = Some None
    \<and> balance i (final_bodies r s) + of_bool (ToolActive s i) = 0"
proof (cases "Emitted s")
  case False
  with assms have shut: "TextID s = []" "ThinkingID s = []" "\<not> ToolActive s i"
    by (auto simp: stream_ok_def)
  have whole: "final_bodies r s = concat (map (\<lambda>bo. if True then whole_bodies bo else []) (RespContent r))"
    using False by (simp add: final_bodies_def)
  have "leads (final_bodies r s) s s"
    unfolding whole by (rule wholes_lead [OF assms]) (use shut_fits [OF shut(1,2)] in blast)
  then have "fold (track kind) (final_bodies r s) (Some (open_of kind s)) = Some (open_of kind s)"
    "balance i (final_bodies r s) + of_bool (ToolActive s i) = of_bool (ToolActive s i)"
    unfolding leads_def by blast+
  moreover have "open_of kind s = None"
    using shut by (cases kind) (simp_all add: open_of_def current_id_def)
  ultimately show ?thesis using shut(3) by simp
next
  case True
  let ?s1 = "after_closing textDeltaBlock False s"
  let ?s2 = "after_closing thinkingDeltaBlock False ?s1"
  have same: "closing thinkingDeltaBlock False ?s1 = closing thinkingDeltaBlock False s"
    "tools_closing {} is ?s2 = tools_closing {} is s" for "is"
  proof -
    show "closing thinkingDeltaBlock False ?s1 = closing thinkingDeltaBlock False s"
      by (simp add: closing_def after_closing_def current_id_def set_current_def)
    show "tools_closing {} is ?s2 = tools_closing {} is s"
      by (rule tools_closing_cong) (simp add: after_closing_def set_current_def)
  qed
  have "leads (concat (map (\<lambda>bo. if unseen s bo then whole_bodies bo else []) (RespContent r))) s s"
    using assms unseen_fits by (intro wholes_lead) simp_all
  then have "leads (final_bodies r s) s (tools_closed {} (ToolOrder s) ?s2)"
    using True closing_leads [of s textDeltaBlock False] closing_leads [of ?s1 thinkingDeltaBlock False]
      tools_closing_leads [of ?s2 "{}" "ToolOrder s"]
    by (auto simp: final_bodies_def same intro: leads_append)
  moreover have "open_of kind (tools_closed {} (ToolOrder s) ?s2) = None"
  proof -
    have "current_id kind (tools_closed {} is t) = current_id kind t" for "is" t
      by (induction "is" arbitrary: t) (simp_all add: current_id_def split: modelDeltaBlockKind.split)
    then show ?thesis
      by (cases kind) (simp_all add: open_of_def after_closing_def current_id_def set_current_def)
  qed
  moreover have "\<not> ToolActive (tools_closed {} (ToolOrder s) ?s2) i"
    using assms by (auto simp: tools_all_closed stream_ok_def after_closing_def set_current_def)
  ultimately show ?thesis by (simp add: leads_def)
qed

lemma response_closed:
  assumes "\<forall>r\<in>set rs. IsLast r \<or> (\<forall>bo\<in>set (RespContent r). named_block bo)"
  shows "fold (track kind) (response_bodies rs r) (Some None) = Some None \<and> balance i (response_bodies rs r) = 0"
proof -
  let ?s = newModelStreamState
  have start: "open_of kind ?s = None" "\<not> ToolActive ?s i" "stream_ok ?s"
    by (cases kind) (simp_all add: newModelStreamState_def open_of_def current_id_def stream_ok_def)
  have lead: "leads (stream_bodies rs ?s) ?s (stream_after rs ?s)"
    using assms start(3) by (rule stream_leads)
  let ?t = "stream_after rs ?s"
  have "fold (track kind) (stream_bodies rs ?s) (Some (open_of kind ?s)) = Some (open_of kind ?t)"
    "balance i (stream_bodies rs ?s) + of_bool (ToolActive ?s i) = of_bool (ToolActive ?t i)" "stream_ok ?t"
    using lead unfolding leads_def by blast+
  then show ?thesis
    using start final_leads [of ?t kind r i] by (simp add: response_bodies_def)
qed

section \<open>Properties\<close>

definition demo_chunk :: "bool \<Rightarrow> blocks \<Rightarrow> chat_response" where
  "demo_chunk final bs = \<lparr>RespContent = bs, IsLast = final, RespError = None, RespID = ''c'', RespCreatedAt = ''1'',
     RespType = ''chat'', RespUsage = None, RespMetadata = None\<rparr>"

definition demo_response_stream :: "chat_response list" where
  "demo_response_stream =
     [demo_chunk False [Some (ThinkingBlock ''so'' ''k'' None), Some (TextBlock ''a'' ''t'')],
      demo_chunk False [Some (TextBlock ''b'' ''t''), Some (ToolCallBlock ''c'' ''f'' ''{'' ToolCallPending [] None)],
      demo_chunk True [Some (TextBlock ''ab'' ''t''), Some (ToolCallBlock ''c'' ''f'' ''{}'' ToolCallPending [] None),
        Some (ToolCallBlock ''d'' ''f'' ''{}'' ToolCallPending [] None)]]"

definition demo_writing :: "(unit, unit, event list) run" where
  "demo_writing = \<lparr>World = \<lparr>Supply = demo_env, ModelSt = (), OffSt = (), RunningAt = None, Running = Some demo_message\<rparr>,
     AState = demo_state\<lparr>StateReplyID := ''r1''\<rparr>, Status = None, Outer = [], Trace = []\<rparr>"



text \<open>C7: When every text and thinking block of the chunks has an identifier, the events of a stream open
  and close the text blocks and the thinking blocks one after the other, with each delta inside the
  block it names, and end each tool call as often as they start it.\<close>

theorem stream_blocks_are_closed:
  assumes "\<forall>c\<in>set rs. IsLast c \<or> (\<forall>bo\<in>set (RespContent c). named_block bo)"
    and "\<forall>c\<in>set rs. good_response c" and "final_response rs None = Some resp" and "Outer r = []"
  shows "\<exists>r'. emitChatResponseStream (emitAndApply (Some recorder)) rs r = Ret (Some (Inr resp, r'))
    \<and> fold (track kind) (map Body (Outer r')) (Some None) = Some None \<and> balance i (map Body (Outer r')) = 0"
  using recording.says_stream [OF assms(2,3), of "StateReplyID (AState r)"] response_closed [OF assms(1), of kind resp i]
    assms(4)
  by (auto simp: recording.says_def fold_snoc)

theorem stream_blocks_are_closed_witness:
  "\<exists>r'. emitChatResponseStream (emitAndApply (Some recorder)) demo_response_stream demo_writing
      = Ret (Some (Inr (demo_response_stream ! 2), r'))
    \<and> fold (track textDeltaBlock) (map Body (Outer r')) (Some None) = Some None \<and> balance ''c'' (map Body (Outer r')) = 0"
  by (rule stream_blocks_are_closed)
     (auto simp: demo_response_stream_def demo_chunk_def copied_def usage_Clone_def CloneAnyMap_def demo_writing_def
        good_response_def copyable_def)

text \<open>C8: A response that came without chunks is recorded block by block: when its blocks have keys of
  their own, the running message is extended by exactly its text, thinking, tool call and data blocks,
  in their order (a URL source as empty bytes, a tool call as pending).\<close>

theorem response_is_recorded:
  assumes "assistant_of r = Some m" and "MsgID m = StateReplyID (AState r)"
    and "distinct (keys m @ map block_key (concat (map recorded (RespContent resp))))"
  shows "\<exists>r'. emitChatResponse (emitAndApply None) resp r = Ret (Some (Inr (), r'))
    \<and> assistant_of r' = Some (m\<lparr>Content := Content m @ concat (map recorded (RespContent resp))\<rparr>)"
  using written.says_response [of "StateReplyID (AState r)" resp] whole_blocks_recorded [OF assms(3)] assms(1,2)
  by (auto simp: written.says_def fold_map_option)

theorem response_is_recorded_witness:
  "\<exists>r'. emitChatResponse (emitAndApply None) (demo_response_stream ! 2) demo_writing = Ret (Some (Inr (), r'))
    \<and> assistant_of r' = Some (demo_message\<lparr>Content := Content demo_message @ RespContent (demo_response_stream ! 2)\<rparr>)"
  using response_is_recorded [of demo_writing demo_message "demo_response_stream ! 2"]
  by (simp add: demo_writing_def assistant_of_def demo_message_def demo_response_stream_def demo_chunk_def keys_def)

end
