(* ===== verification/Agent_Config.thy ===== *)
theory Agent_Config
  imports Agent_Acting "HOL-Library.Multiset"
begin

text \<open>
  The making of an agent: the framework's errors (\<open>pkg/errors/error.go\<close>), the configuration
  (\<open>pkg/agent/config.go\<close>), and in \<open>pkg/agent/agent.go\<close> the agent itself, its options and the order
  in which middlewares are registered. Ratios are exact rationals. The agent's state stands beside
  the agent, since every reply changes it.
\<close>

section \<open>Errors\<close>

definition formatError :: "string \<Rightarrow> string \<Rightarrow> error option \<Rightarrow> string" where
  "formatError kind msg cause =
     (case cause of None \<Rightarrow> kind @ '': '' @ msg | Some e \<Rightarrow> kind @ '': '' @ msg @ '': '' @ error_text e)"

definition NewDeveloperError :: "string \<Rightarrow> error option \<Rightarrow> error" where
  "NewDeveloperError msg cause = Err (formatError ''DeveloperError'' msg cause)"

section \<open>Configuration\<close>

definition defaultCompressionPrompt :: string where
  "defaultCompressionPrompt =
     ''<system-hint>You have been working on the task described above but have not yet completed ''
     @ ''it. Now write a continuation summary that will allow you to resume work efficiently in ''
     @ ''a future context window where the conversation history will be replaced with this summary. ''
     @ ''Your summary should be structured, concise, and actionable.'' @ [CHR 0x0A]
     @ ''The current time is {current_time}.'' @ [CHR 0x0A]
     @ ''This summary may itself be summarized again later, and the conversation history it refers ''
     @ ''to will be gone, so every reference must be self-contained ''
     @ [CHR 0xE2, CHR 0x80, CHR 0x94]
     @ '' resolve anything that depends on the vanished context into an absolute, fully-qualified ''
     @ ''form:'' @ [CHR 0x0A]
     @ ''- Time: convert relative expressions ('today', 'now', 'yesterday', 'tomorrow', 'recently') ''
     @ ''to absolute dates using the current time above; re-anchor them even if an earlier summary ''
     @ ''already wrote them relatively.'' @ [CHR 0x0A]
     @ ''- Names & pointers: use file paths, symbol names, PR/issue numbers, IDs, URLs, and exact ''
     @ ''commands/error strings verbatim instead of 'this file', 'the above', 'the second approach', ''
     @ [CHR 0x27] @ ''the 5 failing tests'.'' @ [CHR 0x0A]
     @ ''- In-flight work: record everything still pending, especially tools launched in the background ''
     @ ''whose results you are still waiting on '' @ [CHR 0xE2, CHR 0x80, CHR 0x94]
     @ '' give each one's id and a short note of what it is doing ''
     @ [CHR 0xE2, CHR 0x80, CHR 0x94]
     @ '' and mark each item's owner (user request vs your own decision) and status (done / pending ''
     @ ''/ blocked).'' @ [CHR 0x0A] @ ''</system-hint>''"

definition defaultSummaryTemplate :: string where
  "defaultSummaryTemplate =
     ''<system-info>Here is a summary of your previous work'' @ [CHR 0x0A] @ ''# Task Overview''
     @ [CHR 0x0A] @ ''{task_overview}'' @ [CHR 0x0A, CHR 0x0A] @ ''# Current State'' @ [CHR 0x0A]
     @ ''{current_state}'' @ [CHR 0x0A, CHR 0x0A] @ ''# Important Discoveries'' @ [CHR 0x0A]
     @ ''{important_discoveries}'' @ [CHR 0x0A, CHR 0x0A] @ ''# Next Steps'' @ [CHR 0x0A]
     @ ''{next_steps}'' @ [CHR 0x0A, CHR 0x0A] @ ''# Context to Preserve'' @ [CHR 0x0A]
     @ ''{context_to_preserve}</system-info>''"

definition summary_fields :: "string list" where
  "summary_fields = [''task_overview'', ''current_state'', ''important_discoveries'', ''next_steps'', ''context_to_preserve'']"

definition DefaultSummarySchema :: gmap where
  "DefaultSummarySchema =
     [(''type'', VStr ''object''), (''additionalProperties'', VBool False),
      (''properties'', VMap (map (\<lambda>f. (f, VMap [(''type'', VStr ''string'')])) summary_fields)),
      (''required'', VList (map VStr summary_fields))]"

definition DefaultContextConfig :: context_config where
  "DefaultContextConfig = \<lparr>TriggerRatio = 8 / 10, ReserveRatio = 1 / 10, MaxTokens = 0,
     CompressionPrompt = defaultCompressionPrompt, SummaryTemplate = defaultSummaryTemplate,
     SummarySchema = Some DefaultSummarySchema, ToolResultLimit = 50000\<rparr>"

definition context_config_Clone :: "context_config \<Rightarrow> context_config" where
  "context_config_Clone c = c\<lparr>SummarySchema := CloneAnyMap (SummarySchema c)\<rparr>"

record react_config =
  MaxIters :: int
  StopOnReject :: bool

definition DefaultReActConfig :: react_config where
  "DefaultReActConfig = \<lparr>MaxIters = 20, StopOnReject = False\<rparr>"

definition react_Validate :: "react_config \<Rightarrow> error option" where
  "react_Validate c = (if MaxIters c \<le> 0 then Some (Err ''agentscope: max iters must be positive'') else None)"

record 'm model_config =
  MaxRetries :: int
  FallbackModel :: "'m chat_model option"
  ModelToolChoice :: "tool_choice option"

definition DefaultModelConfig :: "'m model_config" where
  "DefaultModelConfig = \<lparr>MaxRetries = 3, FallbackModel = None, ModelToolChoice = None\<rparr>"

definition model_Validate :: "'m model_config \<Rightarrow> error option" where
  "model_Validate c =
     (if MaxRetries c \<le> 0 then Some (Err ''agentscope: max retries must be greater than 0'')
      else map_option (\<lambda>e. Err (''agentscope: invalid tool choice: '' @ error_text e)) (choice_Validate (ModelToolChoice c) []))"

record 'm agent_config =
  ModelCfg :: "'m model_config"
  ContextCfg :: context_config
  ReActCfg :: react_config

definition DefaultAgentConfig :: "'m agent_config" where
  "DefaultAgentConfig = \<lparr>ModelCfg = DefaultModelConfig, ContextCfg = DefaultContextConfig, ReActCfg = DefaultReActConfig\<rparr>"

definition agent_config_Clone :: "'m agent_config \<Rightarrow> 'm agent_config" where
  "agent_config_Clone c = c\<lparr>ContextCfg := context_config_Clone (ContextCfg c)\<rparr>"

definition agent_config_Validate :: "'m agent_config \<Rightarrow> error option" where
  "agent_config_Validate c =
     (case model_Validate (ModelCfg c) of
        Some e \<Rightarrow> Some (Err (''agentscope: invalid model config: '' @ error_text e))
      | None \<Rightarrow> (case config_Validate (ContextCfg c) of
            Some e \<Rightarrow> Some (Err (''agentscope: invalid context config: '' @ error_text e))
          | None \<Rightarrow> map_option (\<lambda>e. Err (''agentscope: invalid ReAct config: '' @ error_text e)) (react_Validate (ReActCfg c))))"

section \<open>The agent\<close>

text \<open>
  A model-call hook sees the model and the request of the attempt in its input, may replace either
  there, and calls the next handler or not; a compression hook wraps one pass. What the context of a
  call says (\<open>ctx.Err\<close>) and how summaries are parsed are parameters of the agent. Reply and reasoning
  hooks, which run the reply in a goroutine behind a channel, are not modelled.
\<close>

type_synonym ('m, 'o, 'x) model_step = "'m chat_model option \<times> call_request option
  \<Rightarrow> ('m, 'o, 'x, chat_response list option) act"

record ('m, 'o, 'x) agent = "'x agent_core" +
  SystemText :: string
  MainModel :: "'m chat_model"
  AgentCfg :: "'m agent_config"
  ContextStrategies :: "('m, 'o) context_strategy option list option"
  OffloaderOf :: "'o offloader option"
  SystemPromptHooks :: "(agent_state \<Rightarrow> string \<Rightarrow> error + string) list"
  ModelCallHooks :: "(('m, 'o, 'x) model_step \<Rightarrow> ('m, 'o, 'x) model_step) list"
  CompressHooks :: "(('m, 'o, 'x, unit) act \<Rightarrow> ('m, 'o, 'x, unit) act) list"
  MiddlewareTools :: "kit_tool option list"
  CallCtx :: "nat \<Rightarrow> error option"
  ParseSummary :: "string \<Rightarrow> gmap option"
  MarshalSummary :: "gmap option \<Rightarrow> string option"

type_synonym ('m, 'o, 'x) agent_option =
  "('m, 'o, 'x) agent \<times> agent_state \<Rightarrow> error + ('m, 'o, 'x) agent \<times> agent_state"

definition appendSystemPrompt :: "string \<Rightarrow> string \<Rightarrow> string" where
  "appendSystemPrompt base extra =
     (let base = TrimSpace base; extra = TrimSpace extra
      in if base = [] then extra else if extra = [] then base else base @ [CHR 0x0A] @ extra)"

definition addWorkspaceRootPermission :: "string option \<Rightarrow> agent_state \<Rightarrow> agent_state" where
  "addWorkspaceRootPermission rooted st =
     (case rooted of
        None \<Rightarrow> st
      | Some path \<Rightarrow>
          (let root = TrimSpace path in
           if root = [] then st
           else
             (let c = (case PermissionContext st of None \<Rightarrow> NewContext ModeDefault | Some c \<Rightarrow> c);
                  dirs = (case WorkingDirectories c of None \<Rightarrow> Map.empty | Some m \<Rightarrow> m);
                  dirs = (if dirs root = None then dirs(root \<mapsto> \<lparr>DirPath = root, DirSource = ''session''\<rparr>) else dirs)
              in st\<lparr>PermissionContext := Some (c\<lparr>WorkingDirectories := Some dirs\<rparr>)\<rparr>)))"

definition WithToolkit :: "'x provider option \<Rightarrow> ('m, 'o, 'x) agent_option" where
  "WithToolkit p = (\<lambda>(a, st). case p of
     None \<Rightarrow> Inl (NewDeveloperError ''agent toolkit is nil'' None)
   | Some p \<Rightarrow> Inr (a\<lparr>ToolkitOf := p\<rparr>, st))"

definition WithAdditionalToolkit :: "'x provider option \<Rightarrow> ('m, 'o, 'x) agent_option" where
  "WithAdditionalToolkit p = (\<lambda>(a, st). case p of
     None \<Rightarrow> Inl (NewDeveloperError ''agent toolkit is nil'' None)
   | Some p \<Rightarrow> Inr (a\<lparr>ToolkitOf := the (composeToolProviders (Some (ToolkitOf a)) (Some p))\<rparr>, st))"

definition WithOffloader :: "'o offloader option \<Rightarrow> ('m, 'o, 'x) agent_option" where
  "WithOffloader off = (\<lambda>(a, st). case off of
     None \<Rightarrow> Inl (NewDeveloperError ''agent offloader is nil'' None)
   | Some off \<Rightarrow> Inr (a\<lparr>OffloaderOf := Some off\<rparr>, st))"

text \<open>What a workspace gives an agent (\<open>AgentResources\<close>), and its root if it has one.\<close>

record ('o, 'x) agent_resources =
  ResPrompt :: string
  ResToolkit :: "'x provider option"
  ResOffloader :: "'o offloader option"

definition WithWorkspace :: "error + ('o, 'x) agent_resources \<Rightarrow> string option \<Rightarrow> ('m, 'o, 'x) agent_option" where
  "WithWorkspace built rooted = (\<lambda>(a, st). case built of
     Inl e \<Rightarrow> Inl (NewDeveloperError ''invalid agent workspace'' (Some e))
   | Inr res \<Rightarrow>
       Inr (a\<lparr>SystemText := appendSystemPrompt (SystemText a) (ResPrompt res),
              ToolkitOf := the (ResToolkit res), OffloaderOf := ResOffloader res\<rparr>,
            addWorkspaceRootPermission rooted st))"

definition WithAgentResources :: "('o, 'x) agent_resources option \<Rightarrow> ('m, 'o, 'x) agent_option" where
  "WithAgentResources ro = (\<lambda>(a, st). case ro of
     None \<Rightarrow> Inl (NewDeveloperError ''agent resources are nil'' None)
   | Some res \<Rightarrow>
       (let a = a\<lparr>SystemText := appendSystemPrompt (SystemText a) (ResPrompt res)\<rparr>;
            a = (case ResToolkit res of None \<Rightarrow> a | Some p \<Rightarrow> a\<lparr>ToolkitOf := p\<rparr>);
            a = (case ResOffloader res of None \<Rightarrow> a | Some off \<Rightarrow> a\<lparr>OffloaderOf := Some off\<rparr>)
        in Inr (a, st)))"

definition WithAgentState :: "agent_state option \<Rightarrow> ('m, 'o, 'x) agent_option" where
  "WithAgentState so = (\<lambda>(a, st). case so of
     None \<Rightarrow> Inl (NewDeveloperError ''agent state is nil'' None) | Some st \<Rightarrow> Inr (a, st))"

definition WithAgentConfig :: "'m agent_config \<Rightarrow> ('m, 'o, 'x) agent_option" where
  "WithAgentConfig c = (\<lambda>(a, st). case agent_config_Validate c of
     Some e \<Rightarrow> Inl (NewDeveloperError ''invalid agent config'' (Some e))
   | None \<Rightarrow> Inr (a\<lparr>AgentCfg := agent_config_Clone c\<rparr>, st))"

definition WithModelConfig :: "'m model_config \<Rightarrow> ('m, 'o, 'x) agent_option" where
  "WithModelConfig c = (\<lambda>(a, st). case model_Validate c of
     Some e \<Rightarrow> Inl (NewDeveloperError ''invalid model config'' (Some e))
   | None \<Rightarrow> Inr (a\<lparr>AgentCfg := (AgentCfg a)\<lparr>ModelCfg := c\<rparr>\<rparr>, st))"

definition WithContextConfig :: "context_config \<Rightarrow> ('m, 'o, 'x) agent_option" where
  "WithContextConfig c = (\<lambda>(a, st). case config_Validate c of
     Some e \<Rightarrow> Inl (NewDeveloperError ''invalid context config'' (Some e))
   | None \<Rightarrow> Inr (a\<lparr>AgentCfg := (AgentCfg a)\<lparr>ContextCfg := context_config_Clone c\<rparr>\<rparr>, st))"

definition WithContextStrategies :: "('m, 'o) context_strategy option list \<Rightarrow> ('m, 'o, 'x) agent_option" where
  "WithContextStrategies ss = (\<lambda>(a, st).
     if None \<in> set ss then Inl (NewDeveloperError ''agent context strategy is nil'' None)
     else Inr (a\<lparr>ContextStrategies := (if ss = [] then None else Some ss)\<rparr>, st))"

definition WithAutoPermissionClassifier :: "classifier option \<Rightarrow> ('m, 'o, 'x) agent_option" where
  "WithAutoPermissionClassifier co = (\<lambda>(a, st). case co of
     None \<Rightarrow> Inl (NewDeveloperError ''agent auto permission classifier is nil'' None)
   | Some cl \<Rightarrow> Inr (a\<lparr>PermissionClassifier := Some cl\<rparr>, st))"

definition WithSecurityAuditLogger :: "(audit_event \<Rightarrow> 'x \<Rightarrow> 'x) option \<Rightarrow> ('m, 'o, 'x) agent_option" where
  "WithSecurityAuditLogger lo = (\<lambda>(a, st). case lo of
     None \<Rightarrow> Inl (NewDeveloperError ''agent security audit logger is nil'' None)
   | Some logger \<Rightarrow> Inr (a\<lparr>AuditLogger := Some logger\<rparr>, st))"

definition WithReActConfig :: "react_config \<Rightarrow> ('m, 'o, 'x) agent_option" where
  "WithReActConfig c = (\<lambda>(a, st). case react_Validate c of
     Some e \<Rightarrow> Inl (NewDeveloperError ''invalid ReAct config'' (Some e))
   | None \<Rightarrow> Inr (a\<lparr>AgentCfg := (AgentCfg a)\<lparr>ReActCfg := c\<rparr>\<rparr>, st))"

text \<open>The options in order, a nil one skipped.\<close>

fun apply_options :: "('m, 'o, 'x) agent_option option list \<Rightarrow> ('m, 'o, 'x) agent_option" where
  "apply_options [] p = Inr p"
| "apply_options (None # opts) p = apply_options opts p"
| "apply_options (Some opt # opts) p = (case opt p of Inl e \<Rightarrow> Inl e | Inr q \<Rightarrow> apply_options opts q)"

text \<open>\<open>rt\<close> has the parameters of the model: the default audit logger, the schedule of batches, JSON.\<close>

definition NewAgent :: "('m, 'o, 'x) agent \<Rightarrow> env \<Rightarrow> string \<Rightarrow> string \<Rightarrow> 'm chat_model option
    \<Rightarrow> ('m, 'o, 'x) agent_option option list \<Rightarrow> (error + ('m, 'o, 'x) agent \<times> agent_state) \<times> env" where
  "NewAgent rt w name prompt mo opts =
     (let name = TrimSpace name in
      if name = [] then (Inl (NewDeveloperError ''agent name is empty'' None), w)
      else case mo of
        None \<Rightarrow> (Inl (NewDeveloperError ''agent model is nil'' None), w)
      | Some m \<Rightarrow>
          (let (st, w) = NewAgentState w;
               a = rt\<lparr>AgentName := name, SystemText := prompt, MainModel := m, ToolkitOf := emptyToolProvider,
                      MiddlewareKit := None, PermissionClassifier := None, ActingHooks := [],
                      AgentCfg := DefaultAgentConfig, ContextStrategies := Some (map Some DefaultContextStrategies),
                      OffloaderOf := None, SystemPromptHooks := [], ModelCallHooks := [], CompressHooks := [],
                      MiddlewareTools := []\<rparr>
           in (apply_options opts (a, st), w)))"

section \<open>The order of middlewares\<close>

text \<open>What the order reads of a middleware: two of its interfaces are optional.\<close>

record 'h middleware =
  MwName :: string
  MwPriority :: "int option"
  MwDependsOn :: "string list option"
  MwHooks :: 'h

record 'h order_entry =
  EntryOf :: "'h middleware"
  EntryName :: string
  EntryPriority :: int
  Dependencies :: "string list"

definition entry_of :: "'h middleware \<Rightarrow> 'h order_entry" where
  "entry_of m = \<lparr>EntryOf = m, EntryName = TrimSpace (MwName m),
     EntryPriority = (case MwPriority m of None \<Rightarrow> 0 | Some p \<Rightarrow> p),
     Dependencies = (case MwDependsOn m of
        None \<Rightarrow> [] | Some ds \<Rightarrow> filter (\<lambda>d. d \<noteq> []) (map TrimSpace ds))\<rparr>"

fun order_entries :: "'h middleware option list \<Rightarrow> error + 'h order_entry list" where
  "order_entries [] = Inr []"
| "order_entries (None # ms) = Inl (NewDeveloperError ''agent middleware is nil'' None)"
| "order_entries (Some m # ms) =
     (if EntryName (entry_of m) = [] then Inl (NewDeveloperError ''agent middleware name is empty'' None)
      else case order_entries ms of Inl e \<Rightarrow> Inl e | Inr es \<Rightarrow> Inr (entry_of m # es))"

definition missing_dependency :: "'h order_entry list \<Rightarrow> (string \<times> string) option" where
  "missing_dependency es =
     find (\<lambda>(n, d). d \<notin> set (map EntryName es)) (concat (map (\<lambda>e. map (Pair (EntryName e)) (Dependencies e)) es))"

definition middlewareDependenciesReady :: "string list \<Rightarrow> string set \<Rightarrow> bool" where
  "middlewareDependenciesReady ds finished \<longleftrightarrow> list_all (\<lambda>d. d \<in> finished) ds"

text \<open>The first entry whose dependencies are there, and the others.\<close>

fun pick_ready :: "string set \<Rightarrow> 'h order_entry list \<Rightarrow> ('h order_entry \<times> 'h order_entry list) option" where
  "pick_ready finished [] = None"
| "pick_ready finished (e # es) =
     (if middlewareDependenciesReady (Dependencies e) finished then Some (e, es)
      else map_option (\<lambda>(f, rest). (f, e # rest)) (pick_ready finished es))"

lemma pick_ready_length: "pick_ready finished es = Some (e, rest) \<Longrightarrow> length es = Suc (length rest)"
  by (induction es arbitrary: e rest) (auto split: if_splits)

function place_ready :: "string set \<Rightarrow> 'h order_entry list \<Rightarrow> error + 'h middleware list" where
  "place_ready finished es =
     (if es = [] then Inr []
      else case pick_ready finished es of
        None \<Rightarrow> Inl (NewDeveloperError ''agent middleware dependencies cannot be ordered'' None)
      | Some (e, rest) \<Rightarrow>
          (case place_ready (insert (EntryName e) finished) rest of
             Inl err \<Rightarrow> Inl err | Inr ms \<Rightarrow> Inr (EntryOf e # ms)))"
  by auto
termination
  by (relation "measure (\<lambda>(f, es). length es)") (auto dest: pick_ready_length)

declare place_ready.simps [simp del]

definition orderMiddlewares :: "'h middleware option list \<Rightarrow> error + 'h middleware list" where
  "orderMiddlewares ms =
     (case order_entries ms of
        Inl e \<Rightarrow> Inl e
      | Inr es \<Rightarrow> (case missing_dependency es of
            Some (n, d) \<Rightarrow> Inl (NewDeveloperError
              (''agent middleware '' @ go_quote n @ '' depends on missing middleware '' @ go_quote d) None)
          | None \<Rightarrow> place_ready {} (sort_key EntryPriority es)))"

section \<open>An order that respects the dependencies\<close>

text \<open>Entries, each with its dependencies among the names that are there before it.\<close>

fun in_order :: "string set \<Rightarrow> 'h order_entry list \<Rightarrow> bool" where
  "in_order finished [] = True"
| "in_order finished (e # es) = (set (Dependencies e) \<subseteq> finished \<and> in_order (insert (EntryName e) finished) es)"

lemma in_order_mono: "in_order A es \<Longrightarrow> A \<subseteq> B \<Longrightarrow> in_order B es"
  by (induction es arbitrary: A B) (auto, blast)

lemma in_order_append: "in_order A (es @ fs) \<longleftrightarrow> in_order A es \<and> in_order (A \<union> EntryName ` set es) fs"
  by (induction es arbitrary: A) auto

lemma ready_iff: "middlewareDependenciesReady ds A \<longleftrightarrow> set ds \<subseteq> A"
  by (auto simp: middlewareDependenciesReady_def list_all_iff)

lemma pick_ready_Some:
  "pick_ready A es = Some (e, rest) \<Longrightarrow> mset es = add_mset e (mset rest) \<and> set (Dependencies e) \<subseteq> A"
  by (induction es arbitrary: e rest) (auto simp: ready_iff split: if_splits)

lemma pick_ready_None: "pick_ready A es = None \<longleftrightarrow> (\<forall>e\<in>set es. \<not> set (Dependencies e) \<subseteq> A)"
  by (induction es) (auto simp: ready_iff)

lemma place_ready_sound:
  "place_ready A es = Inr ms \<Longrightarrow> \<exists>fs. mset fs = mset es \<and> in_order A fs \<and> ms = map EntryOf fs"
proof (induction A es arbitrary: ms rule: place_ready.induct)
  case (1 A es)
  show ?case
  proof (cases "es = []")
    case True
    with 1 show ?thesis by (simp add: place_ready.simps)
  next
    case False
    with "1.prems" obtain e rest ks where p: "pick_ready A es = Some (e, rest)"
      and r: "place_ready (insert (EntryName e) A) rest = Inr ks" and ms: "ms = EntryOf e # ks"
      by (subst (asm) place_ready.simps) (auto split: option.splits sum.splits)
    from "1.IH" [OF False p refl r] obtain fs
      where "mset fs = mset rest" "in_order (insert (EntryName e) A) fs" "ks = map EntryOf fs" by blast
    with pick_ready_Some [OF p] ms show ?thesis
      by (intro exI [of _ "e # fs"]) simp
  qed
qed

text \<open>
  What is left can be ordered whenever it could be at the start: some entry of it comes first in any
  order that respects the dependencies, and that one is ready.
\<close>

lemma place_ready_complete:
  "in_order A fs \<Longrightarrow> mset fs = mset es \<Longrightarrow> \<exists>ms. place_ready A es = Inr ms"
proof (induction "length es" arbitrary: A es fs)
  case 0
  then show ?case by (simp add: place_ready.simps)
next
  case (Suc n)
  then have ne: "es \<noteq> []" by auto
  with Suc.prems obtain f fs' where f: "fs = f # fs'" by (cases fs) auto
  have "set fs = set es" using Suc.prems(2) by (rule mset_eq_setD)
  with f Suc.prems(1) have "f \<in> set es" "set (Dependencies f) \<subseteq> A" by auto
  then obtain e rest where p: "pick_ready A es = Some (e, rest)"
    using pick_ready_None by (cases "pick_ready A es") auto
  have e: "mset es = add_mset e (mset rest)" using pick_ready_Some [OF p] by blast
  then have "e \<in> set fs" using Suc.prems(2) by (metis mset_eq_setD set_mset_mset union_single_eq_member)
  then obtain us vs where fs: "fs = us @ e # vs" by (auto dest: split_list)
  have "in_order (insert (EntryName e) A) (us @ vs)"
    using Suc.prems(1) unfolding fs
    by (auto simp: in_order_append intro: in_order_mono)
  moreover have "mset (us @ vs) = mset rest" using Suc.prems(2) e fs by simp
  moreover have "n = length rest" using pick_ready_length [OF p] Suc.hyps(2) by simp
  ultimately obtain ms where "place_ready (insert (EntryName e) A) rest = Inr ms"
    using Suc.hyps(1) by blast
  with ne p show ?case by (subst place_ready.simps) simp
qed

lemma order_entries_map:
  "None \<notin> set ms \<Longrightarrow> \<forall>m\<in>set (map the ms). TrimSpace (MwName m) \<noteq> [] \<Longrightarrow>
     order_entries ms = Inr (map (entry_of \<circ> the) ms)"
  by (induction ms rule: order_entries.induct) (simp_all add: entry_of_def)

lemma find_there: "find P xs = Some x \<Longrightarrow> x \<in> set xs \<and> P x"
  by (induction xs) (auto split: if_splits)


definition demo_middleware :: "string \<Rightarrow> int \<Rightarrow> string list \<Rightarrow> unit middleware" where
  "demo_middleware n p ds = \<lparr>MwName = n, MwPriority = Some p, MwDependsOn = Some ds, MwHooks = ()\<rparr>"

definition demo_middlewares :: "unit middleware option list" where
  "demo_middlewares = [Some (demo_middleware ''a'' 1 ['' c'']), Some (demo_middleware ''b'' 2 []),
     Some (demo_middleware ''c'' 3 [''b''])]"

lemma demo_names:
  "TrimSpace ''a'' = ''a''" "TrimSpace ''b'' = ''b''" "TrimSpace ''c'' = ''c''" "TrimSpace '' c'' = ''c''"
  by (simp_all add: TrimSpace_plain TrimSpace_left plain_def)


end
