(* ===== verification/Agent_Options.thy ===== *)
theory Agent_Options
  imports Agent_Config
begin

text \<open>
  The registration of middlewares (\<open>WithMiddlewares\<close>, \<open>registerMiddleware\<close> in \<open>pkg/agent/agent.go\<close>)
  and what holds of every agent the options of the package make. A middleware is its name, priority
  and dependencies with the hooks it implements; it has neither a reply nor a reasoning hook.
\<close>

section \<open>Registering middlewares\<close>

record ('m, 'o, 'x) mw_hooks =
  OnActing :: "(tool_call \<Rightarrow> 'x tool_step \<Rightarrow> 'x tool_step) option"
  OnModelCall :: "(('m, 'o, 'x) model_step \<Rightarrow> ('m, 'o, 'x) model_step) option"
  OnCompressContext :: "(('m, 'o, 'x, unit) act \<Rightarrow> ('m, 'o, 'x, unit) act) option"
  OnSystemPrompt :: "(agent_state \<Rightarrow> string \<Rightarrow> error + string) option"
  ListTools :: "(('m, 'o, 'x) agent \<times> agent_state \<Rightarrow> error + kit_tool option list) option"

definition add_hook :: "'h option \<Rightarrow> 'h list \<Rightarrow> 'h list" where
  "add_hook ho hooks = hooks @ (case ho of None \<Rightarrow> [] | Some hook \<Rightarrow> [hook])"

text \<open>\<open>provide\<close> is a toolkit seen as a provider (\<open>toolkit_provider\<close> with its parameters).\<close>

definition registerMiddleware :: "(toolkit \<Rightarrow> 'x provider) \<Rightarrow> ('m, 'o, 'x) mw_hooks middleware
    \<Rightarrow> ('m, 'o, 'x) agent_option" where
  "registerMiddleware provide mw = (\<lambda>(a, st).
     let h = MwHooks mw;
         a = a\<lparr>ActingHooks := add_hook (OnActing h) (ActingHooks a),
               ModelCallHooks := add_hook (OnModelCall h) (ModelCallHooks a),
               CompressHooks := add_hook (OnCompressContext h) (CompressHooks a),
               SystemPromptHooks := add_hook (OnSystemPrompt h) (SystemPromptHooks a)\<rparr>
     in case ListTools h of
          None \<Rightarrow> Inr (a, st)
        | Some tools \<Rightarrow>
            (case tools (a, st) of
               Inl e \<Rightarrow> Inl (NewDeveloperError
                 (''agent middleware '' @ go_quote (MwName mw) @ '' failed to list tools'') (Some e))
             | Inr ts \<Rightarrow>
                 if ts = [] then Inr (a, st)
                 else (let ts = MiddlewareTools a @ ts in
                   case NewToolkit ts of
                     Inl e \<Rightarrow> Inl (NewDeveloperError
                       (''agent middleware '' @ go_quote (MwName mw) @ '' provided invalid tools'') (Some e))
                   | Inr kit \<Rightarrow> Inr (a\<lparr>MiddlewareTools := ts, MiddlewareKit := Some (provide kit)\<rparr>, st))))"

fun register_middlewares :: "(toolkit \<Rightarrow> 'x provider) \<Rightarrow> ('m, 'o, 'x) mw_hooks middleware list
    \<Rightarrow> ('m, 'o, 'x) agent_option" where
  "register_middlewares provide [] p = Inr p"
| "register_middlewares provide (mw # mws) p =
     (case registerMiddleware provide mw p of Inl e \<Rightarrow> Inl e | Inr q \<Rightarrow> register_middlewares provide mws q)"

definition WithMiddlewares :: "(toolkit \<Rightarrow> 'x provider) \<Rightarrow> ('m, 'o, 'x) mw_hooks middleware option list
    \<Rightarrow> ('m, 'o, 'x) agent_option" where
  "WithMiddlewares provide mws p =
     (case orderMiddlewares mws of Inl e \<Rightarrow> Inl e | Inr ordered \<Rightarrow> register_middlewares provide ordered p)"

section \<open>Every agent is well formed\<close>

text \<open>The options of the package.\<close>

inductive package_option :: "(toolkit \<Rightarrow> 'x provider) \<Rightarrow> ('m, 'o, 'x) agent_option \<Rightarrow> bool"
  for provide :: "toolkit \<Rightarrow> 'x provider" where
  "package_option provide (WithToolkit p)"
| "package_option provide (WithAdditionalToolkit p)"
| "package_option provide (WithOffloader off)"
| "package_option provide (WithWorkspace built rooted)"
| "package_option provide (WithAgentResources res)"
| "package_option provide (WithAgentState so)"
| "package_option provide (WithAgentConfig c)"
| "package_option provide (WithModelConfig mc)"
| "package_option provide (WithContextConfig cc)"
| "package_option provide (WithContextStrategies ss)"
| "package_option provide (WithAutoPermissionClassifier cl)"
| "package_option provide (WithSecurityAuditLogger logger)"
| "package_option provide (WithReActConfig rc)"
| "package_option provide (WithMiddlewares provide mws)"

definition well_formed :: "(toolkit \<Rightarrow> 'x provider) \<Rightarrow> ('m, 'o, 'x) agent \<Rightarrow> bool" where
  "well_formed provide a \<longleftrightarrow>
     AgentName a \<noteq> [] \<and> agent_config_Validate (AgentCfg a) = None
     \<and> (case ContextStrategies a of None \<Rightarrow> True | Some ss \<Rightarrow> ss \<noteq> [] \<and> None \<notin> set ss)
     \<and> (if MiddlewareTools a = [] then MiddlewareKit a = None
        else \<exists>kit. NewToolkit (MiddlewareTools a) = Inr kit \<and> MiddlewareKit a = Some (provide kit))"

lemma config_parts:
  "agent_config_Validate c = None \<longleftrightarrow>
     model_Validate (ModelCfg c) = None \<and> config_Validate (ContextCfg c) = None \<and> react_Validate (ReActCfg c) = None"
  by (simp add: agent_config_Validate_def split: option.split)

lemma clone_valid [simp]: "config_Validate (context_config_Clone c) = config_Validate c"
  by (simp add: config_Validate_def context_config_Clone_def)

lemma default_config_valid: "agent_config_Validate DefaultAgentConfig = None"
  by (simp add: config_parts DefaultAgentConfig_def DefaultModelConfig_def model_Validate_def choice_Validate_def
      DefaultContextConfig_def config_Validate_def DefaultReActConfig_def react_Validate_def)

lemma register_well_formed:
  "well_formed provide a \<Longrightarrow> registerMiddleware provide mw (a, st) = Inr (a', st') \<Longrightarrow> well_formed provide a'"
  by (auto simp: registerMiddleware_def well_formed_def Let_def split: option.splits sum.splits if_splits)

lemma registers_well_formed:
  "well_formed provide a \<Longrightarrow> register_middlewares provide mws (a, st) = Inr (a', st') \<Longrightarrow> well_formed provide a'"
  by (induction mws arbitrary: a st) (auto dest: register_well_formed split: sum.splits)

lemma same_fields_well_formed:
  "well_formed provide a \<Longrightarrow> AgentName a' = AgentName a \<Longrightarrow> AgentCfg a' = AgentCfg a
     \<Longrightarrow> ContextStrategies a' = ContextStrategies a \<Longrightarrow> MiddlewareTools a' = MiddlewareTools a
     \<Longrightarrow> MiddlewareKit a' = MiddlewareKit a \<Longrightarrow> well_formed provide a'"
  by (simp add: well_formed_def)

lemma new_config_well_formed:
  "well_formed provide a \<Longrightarrow> agent_config_Validate c = None \<Longrightarrow> well_formed provide (a\<lparr>AgentCfg := c\<rparr>)"
  by (simp add: well_formed_def)

lemma config_well_formed: "well_formed provide a \<Longrightarrow> agent_config_Validate (AgentCfg a) = None"
  by (simp add: well_formed_def)

lemma configured_well_formed:
  assumes "well_formed provide a"
  shows "WithAgentConfig c (a, st) = Inr (a', st') \<Longrightarrow> well_formed provide a'"
    and "WithModelConfig mc (a, st) = Inr (a', st') \<Longrightarrow> well_formed provide a'"
    and "WithContextConfig cc (a, st) = Inr (a', st') \<Longrightarrow> well_formed provide a'"
    and "WithReActConfig rc (a, st) = Inr (a', st') \<Longrightarrow> well_formed provide a'"
    and "WithContextStrategies ss (a, st) = Inr (a', st') \<Longrightarrow> well_formed provide a'"
proof -
  have new: "well_formed provide (a\<lparr>AgentCfg := c\<rparr>)" if "agent_config_Validate c = None" for c
    using assms that by (rule new_config_well_formed)
  note old = config_well_formed [OF assms, unfolded config_parts]
  show "WithAgentConfig c (a, st) = Inr (a', st') \<Longrightarrow> well_formed provide a'"
    by (auto simp: WithAgentConfig_def agent_config_Clone_def config_parts intro!: new split: option.splits)
  show "WithModelConfig mc (a, st) = Inr (a', st') \<Longrightarrow> well_formed provide a'"
    using old by (auto simp: WithModelConfig_def config_parts intro!: new split: option.splits)
  show "WithContextConfig cc (a, st) = Inr (a', st') \<Longrightarrow> well_formed provide a'"
    using old by (auto simp: WithContextConfig_def config_parts intro!: new split: option.splits)
  show "WithReActConfig rc (a, st) = Inr (a', st') \<Longrightarrow> well_formed provide a'"
    using old by (auto simp: WithReActConfig_def config_parts intro!: new split: option.splits)
  assume "WithContextStrategies ss (a, st) = Inr (a', st')"
  then have "None \<notin> set ss" "a' = a\<lparr>ContextStrategies := (if ss = [] then None else Some ss)\<rparr>"
    by (simp_all add: WithContextStrategies_def split: if_splits)
  with assms show "well_formed provide a'" by (simp add: well_formed_def)
qed

lemma option_well_formed:
  assumes "package_option provide opt" and "well_formed provide a" and "opt (a, st) = Inr (a', st')"
  shows "well_formed provide a'"
  using assms(1)
proof cases
  case 1
  with assms(3) show ?thesis
    by (auto simp: WithToolkit_def Let_def split: option.splits sum.splits intro: same_fields_well_formed [OF assms(2)])
next
  case 2
  with assms(3) show ?thesis
    by (auto simp: WithAdditionalToolkit_def Let_def split: option.splits sum.splits intro: same_fields_well_formed [OF assms(2)])
next
  case 3
  with assms(3) show ?thesis
    by (auto simp: WithOffloader_def Let_def split: option.splits sum.splits intro: same_fields_well_formed [OF assms(2)])
next
  case 4
  with assms(3) show ?thesis
    by (auto simp: WithWorkspace_def Let_def split: option.splits sum.splits intro: same_fields_well_formed [OF assms(2)])
next
  case 5
  with assms(3) show ?thesis
    by (auto simp: WithAgentResources_def Let_def split: option.splits sum.splits intro: same_fields_well_formed [OF assms(2)])
next
  case 6
  with assms(3) show ?thesis
    by (auto simp: WithAgentState_def Let_def split: option.splits sum.splits intro: same_fields_well_formed [OF assms(2)])
next
  case 7
  with assms(3) show ?thesis by (auto dest: configured_well_formed [OF assms(2)])
next
  case 8
  with assms(3) show ?thesis by (auto dest: configured_well_formed [OF assms(2)])
next
  case 9
  with assms(3) show ?thesis by (auto dest: configured_well_formed [OF assms(2)])
next
  case 10
  with assms(3) show ?thesis by (auto dest: configured_well_formed [OF assms(2)])
next
  case 11
  with assms(3) show ?thesis
    by (auto simp: WithAutoPermissionClassifier_def Let_def split: option.splits sum.splits intro: same_fields_well_formed [OF assms(2)])
next
  case 12
  with assms(3) show ?thesis
    by (auto simp: WithSecurityAuditLogger_def Let_def split: option.splits sum.splits intro: same_fields_well_formed [OF assms(2)])
next
  case 13
  with assms(3) show ?thesis by (auto dest: configured_well_formed [OF assms(2)])
next
  case 14
  with assms(2,3) show ?thesis
    by (auto simp: WithMiddlewares_def dest: registers_well_formed split: sum.splits)
qed

lemma options_well_formed:
  "\<forall>opt. Some opt \<in> set opts \<longrightarrow> package_option provide opt \<Longrightarrow> well_formed provide a
     \<Longrightarrow> apply_options opts (a, st) = Inr (a', st') \<Longrightarrow> well_formed provide a'"
proof (induction opts "(a, st)" arbitrary: a st rule: apply_options.induct)
  case (3 opt opts a st)
  from "3.prems"(3) obtain a1 st1 where one: "opt (a, st) = Inr (a1, st1)"
    and rest: "apply_options opts (a1, st1) = Inr (a', st')" by (auto split: sum.splits)
  have "well_formed provide a1"
    by (rule option_well_formed [where opt = opt and a = a and st = st and st' = st1]) (use "3.prems"(1,2) one in simp_all)
  with "3.prems"(1) rest show ?case using "3.hyps" one by (auto simp: one)
qed simp_all

text \<open>C16: Whatever options of the package an agent is made with, in whatever order: if it is made at all
  its name is not blank, its configuration is valid (so there is at least one try for the model and
  one iteration), none of its context strategies is nil, and the tools its middlewares brought are
  exactly those of the toolkit it looks them up in.\<close>

theorem made_agents_are_well_formed:
  assumes "NewAgent rt w name prompt mo opts = (Inr (a, st), w')"
    and "\<forall>opt. Some opt \<in> set opts \<longrightarrow> package_option provide opt"
  shows "well_formed provide a"
proof -
  from assms(1) obtain m st0 where made: "TrimSpace name \<noteq> []"
    "apply_options opts (rt\<lparr>AgentName := TrimSpace name, SystemText := prompt, MainModel := m, ToolkitOf := emptyToolProvider,
        MiddlewareKit := None, PermissionClassifier := None, ActingHooks := [],
        AgentCfg := DefaultAgentConfig, ContextStrategies := Some (map Some DefaultContextStrategies),
        OffloaderOf := None, SystemPromptHooks := [], ModelCallHooks := [], CompressHooks := [],
        MiddlewareTools := []\<rparr>, st0) = Inr (a, st)"
    by (auto simp: NewAgent_def Let_def split: if_splits option.splits prod.splits)
  show ?thesis
    by (rule options_well_formed [OF assms(2) _ made(2)])
       (use made(1) in \<open>simp add: well_formed_def default_config_valid, simp add: DefaultContextStrategies_def\<close>)
qed

definition bare_agent :: "(unit, unit, unit) agent" where
  "bare_agent = \<lparr>AgentName = [], ToolkitOf = emptyToolProvider, MiddlewareKit = None,
     PermissionClassifier = None, AuditLogger = None, ActingHooks = [], BatchOrder = (\<lambda>n. []),
     MarshalGo = (\<lambda>v. Inr ''{}''), UnmarshalGo = (\<lambda>s. Inr (VMap [])),
     SystemText = [], MainModel = short_model, AgentCfg = DefaultAgentConfig, ContextStrategies = None,
     OffloaderOf = None, SystemPromptHooks = [], ModelCallHooks = [], CompressHooks = [], MiddlewareTools = [],
     CallCtx = (\<lambda>n. None), ParseSummary = (\<lambda>s. None), MarshalSummary = (\<lambda>m. None)\<rparr>"

definition brief_react :: "(unit, unit, unit) agent_option" where
  "brief_react = WithReActConfig \<lparr>MaxIters = 5, StopOnReject = False\<rparr>"

theorem made_agents_are_well_formed_witness:
  "\<exists>a st w'. NewAgent bare_agent demo_env '' a '' ''You help.'' (Some short_model) [Some brief_react, None] = (Inr (a, st), w')
    \<and> well_formed (\<lambda>kit. emptyToolProvider) a \<and> AgentName a = ''a'' \<and> MaxIters (ReActCfg (AgentCfg a)) = 5"
proof -
  have name: "TrimSpace '' a '' = ''a''" by code_simp
  obtain st0 w0 where "NewAgentState demo_env = (st0, w0)" by (cases "NewAgentState demo_env")
  then obtain a st w' where made: "NewAgent bare_agent demo_env '' a '' ''You help.'' (Some short_model) [Some brief_react, None] = (Inr (a, st), w')"
    and a: "AgentName a = ''a''" "MaxIters (ReActCfg (AgentCfg a)) = 5"
    by (simp add: NewAgent_def name Let_def brief_react_def WithReActConfig_def react_Validate_def split: prod.splits)
  have opt: "package_option (\<lambda>kit. emptyToolProvider) brief_react"
    unfolding brief_react_def by (rule package_option.intros)
  have "well_formed (\<lambda>kit. emptyToolProvider) a"
    by (rule made_agents_are_well_formed [OF made]) (simp add: opt)
  with made a show ?thesis by blast
qed

end
