(* ===== verification/Agent_Loop.thy ===== *)
theory Agent_Loop
  imports Agent_Config Agent_Stream "HOL-Library.While_Combinator"
begin

text \<open>
  The reply loop of an agent (\<open>pkg/agent/agent.go\<close> and the model call of \<open>reasoning.go\<close>): the
  request, the model with its retries and fallback, one reasoning phase, the turns of the loop, the
  input of a reply and the observations made between replies. The mutex that serialises replies and
  the goroutine behind reply and reasoning hooks are not modelled: a reply is one run of an agent
  without such hooks.

  The loop is a \<open>while\<close> whose result \<open>Ret None\<close> says that it does not return: the counter is a field of
  the state, which the hooks the loop calls may write.
\<close>

section \<open>Repeating a step\<close>

text \<open>A step that failed, with its error as a value; and a step that never returns.\<close>

definition act_attempt :: "('m, 'o, 'x, 'a) act \<Rightarrow> ('m, 'o, 'x, error + 'a) act" where
  "act_attempt m r = div_bind (m r) (\<lambda>(x, r). Ret (Some (Inr x, r)))"

definition act_hang :: "('m, 'o, 'x, 'a) act" where
  "act_hang r = Ret None"

datatype ('m, 'o, 'x) turn = Turn "('m, 'o, 'x) run" | Finished "((error + unit) \<times> ('m, 'o, 'x) run) option go"

fun is_turn :: "('m, 'o, 'x) turn \<Rightarrow> bool" where
  "is_turn (Turn r) = True"
| "is_turn (Finished x) = False"

fun turn_of :: "((error + bool) \<times> ('m, 'o, 'x) run) option go \<Rightarrow> ('m, 'o, 'x) turn" where
  "turn_of Panic = Finished Panic"
| "turn_of (Ret None) = Finished (Ret None)"
| "turn_of (Ret (Some (Inl e, r))) = Finished (Ret (Some (Inl e, r)))"
| "turn_of (Ret (Some (Inr again, r))) = (if again then Turn r else Finished (Ret (Some (Inr (), r))))"

fun next_turn :: "('m, 'o, 'x, bool) act \<Rightarrow> ('m, 'o, 'x) turn \<Rightarrow> ('m, 'o, 'x) turn" where
  "next_turn m (Turn r) = turn_of (m r)"
| "next_turn m (Finished x) = Finished x"

text \<open>Repeating \<open>m\<close> as long as it returns true.\<close>

definition act_loop :: "('m, 'o, 'x, bool) act \<Rightarrow> ('m, 'o, 'x, unit) act" where
  "act_loop m r =
     (case while_option is_turn (next_turn m) (Turn r) of Some (Finished x) \<Rightarrow> x | t \<Rightarrow> Ret None)"

section \<open>The context of a model call\<close>

definition system_prompt :: "('m, 'o, 'x) agent \<Rightarrow> agent_state \<Rightarrow> error + string" where
  "system_prompt a st = ApplySystemPromptHooks (SystemText a) (map (\<lambda>hook. hook st) (SystemPromptHooks a))"

definition newContextStrategyInput :: "('m, 'o, 'x) agent \<Rightarrow> ('m, 'o, 'x) run \<Rightarrow> ('m, 'o) strategy_input" where
  "newContextStrategyInput a r =
     \<lparr>Model = MainModel a, Offloader = OffloaderOf a, Config = ContextCfg (AgentCfg a),
      SystemPrompt = system_prompt a (AState r), Schemas = PSchemas (provider_of a) (activeGroups r),
      CtxAt = CallCtx a, ParseObject = ParseSummary a, MarshalSchema = MarshalSummary a\<rparr>"

definition compress_pass :: "('m, 'o, 'x) agent \<Rightarrow> ('m, 'o, 'x, unit) act" where
  "compress_pass a r =
     div_bind (compressContext (ContextStrategies a) (newContextStrategyInput a r) (World r) (AState r) (Status r))
       (\<lambda>((e, st, cs), w).
         Ret (Some (case e of None \<Rightarrow> Inr () | Some e \<Rightarrow> Inl e, r\<lparr>World := w, AState := st, Status := cs\<rparr>)))"

definition CompressContext :: "('m, 'o, 'x) agent \<Rightarrow> ('m, 'o, 'x, unit) act" where
  "CompressContext a = apply_hooks (CompressHooks a) (compress_pass a)"

definition prepareModelInput :: "('m, 'o, 'x) agent \<Rightarrow> ('m, 'o, 'x, call_request) act" where
  "prepareModelInput a = act_try (\<lambda>r.
     go_bind (prompt_messages (Supply (World r)) (system_prompt a (AState r)) (AState r)) (\<lambda>(res, w).
       let r = put_supply w r in
       case res of
         Inl e \<Rightarrow> Ret (Inl e, r)
       | Inr front \<Rightarrow>
           go_bind (model_messages (Messages (AState r))) (\<lambda>ms.
             case PSchemas (provider_of a) (activeGroups r) of
               Inl e \<Rightarrow> Ret (Inl e, r)
             | Inr tools \<Rightarrow>
                 Ret (Inr ((plain_request (front @ ms) tools)\<lparr>ReqToolChoice := ModelToolChoice (ModelCfg (AgentCfg a))\<rparr>), r))))"

section \<open>The model with its retries\<close>

definition act_clone :: "call_request \<Rightarrow> ('m, 'o, 'x, call_request) act" where
  "act_clone q = act_go (\<lambda>r. go_bind (request_Clone q) (\<lambda>q. Ret (q, r)))"

definition open_stream :: "'m chat_model \<Rightarrow> call_request \<Rightarrow> ('m, 'o, 'x, chat_response list option) act" where
  "open_stream m q = act_try (\<lambda>r.
     let (res, s) = ModelStream m (q\<lparr>ReqStream := True\<rparr>) (ModelSt (World r))
     in Ret (res, r\<lparr>World := (World r)\<lparr>ModelSt := s\<rparr>\<rparr>))"

text \<open>
  The innermost handler of the model-call hooks: what the input names by then, or what the attempt
  began with where the input does not name a model or a request.
\<close>

definition call_final :: "'m chat_model \<Rightarrow> call_request \<Rightarrow> ('m, 'o, 'x) model_step" where
  "call_final m current = (\<lambda>(mo, qo).
     act_bind (case qo of None \<Rightarrow> act_ret current | Some q \<Rightarrow> act_clone q)
       (open_stream (case mo of None \<Rightarrow> m | Some m \<Rightarrow> m)))"

definition call_attempt :: "('m, 'o, 'x) agent \<Rightarrow> call_request \<Rightarrow> 'm chat_model
    \<Rightarrow> ('m, 'o, 'x, chat_response list option) act" where
  "call_attempt a q m =
     act_bind (act_clone q) (\<lambda>current. act_bind (act_clone current) (\<lambda>shown.
       apply_hooks (ModelCallHooks a) (call_final m current) (Some m, Some shown)))"

fun try_models :: "('m, 'o, 'x) agent \<Rightarrow> call_request \<Rightarrow> 'm chat_model list \<Rightarrow> error option
    \<Rightarrow> ('m, 'o, 'x, chat_response list option) act" where
  "try_models a q [] failure = (case failure of None \<Rightarrow> act_ret None | Some e \<Rightarrow> act_fail e)"
| "try_models a q (m # ms) failure =
     act_bind (act_attempt (call_attempt a q m)) (\<lambda>res.
       case res of
         Inl e \<Rightarrow> try_models a q ms (Some e)
       | Inr None \<Rightarrow> act_fail (Err ''agentscope: model returned nil response stream'')
       | Inr (Some rs) \<Rightarrow> act_ret (Some rs))"

definition model_attempts :: "('m, 'o, 'x) agent \<Rightarrow> 'm chat_model list" where
  "model_attempts a =
     (let c = ModelCfg (AgentCfg a); models = MainModel a # (case FallbackModel c of None \<Rightarrow> [] | Some m \<Rightarrow> [m])
      in concat (map (replicate (nat (MaxRetries c))) models))"

definition callModel :: "('m, 'o, 'x) agent \<Rightarrow> call_request \<Rightarrow> ('m, 'o, 'x, chat_response list option) act" where
  "callModel a q = try_models a q (model_attempts a) None"

section \<open>Reasoning\<close>

text \<open>Receiving from a nil channel never ends.\<close>

definition reason :: "('m, 'o, 'x) agent \<Rightarrow> ('m, 'o, 'x) emitter \<Rightarrow> ('m, 'o, 'x, unit) act" where
  "reason a emit =
     act_then (emit_made emit (\<lambda>w rid. NewModelCallStartEvent w rid (ModelName (MainModel a))))
     (act_bind (prepareModelInput a) (\<lambda>q.
      act_bind (callModel a q) (\<lambda>responses.
        case responses of
          None \<Rightarrow> act_hang
        | Some rs \<Rightarrow>
            act_bind (emitChatResponseStream emit rs) (\<lambda>resp.
              let (i, out) = (case RespUsage resp of None \<Rightarrow> (0, 0) | Some u \<Rightarrow> (ChatInputTokens u, ChatOutputTokens u))
              in emit_made emit (\<lambda>w rid. NewModelCallEndEvent w rid i out)))))"

definition runReasoning :: "('m, 'o, 'x) agent \<Rightarrow> 'x sink \<Rightarrow> ('m, 'o, 'x, unit) act" where
  "runReasoning a emit = reason a (emitAndApply emit)"

section \<open>The turns of a reply\<close>

definition pending_now :: "('m, 'o, 'x, nat list) act" where
  "pending_now = act_get (\<lambda>r. pendingToolCalls (assistant_of r))"

definition end_reply :: "'x sink \<Rightarrow> ('m, 'o, 'x, unit) act" where
  "end_reply emit = act_bind (act_get (\<lambda>r. SessionID (AState r))) (\<lambda>s. emit_new emit (\<lambda>w rid. NewReplyEndEvent w s rid))"

definition next_iteration :: "('m, 'o, 'x, unit) act" where
  "next_iteration = act_modify (\<lambda>r. r\<lparr>AState := (AState r)\<lparr>CurIter := wrap64 (CurIter (AState r) + 1)\<rparr>\<rparr>)"

text \<open>The second half of a turn: acting on the pending calls. The value says whether the loop goes on.\<close>

definition acting_turn :: "('m, 'o, 'x) agent \<Rightarrow> 'x sink \<Rightarrow> nat list \<Rightarrow> ('m, 'o, 'x, bool) act" where
  "acting_turn a emit ks =
     act_bind (runActing a emit ks) (\<lambda>waiting.
       if waiting then act_then (end_reply emit) (act_ret False)
       else act_then (CompressContext a) (act_then next_iteration (act_ret True)))"

definition reasoning_turn :: "('m, 'o, 'x) agent \<Rightarrow> 'x sink \<Rightarrow> ('m, 'o, 'x, bool) act" where
  "reasoning_turn a emit =
     act_then (runReasoning a emit) (act_bind pending_now (\<lambda>ks.
       if ks = [] then act_then (end_reply emit) (act_ret False) else acting_turn a emit ks))"

definition reply_turn :: "('m, 'o, 'x) agent \<Rightarrow> 'x sink \<Rightarrow> ('m, 'o, 'x, bool) act" where
  "reply_turn a emit =
     act_bind (act_get (\<lambda>r. CurIter (AState r) < MaxIters (ReActCfg (AgentCfg a)))) (\<lambda>more.
       if \<not> more then act_then (emit_new emit (\<lambda>w rid. NewExceedMaxItersEvent w rid (AgentName a))) (act_ret False)
       else act_then (CompressContext a) (act_bind pending_now (\<lambda>ks.
         if ks \<noteq> [] then acting_turn a emit ks else reasoning_turn a emit)))"

definition continueReply :: "('m, 'o, 'x) agent \<Rightarrow> 'x sink \<Rightarrow> ('m, 'o, 'x, unit) act" where
  "continueReply a emit = act_loop (reply_turn a emit)"

section \<open>What comes in\<close>

text \<open>
  The dynamic values a reply and an observation accept; a nil pointer to a message is a message
  (its \<open>Clone\<close> panics), and \<open>InputOther\<close> is any value of another type, by the name of its type.
\<close>

datatype agent_input =
    InputNil
  | InputMessage "message option"
  | InputMessages "message option list"
  | InputEvent event
  | InputEvents "event option list"
  | InputOther string

definition unsupported :: "string \<Rightarrow> string \<Rightarrow> error" where
  "unsupported what typ = Err (''agentscope: unsupported '' @ what @ '' input '' @ typ)"

definition append_message :: "message \<Rightarrow> ('m, 'o, 'x, unit) act" where
  "append_message m = act_go (\<lambda>r. go_bind (message_Clone m) (\<lambda>c.
     Ret ((), r\<lparr>AState := (AState r)\<lparr>Messages := Messages (AState r) @ [Some c]\<rparr>\<rparr>)))"

text \<open>The rules of a confirmation are added to the agent's own permission context, if it has one.\<close>

fun add_rules :: "rule list \<Rightarrow> perm_context option \<Rightarrow> perm_context option go" where
  "add_rules [] co = Ret co"
| "add_rules (rule # rs) co =
     go_bind (AddRule (NewEngine co None []) rule) (\<lambda>e.
       add_rules rs (case co of None \<Rightarrow> None | Some c \<Rightarrow> Some (Context e)))"

definition incoming_rules :: "event \<Rightarrow> rule list" where
  "incoming_rules ev = (case Body ev of UserConfirmResult rs \<Rightarrow> concat (map ConfirmRules rs) | _ \<Rightarrow> [])"

definition finish_call :: "tool_result option \<Rightarrow> message \<Rightarrow> message" where
  "finish_call ro m = (case ro of
     None \<Rightarrow> m | Some res \<Rightarrow> edit_block ''tool_call'' (ResultID res) (set_call_state ToolCallFinished) m)"

definition incoming_results :: "event \<Rightarrow> message \<Rightarrow> message" where
  "incoming_results ev m = (case Body ev of ExternalExecutionResult rs \<Rightarrow> fold finish_call rs m | _ \<Rightarrow> m)"

definition put_message :: "nat \<Rightarrow> message \<Rightarrow> ('m, 'o, 'x) run \<Rightarrow> ('m, 'o, 'x) run" where
  "put_message k m r = r\<lparr>AState := (AState r)\<lparr>Messages := (Messages (AState r))[k := Some m]\<rparr>\<rparr>"

definition applyIncomingEventToMessage :: "nat \<Rightarrow> message \<Rightarrow> event \<Rightarrow> ('m, 'o, 'x, unit) act" where
  "applyIncomingEventToMessage k m ev = act_try (\<lambda>r.
     go_bind (ApplyEvent (Supply (World r)) m (Some ev)) (\<lambda>((e, m'), w).
       let r = put_message k m' (put_supply w r) in
       case e of
         Some e \<Rightarrow> Ret (Inl e, r)
       | None \<Rightarrow>
           go_bind (add_rules (incoming_rules ev) (PermissionContext (AState r))) (\<lambda>co.
             Ret (Inr (), put_message k (incoming_results ev m')
               (r\<lparr>AState := (AState r)\<lparr>PermissionContext := co\<rparr>\<rparr>)))))"

definition lastMessage :: "agent_state \<Rightarrow> message option" where
  "lastMessage st = (if Messages st = [] then None else last (Messages st))"

definition applyIncomingEvent :: "event \<Rightarrow> ('m, 'o, 'x, unit) act" where
  "applyIncomingEvent ev = act_bind (act_get AState) (\<lambda>st.
     case lastMessage st of
       None \<Rightarrow> act_fail (Err ''agentscope: cannot apply incoming event without context'')
     | Some m \<Rightarrow> applyIncomingEventToMessage (length (Messages st) - 1) m ev)"

definition appendInput :: "agent_input \<Rightarrow> ('m, 'o, 'x, unit) act" where
  "appendInput inp =
     (case inp of
        InputNil \<Rightarrow> act_ret ()
      | InputMessage None \<Rightarrow> act_go (\<lambda>r. Panic)
      | InputMessage (Some m) \<Rightarrow> append_message m
      | InputMessages ms \<Rightarrow> act_each (\<lambda>mo. case mo of None \<Rightarrow> act_ret () | Some m \<Rightarrow> append_message m) ms
      | InputEvent ev \<Rightarrow> applyIncomingEvent ev
      | InputEvents evs \<Rightarrow> act_fail (unsupported ''reply'' ''[]message.Event'')
      | InputOther t \<Rightarrow> act_fail (unsupported ''reply'' t))"

section \<open>A reply\<close>

definition resumableAssistant :: "('m, 'o, 'x) agent \<Rightarrow> agent_state \<Rightarrow> message option" where
  "resumableAssistant a st =
     (case lastMessage st of
        None \<Rightarrow> None
      | Some m \<Rightarrow>
          if MsgRole m \<noteq> RoleAssistant \<or> MsgName m \<noteq> AgentName a then None
          else if pendingToolCalls (Some m) = [] then None
          else Some m)"

text \<open>The loop's pointer to the message at the end of the conversation.\<close>

definition write_last :: "('m, 'o, 'x) run \<Rightarrow> ('m, 'o, 'x) run" where
  "write_last r = r\<lparr>World := (World r)\<lparr>RunningAt := Some (length (Messages (AState r)) - 1), Running := None\<rparr>\<rparr>"

definition resume :: "message \<Rightarrow> ('m, 'o, 'x) run \<Rightarrow> ('m, 'o, 'x) run" where
  "resume m r = write_last (r\<lparr>AState := (AState r)\<lparr>StateReplyID := MsgID m\<rparr>\<rparr>)"

definition new_assistant :: "('m, 'o, 'x) agent \<Rightarrow> ('m, 'o, 'x, unit) act" where
  "new_assistant a = act_try (\<lambda>r.
     let (i, w) = newID (Supply (World r));
         r = r\<lparr>AState := (AState r)\<lparr>StateReplyID := i, CurIter := 0\<rparr>\<rparr>
     in go_bind (NewAssistantMessage w (AgentName a) ContentNil [WithMessageID i]) (\<lambda>(res, w).
          let r = put_supply w r in
          case res of
            Inl e \<Rightarrow> Ret (Inl e, r)
          | Inr m \<Rightarrow> Ret (Inr (), write_last (r\<lparr>AState := (AState r)\<lparr>Messages := Messages (AState r) @ [Some m]\<rparr>\<rparr>))))"

definition begin_reply :: "('m, 'o, 'x) agent \<Rightarrow> 'x sink \<Rightarrow> ('m, 'o, 'x, unit) act" where
  "begin_reply a emit =
     act_then (new_assistant a)
     (act_bind (act_get (\<lambda>r. SessionID (AState r))) (\<lambda>s.
       emit_new emit (\<lambda>w rid. NewReplyStartEvent w s rid (AgentName a))))"

definition runReply :: "('m, 'o, 'x) agent \<Rightarrow> agent_input \<Rightarrow> 'x sink \<Rightarrow> ('m, 'o, 'x, unit) act" where
  "runReply a inp emit =
     act_then (appendInput inp)
     (act_bind (act_get (\<lambda>r. resumableAssistant a (AState r))) (\<lambda>mo.
       act_then (case mo of Some m \<Rightarrow> act_modify (resume m) | None \<Rightarrow> begin_reply a emit) (continueReply a emit)))"

definition no_final_message :: error where
  "no_final_message = NewDeveloperError ''agent did not produce a final assistant message'' None"

definition final_message :: "('m, 'o, 'x, message) act" where
  "final_message = act_try (\<lambda>r.
     case lastMessage (AState r) of
       None \<Rightarrow> Ret (Inl no_final_message, r)
     | Some m \<Rightarrow>
         if MsgRole m \<noteq> RoleAssistant \<or> MsgID m \<noteq> StateReplyID (AState r) then Ret (Inl no_final_message, r)
         else go_bind (message_Clone m) (\<lambda>m. Ret (Inr m, r)))"

definition Reply :: "('m, 'o, 'x) agent \<Rightarrow> agent_input \<Rightarrow> ('m, 'o, 'x, message) act" where
  "Reply a inp = act_then (runReply a inp None) final_message"

text \<open>A nil callback accepts every event; the state of the caller is then left alone.\<close>

definition ReplyStream :: "('m, 'o, 'x) agent \<Rightarrow> agent_input \<Rightarrow> (event \<Rightarrow> 'x \<Rightarrow> error option \<times> 'x) option
    \<Rightarrow> ('m, 'o, 'x, unit) act" where
  "ReplyStream a inp yielded =
     runReply a inp (Some (case yielded of None \<Rightarrow> (\<lambda>ev x. (None, x)) | Some f \<Rightarrow> f))"

section \<open>Observations\<close>

definition observed_error :: "message \<Rightarrow> error" where
  "observed_error m = Err (''agentscope: invalid observed message '' @ go_quote (MsgID m)
     @ '': role must be user or assistant and content must not contain tool calls, tool results or thinking blocks'')"

definition observeMessage :: "message option \<Rightarrow> ('m, 'o, 'x, unit) act" where
  "observeMessage mo =
     (case mo of
        None \<Rightarrow> act_ret ()
      | Some m \<Rightarrow>
          if MsgRole m = RoleSystem \<or> HasContentBlocks (Content m) [''tool_call'', ''tool_result'', ''thinking'']
          then act_fail (observed_error m)
          else append_message m)"

text \<open>The last message with the event's reply identifier.\<close>

fun find_reply :: "string \<Rightarrow> message option list \<Rightarrow> nat \<Rightarrow> (nat \<times> message) option" where
  "find_reply i [] k = None"
| "find_reply i (mo # ms) k =
     (case find_reply i ms (Suc k) of
        Some p \<Rightarrow> Some p
      | None \<Rightarrow> (case mo of None \<Rightarrow> None | Some m \<Rightarrow> if MsgID m = i then Some (k, m) else None))"

definition observeEvent :: "event option \<Rightarrow> ('m, 'o, 'x, unit) act" where
  "observeEvent evo =
     (case evo of
        None \<Rightarrow> act_ret ()
      | Some ev \<Rightarrow> act_bind (act_get (\<lambda>r. find_reply (ReplyID ev) (Messages (AState r)) 0)) (\<lambda>found.
     case found of
       None \<Rightarrow> act_fail (Err (''agentscope: cannot apply observed event for reply '' @ go_quote (ReplyID ev)
         @ '' without matching context message''))
     | Some (k, m) \<Rightarrow> applyIncomingEventToMessage k m ev))"

text \<open>What the context says is asked anew before every element; \<open>n\<close> counts the questions.\<close>

fun observe_each :: "(nat \<Rightarrow> error option) \<Rightarrow> ('b \<Rightarrow> ('m, 'o, 'x, unit) act) \<Rightarrow> nat \<Rightarrow> 'b list
    \<Rightarrow> ('m, 'o, 'x, unit) act" where
  "observe_each ctx f n [] = act_ret ()"
| "observe_each ctx f n (b # bs) =
     (case ctx n of Some e \<Rightarrow> act_fail e | None \<Rightarrow> act_then (f b) (observe_each ctx f (Suc n) bs))"

definition Observe :: "(nat \<Rightarrow> error option) \<Rightarrow> agent_input \<Rightarrow> ('m, 'o, 'x, unit) act" where
  "Observe ctx inp =
     (case ctx 0 of
        Some e \<Rightarrow> act_fail e
      | None \<Rightarrow>
          (case inp of
             InputNil \<Rightarrow> act_ret ()
           | InputMessage mo \<Rightarrow> observeMessage mo
           | InputMessages ms \<Rightarrow> observe_each ctx observeMessage 1 ms
           | InputEvent ev \<Rightarrow> observeEvent (Some ev)
           | InputEvents evs \<Rightarrow> observe_each ctx observeEvent 1 evs
           | InputOther t \<Rightarrow> act_fail (unsupported ''observe'' t)))"

end
