(* ===== verification/Reply_Loop.thy ===== *)
theory Reply_Loop
  imports Agent_Loop Stream_Events
begin

text \<open>
  What the reply loop does: it returns after as many turns as the iteration limit leaves, when no
  context limit makes it summarise; what a model call tries; what reaches the conversation. A
  \<open>steady\<close> step returns and leaves the iteration counter and the reply's identifier alone; the rules
  of the collection \<open>steady\<close> follow the structure of the code.
\<close>

section \<open>Repeating\<close>

lemma act_loop_unfold: "act_loop m r = act_bind m (\<lambda>again. if again then act_loop m else act_ret ()) r"
proof (cases "turn_of (m r)")
  case (Turn r')
  then have "m r = Ret (Some (Inr True, r'))"
    by (cases "m r" rule: turn_of.cases) (auto split: if_splits)
  with Turn show ?thesis
    by (simp add: act_loop_def while_option_unfold [of is_turn "next_turn m" "Turn r"] act_bind_def div_bind_def)
next
  case (Finished x)
  then have "act_loop m r = x"
    by (simp add: act_loop_def while_option_unfold [of is_turn "next_turn m" "Turn r"]
        while_option_unfold [of is_turn "next_turn m" "Finished x"])
  with Finished show ?thesis
    by (cases "m r" rule: turn_of.cases)
       (auto simp: act_bind_def act_ret_def div_bind_def split: if_splits)
qed

lemma act_loop_eq: "act_loop m = act_bind m (\<lambda>again. if again then act_loop m else act_ret ())"
  by (rule ext) (rule act_loop_unfold)

text \<open>A loop whose step decreases a measure ends, and keeps what each step keeps.\<close>

lemma act_loop_ends:
  assumes step: "\<And>r. I r \<Longrightarrow> m r \<noteq> Ret None \<and>
      (\<forall>x r'. m r = Ret (Some (x, r')) \<longrightarrow>
         (case x of Inr True \<Rightarrow> I r' \<and> f r' < (f r :: nat) | _ \<Rightarrow> Q r'))"
    and start: "I r"
  shows "act_loop m r \<noteq> Ret None \<and> (\<forall>x r'. act_loop m r = Ret (Some (x, r')) \<longrightarrow> Q r')"
  using start
proof (induction "f r" arbitrary: r rule: less_induct)
  case less
  note s = step [OF less.prems]
  show ?case
  proof (cases "m r" rule: turn_of.cases)
    case 1
    then show ?thesis by (subst (1 2) act_loop_unfold) (simp add: act_bind_def div_bind_def)
  next
    case 2
    with s show ?thesis by simp
  next
    case (3 e r1)
    with s have "Q r1" by fastforce
    with 3 show ?thesis by (subst (1 2) act_loop_unfold) (simp add: act_bind_def div_bind_def)
  next
    case (4 again r1)
    show ?thesis
    proof (cases again)
      case True
      with s 4 have "I r1" "f r1 < f r" by fastforce+
      from less.hyps [OF this(2,1)] 4 True show ?thesis
        by (subst (1 2) act_loop_unfold) (simp add: act_bind_def div_bind_def)
    next
      case False
      with s 4 have "Q r1" by fastforce
      with 4 False show ?thesis
        by (subst (1 2) act_loop_unfold) (simp add: act_bind_def act_ret_def div_bind_def)
    qed
  qed
qed

section \<open>Steady steps\<close>

text \<open>
  \<open>steady R m\<close>: \<open>m\<close> returns, to a run that \<open>R\<close> relates to the one it started from. The rules follow
  the structure of the code, for any \<open>R\<close> that is reflexive and transitive and looks neither at what
  the events of a reply change nor at the model's own state.
\<close>

definition steady :: "(('m, 'o, 'x) run \<Rightarrow> ('m, 'o, 'x) run \<Rightarrow> bool) \<Rightarrow> ('m, 'o, 'x, 'a) act \<Rightarrow> bool" where
  "steady R m \<longleftrightarrow> (\<forall>r. m r \<noteq> Ret None \<and> (\<forall>x r'. m r = Ret (Some (x, r')) \<longrightarrow> R r r'))"

text \<open>A hook that is steady around any steady handler.\<close>

definition quiet_hook :: "(('m, 'o, 'x) run \<Rightarrow> ('m, 'o, 'x) run \<Rightarrow> bool)
    \<Rightarrow> (('m, 'o, 'x) model_step \<Rightarrow> ('m, 'o, 'x) model_step) \<Rightarrow> bool" where
  "quiet_hook R hook \<longleftrightarrow> (\<forall>handler. (\<forall>i. steady R (handler i)) \<longrightarrow> (\<forall>i. steady R (hook handler i)))"

named_theorems steady "steps that return and keep a relation"

locale kept =
  fixes R :: "('m, 'o, 'x) run \<Rightarrow> ('m, 'o, 'x) run \<Rightarrow> bool"
  assumes same: "R r r"
    and trans: "R r r1 \<Longrightarrow> R r1 r2 \<Longrightarrow> R r r2"
    and drawn: "R r (put_supply w r)"
    and written: "assistant_of r = Some m0 \<Longrightarrow> R r (put_assistant m (put_supply w r))"
    and consumed: "R r (r\<lparr>Outer := x\<rparr>)"
    and called: "R r (r\<lparr>World := (World r)\<lparr>ModelSt := s\<rparr>\<rparr>)"
begin

lemma steady_ret [steady]: "steady R (act_ret x)"
  by (simp add: steady_def act_ret_def same)

lemma steady_fail [steady]: "steady R (act_fail e)"
  by (simp add: steady_def act_fail_def same)

lemma steady_get [steady]: "steady R (act_get f)"
  by (simp add: steady_def act_get_def same)

lemma steady_bind_from:
  assumes "steady R m" and "\<And>r x r'. m r = Ret (Some (Inr x, r')) \<Longrightarrow> steady R (f x)"
  shows "steady R (act_bind m f)"
  unfolding steady_def
proof (intro allI conjI impI)
  fix r
  show "act_bind m f r \<noteq> Ret None"
  proof (cases "m r")
    case (Ret o1)
    with assms(1) obtain x r1 where o: "o1 = Some (x, r1)" by (cases o1) (auto simp: steady_def)
    show ?thesis
    proof (cases x)
      case (Inr y)
      with assms(2) Ret o have "steady R (f y)" by blast
      with Inr Ret o show ?thesis by (simp add: act_bind_def div_bind_def steady_def)
    qed (simp add: Ret o act_bind_def div_bind_def)
  qed (simp add: act_bind_def div_bind_def)
  fix x r'
  assume "act_bind m f r = Ret (Some (x, r'))"
  then obtain y r1 where y: "m r = Ret (Some (y, r1))"
      "(case y of Inl e \<Rightarrow> Ret (Some (Inl e, r1)) | Inr z \<Rightarrow> f z r1) = Ret (Some (x, r'))"
    by (auto simp: act_bind_def div_bind_eq)
  then have one: "R r r1" using assms(1) by (simp add: steady_def)
  show "R r r'"
  proof (cases y)
    case (Inl e)
    with y one show ?thesis by simp
  next
    case (Inr z)
    with y assms(2) have "steady R (f z)" by blast
    with y Inr have "R r1 r'" by (simp add: steady_def)
    with one show ?thesis by (rule trans)
  qed
qed

lemma steady_bind [steady]: "steady R m \<Longrightarrow> (\<And>x. steady R (f x)) \<Longrightarrow> steady R (act_bind m f)"
  by (rule steady_bind_from)

lemma steady_then [steady]: "steady R m \<Longrightarrow> steady R n \<Longrightarrow> steady R (act_then m n)"
  unfolding act_then_def by (rule steady_bind)

lemma steady_if [steady]: "(b \<Longrightarrow> steady R m) \<Longrightarrow> (\<not> b \<Longrightarrow> steady R n) \<Longrightarrow> steady R (if b then m else n)"
  by simp

lemma steady_each [steady]: "(\<And>b. steady R (f b)) \<Longrightarrow> steady R (act_each f bs)"
  by (induction bs) (auto intro: steady)

lemma steady_modify: "(\<And>r. R r (f r)) \<Longrightarrow> steady R (act_modify f)"
  by (simp add: steady_def act_modify_def)

lemma steady_go: "(\<And>r x r'. f r = Ret (x, r') \<Longrightarrow> R r r') \<Longrightarrow> steady R (act_go f)"
  by (auto simp: steady_def act_go_def go_bind_def split: go.splits)

lemma steady_try: "(\<And>r x r'. f r = Ret (x, r') \<Longrightarrow> R r r') \<Longrightarrow> steady R (act_try f)"
  by (auto simp: steady_def act_try_def go_bind_def split: go.splits)

lemma steady_cases [steady]:
  "steady R m \<Longrightarrow> (\<And>x. steady R (f x)) \<Longrightarrow> steady R (case v of None \<Rightarrow> m | Some x \<Rightarrow> f x)"
  "(\<And>x. steady R (g x)) \<Longrightarrow> (\<And>x. steady R (h x)) \<Longrightarrow> steady R (case s of Inl x \<Rightarrow> g x | Inr x \<Rightarrow> h x)"
  "(\<And>x y. steady R (k x y)) \<Longrightarrow> steady R (case p of (x, y) \<Rightarrow> k x y)"
  by (simp_all split: option.split sum.split prod.split)

lemma steady_attempt [steady]: "steady R m \<Longrightarrow> steady R (act_attempt m)"
  unfolding steady_def
proof (intro allI conjI impI)
  fix r
  assume m: "\<forall>r. m r \<noteq> Ret None \<and> (\<forall>x r'. m r = Ret (Some (x, r')) \<longrightarrow> R r r')"
  show "act_attempt m r \<noteq> Ret None"
  proof (cases "m r")
    case (Ret o1)
    with m show ?thesis
      by (cases o1) (auto simp: act_attempt_def div_bind_def split: prod.split)
  qed (simp add: act_attempt_def div_bind_def)
  fix x r'
  assume "act_attempt m r = Ret (Some (x, r'))"
  with m show "R r r'" by (auto simp: act_attempt_def div_bind_eq)
qed

text \<open>Events.\<close>

lemma steady_emit [steady]: "steady R (emitAndApply emit ev)"
proof -
  have "steady R (apply_to_assistant ev)" "steady R (hand_over emit ev)"
    unfolding apply_to_assistant_def hand_over_def
    by (rule steady_try; auto simp: go_bind_eq_Ret intro: same written consumed split: option.splits prod.splits)+
  then show ?thesis unfolding emitAndApply_def by (rule steady_then)
qed

lemma steady_make [steady]: "steady R (make_event mk)"
  unfolding make_event_def by (rule steady_go) (auto intro: drawn split: prod.splits)

lemma steady_new [steady]: "steady R (emit_new emit mk)"
  unfolding emit_new_def by (intro steady)

lemma steady_made [steady]: "(\<And>ev. steady R (emit ev)) \<Longrightarrow> steady R (emit_made emit mk)"
  unfolding emit_made_def by (intro steady)

subsection \<open>The stream\<close>

lemma steady_delta_events [steady]: "steady R (deltaBlockEvents kind b d)"
  unfolding deltaBlockEvents_def by (cases kind; simp; intro steady)

lemma steady_whole:
  assumes [steady]: "\<And>ev. steady R (emit ev)"
  shows "steady R (emit_whole emit bo)"
proof -
  have [steady]: "steady R (emitDeltaBlock emit kind b d)" for kind b d
    unfolding emitDeltaBlock_def by (intro steady)
  have [steady]: "steady R (emitToolCallBlock emit i n inp)" for i n inp
    unfolding emitToolCallBlock_def by (intro steady)
  have [steady]: "steady R (emitDataBlock emit i src)" for i src
    by (cases "(emit, i, src)" rule: emitDataBlock.cases) (auto intro!: steady)
  show ?thesis
    by (cases "(emit, bo)" rule: emit_whole.cases) (auto intro: steady)
qed

lemma steady_chunk:
  assumes [steady]: "\<And>ev. steady R (emit ev)"
  shows "steady R (emitChatResponseChunk emit r s)"
proof -
  have [steady]: "steady R (emitStreamDeltaBlock emit kind b d s)" for kind b d s
    unfolding emitStreamDeltaBlock_def Let_def
    by (intro steady)
  have [steady]: "steady R (emitStreamToolCallBlock emit i n inp s)" for i n inp s
    unfolding emitStreamToolCallBlock_def Let_def by (intro steady)
  have [steady]: "steady R (emitDataBlock emit i src)" for i src
    by (cases "(emit, i, src)" rule: emitDataBlock.cases) (auto intro!: steady)
  have [steady]: "steady R (emitStreamChunkBlock emit bo sc)" for bo sc
    by (cases "(emit, bo, sc)" rule: emitStreamChunkBlock.cases) (auto intro!: steady)
  have [steady]: "steady R (chunk_blocks emit bs sc)" for bs sc
    by (induction bs arbitrary: sc) (auto intro!: steady)
  have [steady]: "steady R (close_delta emit kind still s)" "steady R (close_tools emit current is s)" for kind still current "is" s
  proof -
    have [steady]: "steady R (end_delta emit kind s)" for kind s
      unfolding end_delta_def by (cases kind; simp; intro steady)
    show "steady R (close_delta emit kind still s)" unfolding close_delta_def by (intro steady)
    show "steady R (close_tools emit current is s)" by (induction "is" arbitrary: s) (auto intro!: steady)
  qed
  show ?thesis
    unfolding emitChatResponseChunk_def endInactiveChunkBlocks_def by (intro steady)
qed

lemma steady_stream:
  assumes [steady]: "\<And>ev. steady R (emit ev)"
  shows "steady R (emitChatResponseStream emit rs)"
proof -
  note steady_whole [OF assms, steady] steady_chunk [OF assms, steady]
  have [steady]: "steady R (read_stream emit rs s d)" for s d
  proof (induction rs arbitrary: s d)
    case (Cons r rs)
    have "steady R (act_go (\<lambda>q. go_bind (response_Clone r) (\<lambda>c. Ret (c, q))))"
      by (rule steady_go) (auto simp: go_bind_eq_Ret same)
    then show ?case unfolding read_stream.simps by (intro steady Cons.IH)
  qed (simp add: steady_ret)
  have [steady]: "steady R (end_delta emit kind s)" for kind s
    unfolding end_delta_def by (cases kind; simp; intro steady)
  have [steady]: "steady R (close_tools emit current is s)" for current "is" s
    by (induction "is" arbitrary: s) (auto intro!: steady)
  show ?thesis
    unfolding emitChatResponseStream_def emitChatResponse_def emitFinalUnseenBlocks_def endOpenStreamBlocks_def
    by (intro steady)
qed

subsection \<open>The model call\<close>

lemma steady_hooks:
  "\<forall>hook\<in>set hooks. quiet_hook R hook \<Longrightarrow> (\<And>i. steady R (final i)) \<Longrightarrow> steady R (apply_hooks hooks final i)"
  by (induction hooks arbitrary: i) (auto simp: apply_hooks_def quiet_hook_def)

lemma steady_call:
  assumes "\<forall>hook\<in>set (ModelCallHooks a). quiet_hook R hook"
  shows "steady R (callModel a q)"
proof -
  have [steady]: "steady R (act_clone q)" for q
    unfolding act_clone_def by (rule steady_go) (auto simp: go_bind_eq_Ret same)
  have [steady]: "steady R (open_stream m q)" for m q
    unfolding open_stream_def by (rule steady_try) (auto simp: called split: prod.splits)
  have [steady]: "steady R (call_final m q i)" for m q i
    unfolding call_final_def by (intro steady)
  have [steady]: "steady R (apply_hooks (ModelCallHooks a) (call_final m q) i)" for m q i
    using assms by (rule steady_hooks) (rule steady)
  have [steady]: "steady R (call_attempt a q m)" for m
    unfolding call_attempt_def by (intro steady)
  have "steady R (try_models a q ms e)" for ms e
    by (induction ms arbitrary: e) (auto intro!: steady)
  then show ?thesis unfolding callModel_def .
qed

lemma call_gives_stream:
  assumes "0 < MaxRetries (ModelCfg (AgentCfg a))"
  shows "callModel a q r \<noteq> Ret (Some (Inr None, r'))"
proof -
  have "try_models a q ms e r \<noteq> Ret (Some (Inr None, r'))" if "ms \<noteq> [] \<or> e \<noteq> None" for ms e r
    using that
  proof (induction ms arbitrary: e r)
    case Nil
    then show ?case by (auto simp: act_fail_def)
  next
    case (Cons m ms)
    then show ?case
      by (auto simp: act_bind_def act_ret_def act_fail_def div_bind_eq split: sum.splits option.splits)
  qed
  moreover have "model_attempts a \<noteq> []"
    using assms by (simp add: model_attempts_def Let_def)
  ultimately show ?thesis unfolding callModel_def by blast
qed

lemma steady_reasoning:
  fixes a :: "('m, 'o, 'x) agent"
  assumes hooks: "\<forall>hook\<in>set (ModelCallHooks a). quiet_hook R hook" and "0 < MaxRetries (ModelCfg (AgentCfg a))"
  shows "steady R (runReasoning a emit)"
proof -
  have [steady]: "steady R (prepareModelInput a)"
    unfolding prepareModelInput_def
  proof (rule steady_try)
    fix r r' :: "('m, 'o, 'x) run" and x
    assume run: "go_bind (prompt_messages (Supply (World r)) (system_prompt a (AState r)) (AState r)) (\<lambda>(res, w).
       let r = put_supply w r in
       case res of
         Inl e \<Rightarrow> Ret (Inl e, r)
       | Inr front \<Rightarrow>
           go_bind (model_messages (Messages (AState r))) (\<lambda>ms.
             case PSchemas (provider_of a) (activeGroups r) of
               Inl e \<Rightarrow> Ret (Inl e, r)
             | Inr tools \<Rightarrow>
                 Ret (Inr ((plain_request (front @ ms) tools)\<lparr>ReqToolChoice := ModelToolChoice (ModelCfg (AgentCfg a))\<rparr>), r)))
       = Ret (x, r')"
    then obtain res w where "prompt_messages (Supply (World r)) (system_prompt a (AState r)) (AState r) = Ret (res, w)"
      by (auto simp: go_bind_eq_Ret)
    with run have "r' = put_supply w r"
      by (cases res; cases "PSchemas (provider_of a) (activeGroups (put_supply w r))") (auto simp: go_bind_eq_Ret Let_def)
    then show "R r r'" by (simp add: drawn)
  qed
  have [steady]: "steady R (emitChatResponseStream (emitAndApply emit) rs)" for rs
    by (rule steady_stream) (rule steady_emit)
  have "steady R (act_bind (callModel a q) (\<lambda>responses.
      case responses of None \<Rightarrow> act_hang | Some rs \<Rightarrow> f rs))" if "\<And>rs. steady R (f rs)"
    for q and f :: "chat_response list \<Rightarrow> _"
  proof (rule steady_bind_from [OF steady_call [OF hooks]])
    fix r x r'
    assume "callModel a q r = Ret (Some (Inr x, r'))"
    with call_gives_stream [OF assms(2)] obtain rs where "x = Some rs" by (cases x) auto
    with that show "steady R (case x of None \<Rightarrow> act_hang | Some rs \<Rightarrow> f rs)" by simp
  qed
  note this [steady]
  show ?thesis unfolding runReasoning_def reason_def by (intro steady) (auto intro!: steady)
qed

end

section \<open>The acting phase\<close>

text \<open>
  What it does besides events: notes in the trace, answers of the permission engine, and the state
  a tool returns.
\<close>

locale kept_acting = kept R for R :: "('m, 'o, 'x) run \<Rightarrow> ('m, 'o, 'x) run \<Rightarrow> bool" +
  assumes noted: "R r (r\<lparr>Trace := t\<rparr>)"
    and permitted: "R r (r\<lparr>AState := (AState r)\<lparr>PermissionContext := p\<rparr>\<rparr>)"
    and ran: "R r (r\<lparr>AState := after_tool (AState r) st\<rparr>)"
begin

lemma steady_edit [steady]: "steady R (edit_call k f)" "steady R (set_state k s)"
proof -
  have put: "R r (put_call k c r)" for k c r
  proof (cases "assistant_of r")
    case (Some m)
    then have "R r (put_assistant m' (put_supply (Supply (World r)) r))" for m' by (rule written)
    with Some show ?thesis by (simp add: put_call_def put_supply_def)
  qed (simp add: put_call_def same)
  show "steady R (edit_call k f)" for f
    unfolding edit_call_def by (rule steady_modify) (simp add: put same split: option.split)
  then show "steady R (set_state k s)" unfolding set_state_def .
qed

lemma steady_output [steady]:
  "steady R (emit_text_delta emit c t)" "steady R (emit_result_end emit c s md)" "steady R (emit_result_start emit c)"
  "steady R (emitToolExecutionError emit c t s)" "steady R (emitToolError emit c t s)" "steady R (emitToolResultData emit c b src)"
  "steady R (emit_chunk_block emit c bo)" "steady R (emitToolChunk emit c ch)" "steady R (emit_with_call emit k mkc)"
proof -
  show [steady]: "steady R (emit_text_delta emit c t)" "steady R (emit_result_end emit c s md)" "steady R (emit_result_start emit c)" for t md
    unfolding emit_text_delta_def emit_result_end_def emit_result_start_def by (intro steady)+
  show [steady]: "steady R (emitToolExecutionError emit c t s)"
    unfolding emitToolExecutionError_def by (intro steady)
  show "steady R (emitToolError emit c t s)" unfolding emitToolError_def by (intro steady)
  show [steady]: "steady R (emitToolResultData emit c b src)" for b src
    by (cases "(emit, c, b, src)" rule: emitToolResultData.cases) (auto intro: steady)
  show [steady]: "steady R (emit_chunk_block emit c bo)" for bo
    by (cases "(emit, c, bo)" rule: emit_chunk_block.cases) (auto intro: steady)
  show "steady R (emitToolChunk emit c ch)" unfolding emitToolChunk_def by (intro steady)
  show "steady R (emit_with_call emit k mkc)" unfolding emit_with_call_def by (intro steady)
qed

lemma steady_audit [steady]: "steady R (auditToolSecurityEvent a typ t c tx)"
  unfolding auditToolSecurityEvent_def by (rule steady_modify) (simp add: consumed same split: option.split)

lemma steady_call_tool [steady]: "steady R (call_tool a c)"
proof -
  have "R r ((put_supply w r)\<lparr>AState := after_tool (AState r) st, Outer := x, Trace := t\<rparr>)" for r w st x t
  proof -
    let ?r = "(put_supply w r)\<lparr>AState := after_tool (AState (put_supply w r)) st\<rparr>"
    have "R r ?r" by (rule trans [OF drawn ran])
    then have "R r (?r\<lparr>Outer := x\<rparr>)" by (rule trans [OF _ consumed])
    then have "R r (?r\<lparr>Outer := x\<rparr>\<lparr>Trace := t\<rparr>)" by (rule trans [OF _ noted])
    then show ?thesis by simp
  qed
  then show ?thesis
    unfolding call_tool_def by (intro steady_go) (auto simp: go_bind_eq_Ret split: prod.splits)
qed

lemma steady_running [steady]:
  "steady R (emit_chunks a emit t c cs)" "steady R (fail_execution a emit t c tx)" "steady R (executeLocalTool a emit k)"
proof -
  show [steady]: "steady R (emit_chunks a emit t c cs)" "steady R (fail_execution a emit t c tx)" for t c cs tx
    unfolding emit_chunks_def fail_execution_def by (intro steady)+
  show "steady R (executeLocalTool a emit k)" unfolding executeLocalTool_def by (intro steady)
qed

lemma steady_batch [steady]: "steady R (executeLocalToolBatch a emit plans)"
proof -
  have [steady]: "steady R (collectLocalToolChunks a c)" for c
    unfolding collectLocalToolChunks_def by (intro steady steady_go) (auto simp: go_bind_eq_Ret same)
  have [steady]: "steady R (run_batch a plans is results)" for "is" results
    by (induction "is" arbitrary: results) (auto intro!: steady)
  have [steady]: "steady R (emit_batch_result a emit plans results i)" for results i
    unfolding emit_batch_result_def by (intro steady)
  show ?thesis unfolding executeLocalToolBatch_def by (intro steady)
qed

lemma steady_find [steady]: "steady R (find_tool a n)"
  unfolding find_tool_def by (rule steady_go) (auto simp: go_bind_eq_Ret same)

lemma steady_decide [steady]: "steady R (decide a c t input)"
proof -
  have [steady]: "steady R (note_check c d)" for d
    unfolding note_check_def by (rule steady_modify) (simp add: noted)
  have [steady]: "steady R (act_modify (\<lambda>r. r\<lparr>AState := (AState r)\<lparr>PermissionContext := f r\<rparr>\<rparr>))" for f
    by (rule steady_modify) (simp add: permitted)
  show ?thesis unfolding decide_def by (intro steady)
qed

lemma steady_prepare [steady]: "steady R (prepareToolCall a emit k)"
proof -
  have [steady]: "steady R (update_input a k d)" for d
    unfolding update_input_def by (intro steady)
  have [steady]: "steady R (settle a emit k c t d)" for c t d
    unfolding settle_def ask_user_def refuse_def accept_def
    by (cases "DecBehavior d"; simp; intro conjI impI steady)
  have [steady]: "steady R (prepare_found a emit k c t)" for c t
    unfolding prepare_found_def by (intro steady)
  show ?thesis unfolding prepareToolCall_def by (intro steady)
qed

lemma steady_acting [steady]: "steady R (runActing a emit ks)"
proof -
  have one: "steady R (executeToolCall a emit k)" for k
    unfolding executeToolCall_def by (intro steady)
  have [steady]: "steady R (flush a emit batch)" for batch
    unfolding flush_def by (intro steady)
  have [steady]: "steady R (flushBeforeIfNeeded a emit batch k)" "steady R (take_up a emit batch p)" for batch k p
    unfolding flushBeforeIfNeeded_def take_up_def by (intro steady)+
  have [steady]: "steady R (handle a emit batch k)" for batch k
    unfolding handle_def by (intro steady)
  have all: "steady R (handle_all a emit batch ks)" for batch
    by (induction ks arbitrary: batch) (auto intro!: steady)
  show ?thesis unfolding runActing_def using one all by (auto split: list.split)
qed

end

section \<open>The place of the loop\<close>

definition place :: "('m, 'o, 'x) run \<Rightarrow> int \<times> string" where
  "place r = (CurIter (AState r), StateReplyID (AState r))"

definition same_place :: "('m, 'o, 'x) run \<Rightarrow> ('m, 'o, 'x) run \<Rightarrow> bool" where
  "same_place r r' \<longleftrightarrow> place r' = place r"

lemma place_simps [simp]:
  "place (put_supply w r) = place r" "place (put_assistant m r) = place r" "place (r\<lparr>Outer := x\<rparr>) = place r"
  "place (r\<lparr>Trace := t\<rparr>) = place r" "place (r\<lparr>World := v\<rparr>) = place r"
  "place (put_call k c r) = place r"
  by (simp_all add: place_def put_supply_def put_assistant_def put_call_def split: option.split)

interpretation loop: kept_acting same_place
  by unfold_locales (simp_all add: same_place_def place_def after_tool_def)

lemma steady_place: "steady same_place m \<longleftrightarrow>
    (\<forall>r. m r \<noteq> Ret None \<and> (\<forall>x r'. m r = Ret (Some (x, r')) \<longrightarrow> place r' = place r))"
  by (simp add: steady_def same_place_def)

subsection \<open>A context pass without a limit\<close>

text \<open>No token limit, and the strategies an agent has by default.\<close>

definition unlimited :: "('m, 'o, 'x) agent \<Rightarrow> bool" where
  "unlimited a \<longleftrightarrow> MaxTokens (ContextCfg (AgentCfg a)) \<le> 0 \<and> CompressHooks a = []
     \<and> (case ContextStrategies a of None \<Rightarrow> True | Some ss \<Rightarrow> ss = map Some DefaultContextStrategies)"

lemma default_order: "orderContextStrategies (map Some DefaultContextStrategies) = DefaultContextStrategies"
  by (simp add: orderContextStrategies_def DefaultContextStrategies_def tool_result_strategy_def
      NewThresholdContextStrategy_def NewSummaryContextStrategy_def)

lemma tool_results_frame:
  "compressToolResults olo ctx limit w st s = Ret ((e, st'), w', s') \<Longrightarrow>
     CurIter st' = CurIter st \<and> StateReplyID st' = StateReplyID st"
  by (auto simp: compressToolResults_def offloadDataBlocks_def go_bind_eq_Ret Let_def
      split: option.splits prod.splits if_splits)

definition pass_ok :: "('m, 'o) pass_result \<Rightarrow> agent_state \<Rightarrow> bool" where
  "pass_ok res st \<longleftrightarrow> res \<noteq> Ret None \<and> (\<forall>e st' cs' w'. res = Ret (Some ((e, st', cs'), w')) \<longrightarrow>
     CurIter st' = CurIter st \<and> StateReplyID st' = StateReplyID st)"

lemma run_strategies_ok:
  "\<forall>s\<in>set ss. \<forall>w st cs. pass_ok (Apply s i w st cs) st \<Longrightarrow> pass_ok (run_strategies n ss i w st cs) st"
proof (induction ss arbitrary: n w st cs)
  case Nil
  then show ?case by (simp add: pass_ok_def)
next
  case (Cons s ss)
  show ?case
  proof (cases "CtxAt i n")
    case None
    have one: "pass_ok (Apply s i w st cs) st" using Cons.prems by simp
    show ?thesis
    proof (cases "Apply s i w st cs")
      case (Ret o1)
      with one obtain e st1 cs1 w1 where o: "o1 = Some ((e, st1, cs1), w1)"
        by (cases o1) (auto simp: pass_ok_def)
      with one Ret have "CurIter st1 = CurIter st \<and> StateReplyID st1 = StateReplyID st" by (auto simp: pass_ok_def)
      moreover have "pass_ok (run_strategies (Suc n) ss i w1 st1 cs1) st1"
        using Cons.prems by (intro Cons.IH) simp
      ultimately show ?thesis
        using None Ret o by (simp add: pass_ok_def div_bind_def)
    qed (simp add: pass_ok_def div_bind_def None)
  qed (simp add: pass_ok_def)
qed

lemma default_strategies_ok:
  assumes "MaxTokens (Config i) \<le> 0"
  shows "\<forall>s\<in>set DefaultContextStrategies. \<forall>w st cs. pass_ok (Apply s i w st cs) st"
proof -
  have "pass_ok (Apply tool_result_strategy i w st cs) st" for w st cs
  proof (cases "compressToolResults (Offloader i) (CtxAt i 0) (ToolResultLimit (Config i)) (Supply w) st (OffSt w)")
    case (Ret p)
    obtain e st1 v s where p: "p = ((e, st1), v, s)" by (cases p) auto
    from tool_results_frame [OF Ret [unfolded p]] Ret p show ?thesis
      by (simp add: tool_result_strategy_def pass_ok_def returns_def)
  qed (simp add: tool_result_strategy_def pass_ok_def returns_def)
  moreover have "pass_ok (Apply NewThresholdContextStrategy i w st cs) st" for w st cs
    using assms by (simp add: NewThresholdContextStrategy_def threshold_Apply_def thresholdPreconditionsMet_def pass_ok_def)
  moreover have "pass_ok (Apply NewSummaryContextStrategy i w st cs) st" for w st cs
    using assms by (simp add: NewSummaryContextStrategy_def summary_Apply_def summaryPreconditionsMet_def pass_ok_def
        div_bind_def)
  ultimately show ?thesis by (simp add: DefaultContextStrategies_def)
qed

lemma steady_compress:
  fixes a :: "('m, 'o, 'x) agent"
  assumes "unlimited a"
  shows "steady same_place (CompressContext a)"
proof -
  have strategies: "orderContextStrategies (case ContextStrategies a of
      None \<Rightarrow> map Some DefaultContextStrategies | Some ss \<Rightarrow> ss) = DefaultContextStrategies"
    using assms default_order by (auto simp: unlimited_def split: option.splits)
  have run: "pass_ok (run_strategies 0 DefaultContextStrategies i w st cs) st"
    if "MaxTokens (Config i) \<le> 0" for i :: "('m, 'o) strategy_input" and w st cs
    using that by (intro run_strategies_ok default_strategies_ok)
  have max: "MaxTokens (Config (newContextStrategyInput a r)) \<le> 0" for r
    using assms by (simp add: unlimited_def newContextStrategyInput_def)
  have "steady same_place (compress_pass a)"
    unfolding steady_def
  proof (intro allI conjI impI)
    fix r
    let ?p = "run_strategies 0 DefaultContextStrategies (newContextStrategyInput a r) (World r) (AState r) (Status r)"
    have ok: "pass_ok ?p (AState r)" by (rule run [OF max])
    show "compress_pass a r \<noteq> Ret None"
      using ok by (cases ?p) (auto simp: compress_pass_def compressContext_def strategies div_bind_def pass_ok_def
          split: option.splits)
    fix x r'
    assume "compress_pass a r = Ret (Some (x, r'))"
    then obtain e st cs w where "?p = Ret (Some ((e, st, cs), w))" "r' = r\<lparr>World := w, AState := st, Status := cs\<rparr>"
      by (auto simp: compress_pass_def compressContext_def strategies div_bind_eq)
    with ok show "same_place r r'" by (simp add: pass_ok_def place_def same_place_def)
  qed
  then show ?thesis
    using assms by (simp add: CompressContext_def unlimited_def apply_hooks_def)
qed

section \<open>The turns\<close>

text \<open>
  A turn that goes on has moved the counter by one; one that ends the reply has left it alone.
\<close>

definition moves :: "('m, 'o, 'x, bool) act \<Rightarrow> bool" where
  "moves m \<longleftrightarrow> (\<forall>r. m r \<noteq> Ret None \<and> (\<forall>x r'. m r = Ret (Some (x, r')) \<longrightarrow>
     (if x = Inr True then place r' = (wrap64 (fst (place r) + 1), snd (place r)) else place r' = place r)))"

lemma moves_bind:
  assumes "steady same_place m" and "\<And>x. moves (f x)"
  shows "moves (act_bind m f)"
  unfolding moves_def
proof (intro allI conjI impI)
  fix r
  show "act_bind m f r \<noteq> Ret None"
  proof (cases "m r")
    case (Ret o1)
    with assms(1) obtain x r1 where "o1 = Some (x, r1)" by (cases o1) (auto simp: steady_def)
    with Ret assms(2) show ?thesis
      by (cases x) (auto simp: act_bind_def div_bind_def moves_def)
  qed (simp add: act_bind_def div_bind_def)
  fix x r'
  assume "act_bind m f r = Ret (Some (x, r'))"
  then obtain y r1 where y: "m r = Ret (Some (y, r1))"
      "(case y of Inl e \<Rightarrow> Ret (Some (Inl e, r1)) | Inr z \<Rightarrow> f z r1) = Ret (Some (x, r'))"
    by (auto simp: act_bind_def div_bind_eq)
  then have "place r1 = place r" using assms(1) by (auto simp: steady_place)
  with y assms(2) show "if x = Inr True then place r' = (wrap64 (fst (place r) + 1), snd (place r)) else place r' = place r"
    by (cases y) (auto simp: moves_def)
qed

lemma moves_then: "steady same_place m \<Longrightarrow> moves n \<Longrightarrow> moves (act_then m n)"
  unfolding act_then_def by (rule moves_bind)

lemma moves_end: "steady same_place m \<Longrightarrow> moves (act_then m (act_ret False))"
  by (rule moves_then) (simp_all add: moves_def act_ret_def)

lemma moves_if: "moves m \<Longrightarrow> moves n \<Longrightarrow> moves (if b then m else n)"
  by simp

lemma moves_next: "moves (act_then next_iteration (act_ret True))"
  by (simp add: moves_def act_then_def act_bind_def next_iteration_def act_modify_def act_ret_def div_bind_def place_def)

lemma steady_end [steady]: "steady same_place (end_reply emit)" "steady same_place pending_now"
  unfolding end_reply_def pending_now_def by (intro steady)+

lemma moves_acting:
  "unlimited a \<Longrightarrow> moves (acting_turn a emit ks)"
  unfolding acting_turn_def
  by (intro moves_bind moves_if moves_end moves_then moves_next steady steady_compress)

definition good_agent :: "('m, 'o, 'x) agent \<Rightarrow> bool" where
  "good_agent a \<longleftrightarrow> unlimited a \<and> (\<forall>hook\<in>set (ModelCallHooks a). quiet_hook same_place hook)
     \<and> 0 < MaxRetries (ModelCfg (AgentCfg a)) \<and> MaxIters (ReActCfg (AgentCfg a)) < 2 ^ 63"

lemma moves_turn:
  assumes "good_agent a"
  shows "moves (act_then (CompressContext a) (act_bind pending_now (\<lambda>ks.
     if ks \<noteq> [] then acting_turn a emit ks else reasoning_turn a emit)))"
proof -
  have "unlimited a" "\<forall>hook\<in>set (ModelCallHooks a). quiet_hook same_place hook" "0 < MaxRetries (ModelCfg (AgentCfg a))"
    using assms by (simp_all add: good_agent_def)
  then have "steady same_place (CompressContext a)" and "steady same_place (runReasoning a emit)" and "\<And>ks. moves (acting_turn a emit ks)"
    by - (erule steady_compress, erule (1) loop.steady_reasoning, erule moves_acting)
  then show ?thesis
    unfolding reasoning_turn_def by (intro moves_then moves_bind moves_if moves_end steady)
qed

lemma moves_limit:
  "moves m \<Longrightarrow> fst (place r) < limit \<Longrightarrow> m r \<noteq> Ret None \<and> (\<forall>x r'. m r = Ret (Some (x, r')) \<longrightarrow>
     (if x = Inr True then fst (place r) < limit \<and> place r' = (wrap64 (fst (place r) + 1), snd (place r))
      else place r' = place r))"
  by (simp add: moves_def)

lemma turn_step:
  assumes "good_agent a"
  shows "reply_turn a emit r \<noteq> Ret None \<and> (\<forall>x r'. reply_turn a emit r = Ret (Some (x, r')) \<longrightarrow>
    (if x = Inr True then fst (place r) < MaxIters (ReActCfg (AgentCfg a))
        \<and> place r' = (wrap64 (fst (place r) + 1), snd (place r))
     else place r' = place r))"
proof (cases "CurIter (AState r) < MaxIters (ReActCfg (AgentCfg a))")
  case True
  let ?m = "act_then (CompressContext a) (act_bind pending_now (\<lambda>ks.
      if ks \<noteq> [] then acting_turn a emit ks else reasoning_turn a emit))"
  have eq: "reply_turn a emit r = ?m r"
    using True by (simp add: reply_turn_def act_bind_def act_get_def div_bind_def)
  have limit: "fst (place r) < MaxIters (ReActCfg (AgentCfg a))" using True by (simp add: place_def)
  show ?thesis
    unfolding eq by (rule moves_limit [OF moves_turn [OF assms] limit])
next
  case False
  let ?m = "act_then (emit_new emit (\<lambda>w rid. NewExceedMaxItersEvent w rid (AgentName a))) (act_ret False)"
  have eq: "reply_turn a emit r = ?m r"
    using False by (simp add: reply_turn_def act_bind_def act_get_def div_bind_def)
  have "?m r \<noteq> Ret (Some (Inr True, r'))" for r'
    by (auto simp: act_then_def act_bind_def act_ret_def div_bind_eq split: sum.splits)
  with moves_end [OF loop.steady_new, of emit "\<lambda>w rid. NewExceedMaxItersEvent w rid (AgentName a)"] show ?thesis
    unfolding eq moves_def by fastforce
qed

text \<open>C9: The reply loop of an agent without a token limit returns: with the strategies an agent has by
  default, at least one try for the model and model-call hooks that return and leave the loop's state
  alone, it ends after at most the iterations the limit leaves. The counter then stands within the
  limit, or where it stood before, and the reply has kept its identifier.\<close>

theorem reply_loop_returns:
  assumes "good_agent a" and "0 \<le> CurIter (AState r)"
  shows "continueReply a emit r \<noteq> Ret None
    \<and> (\<forall>x r'. continueReply a emit r = Ret (Some (x, r')) \<longrightarrow>
         StateReplyID (AState r') = StateReplyID (AState r)
         \<and> CurIter (AState r) \<le> CurIter (AState r')
         \<and> CurIter (AState r') \<le> max (CurIter (AState r)) (MaxIters (ReActCfg (AgentCfg a))))"
proof -
  let ?max = "MaxIters (ReActCfg (AgentCfg a))"
  let ?I = "\<lambda>r'. StateReplyID (AState r') = StateReplyID (AState r) \<and> CurIter (AState r) \<le> CurIter (AState r')
    \<and> CurIter (AState r') \<le> max (CurIter (AState r)) ?max"
  have step: "reply_turn a emit q \<noteq> Ret None \<and> (\<forall>x q'. reply_turn a emit q = Ret (Some (x, q')) \<longrightarrow>
      (case x of Inr True \<Rightarrow> ?I q' \<and> nat (?max - CurIter (AState q')) < nat (?max - CurIter (AState q)) | _ \<Rightarrow> ?I q'))"
    if I: "?I q" for q
  proof (intro conjI allI impI)
    show "reply_turn a emit q \<noteq> Ret None" using turn_step [OF assms(1)] by blast
    fix x q'
    assume run: "reply_turn a emit q = Ret (Some (x, q'))"
    show "case x of Inr True \<Rightarrow> ?I q' \<and> nat (?max - CurIter (AState q')) < nat (?max - CurIter (AState q)) | _ \<Rightarrow> ?I q'"
    proof (cases "x = Inr True")
      case True
      with turn_step [OF assms(1), of emit q] run have "CurIter (AState q) < ?max"
        "CurIter (AState q') = wrap64 (CurIter (AState q) + 1)" "StateReplyID (AState q') = StateReplyID (AState q)"
        by (auto simp: place_def)
      moreover have "wrap64 (CurIter (AState q) + 1) = CurIter (AState q) + 1"
        using assms I calculation(1) by (intro wrap64_id) (auto simp: good_agent_def)
      ultimately show ?thesis using True I by auto
    next
      case False
      with turn_step [OF assms(1), of emit q] run have "place q' = place q" by auto
      with False I show ?thesis by (auto simp: place_def split: sum.splits bool.splits)
    qed
  qed
  show ?thesis
    unfolding continueReply_def
    by (rule act_loop_ends [where I = ?I and f = "\<lambda>r. nat (?max - CurIter (AState r))", OF step]) auto
qed

text \<open>An agent whose model answers with one text block, and a reply about to ask it.\<close>

definition demo_answer :: chat_response where
  "demo_answer = demo_chunk True [Some (TextBlock ''Hi.'' ''t1'')]"

definition demo_agent :: "(unit, unit, unit) agent" where
  "demo_agent = \<lparr>AgentName = ''Friday'', ToolkitOf = echo_provider, MiddlewareKit = None,
     PermissionClassifier = None, AuditLogger = None, ActingHooks = [], BatchOrder = (\<lambda>n. []),
     MarshalGo = (\<lambda>v. Inr ''{}''), UnmarshalGo = (\<lambda>s. Inr (VMap [])),
     SystemText = ''You help.'', MainModel = short_model\<lparr>ModelStream := (\<lambda>q u. (Inr (Some [demo_answer]), u))\<rparr>,
     AgentCfg = DefaultAgentConfig, ContextStrategies = None, OffloaderOf = None, SystemPromptHooks = [],
     ModelCallHooks = [], CompressHooks = [], MiddlewareTools = [], CallCtx = (\<lambda>n. None), ParseSummary = (\<lambda>s. None),
     MarshalSummary = (\<lambda>m. None)\<rparr>"

definition demo_run :: "(unit, unit, unit) run" where
  "demo_run = \<lparr>World = short_world\<lparr>RunningAt := Some 0\<rparr>,
     AState = short_state\<lparr>Messages := [Some (echo_message [])], StateReplyID := ''m1''\<rparr>,
     Status = None, Outer = (), Trace = []\<rparr>"

theorem reply_loop_returns_witness:
  "continueReply demo_agent None demo_run \<noteq> Ret None"
proof -
  have "good_agent demo_agent"
    by (simp add: good_agent_def unlimited_def demo_agent_def DefaultAgentConfig_def DefaultContextConfig_def
        DefaultModelConfig_def DefaultReActConfig_def)
  moreover have "0 \<le> CurIter (AState demo_run)" by (simp add: demo_run_def short_state_def)
  ultimately show ?thesis using reply_loop_returns by blast
qed

section \<open>After a summary\<close>

text \<open>
  A summary replaces the conversation by copies (\<open>detach\<close>): the loop's pointer then reaches a message
  the conversation does not have, and nothing the reply still produces gets there.
\<close>

definition same_talk :: "('m, 'o, 'x) run \<Rightarrow> ('m, 'o, 'x) run \<Rightarrow> bool" where
  "same_talk r r' \<longleftrightarrow> (RunningAt (World r) = None \<longrightarrow>
     RunningAt (World r') = None \<and> Messages (AState r') = Messages (AState r)
     \<and> StateReplyID (AState r') = StateReplyID (AState r))"

interpretation apart: kept_acting same_talk
  by unfold_locales (auto simp: same_talk_def put_supply_def put_assistant_def after_tool_def split: option.splits)

lemma steady_same_talk_end: "steady same_talk (end_reply emit)" "steady same_talk pending_now"
  unfolding end_reply_def pending_now_def by (intro steady)+

text \<open>What a reply answers, without the run it ends in.\<close>

definition reply_answer :: "('m, 'o, 'x) run \<Rightarrow> (error + message) option go" where
  "reply_answer r = div_bind (final_message r) (\<lambda>(x, r). Ret (Some x))"

lemma reply_answer_cong:
  fixes r r1 :: "('m, 'o, 'x) run"
  shows "Messages (AState r1) = Messages (AState r) \<Longrightarrow> StateReplyID (AState r1) = StateReplyID (AState r)
     \<Longrightarrow> reply_answer r1 = reply_answer r"
proof -
  assume eq: "Messages (AState r1) = Messages (AState r)" "StateReplyID (AState r1) = StateReplyID (AState r)"
  have what: "reply_answer r = (case lastMessage (AState r) of None \<Rightarrow> Ret (Some (Inl no_final_message)) | Some m \<Rightarrow>
      if MsgRole m \<noteq> RoleAssistant \<or> MsgID m \<noteq> StateReplyID (AState r) then Ret (Some (Inl no_final_message))
      else go_bind (message_Clone m) (\<lambda>m. Ret (Some (Inr m))))" for r :: "('m, 'o, 'x) run"
    by (auto simp: reply_answer_def final_message_def act_try_def div_bind_def go_bind_def split: option.split go.split)
  show ?thesis by (simp only: what lastMessage_def eq)
qed

lemma act_bind_returns:
  "act_bind m f r = Ret (Some (Inr y, r')) \<longleftrightarrow>
     (\<exists>x r1. m r = Ret (Some (Inr x, r1)) \<and> f x r1 = Ret (Some (Inr y, r')))"
  by (auto simp: act_bind_def div_bind_eq split: sum.splits) (metis old.sum.exhaust)

lemma ending_turn_keeps:
  assumes R: "kept_acting R" and hooks: "\<forall>hook\<in>set (ModelCallHooks a). quiet_hook R hook"
    and tries: "0 < MaxRetries (ModelCfg (AgentCfg a))" and run: "reasoning_turn a emit r = Ret (Some (Inr False, r1))"
  shows "R r r1"
proof -
  have k: "kept R" using R by (simp add: kept_acting_def)
  have fin: "steady R (act_then (end_reply emit) (act_ret False))"
    unfolding end_reply_def
    by (intro kept.steady_then [OF k] kept.steady_bind [OF k] kept.steady_get [OF k] kept.steady_new [OF k] kept.steady_ret [OF k])
  have one: "steady R (runReasoning a emit)" by (rule kept.steady_reasoning [OF k hooks tries])
  from run obtain r2 where r2: "runReasoning a emit r = Ret (Some (Inr (), r2))"
    and rest: "(if pendingToolCalls (assistant_of r2) = [] then act_then (end_reply emit) (act_ret False)
      else acting_turn a emit (pendingToolCalls (assistant_of r2))) r2 = Ret (Some (Inr False, r1))"
    by (auto simp: reasoning_turn_def act_then_def act_bind_returns pending_now_def act_get_def)
  have "R r2 r1"
  proof (cases "pendingToolCalls (assistant_of r2) = []")
    case True
    with fin rest show ?thesis by (simp add: steady_def)
  next
    case False
    with rest obtain w r3 where r3: "runActing a emit (pendingToolCalls (assistant_of r2)) r2 = Ret (Some (Inr w, r3))"
      and w: "(if w then act_then (end_reply emit) (act_ret False)
        else act_then (CompressContext a) (act_then next_iteration (act_ret True))) r3 = Ret (Some (Inr False, r1))"
      by (auto simp: acting_turn_def act_bind_returns)
    have "R r2 r3" using r3 kept_acting.steady_acting [OF R] by (fastforce simp: steady_def)
    moreover have w
      using w by (cases w) (auto simp: act_then_def act_bind_returns act_ret_def)
    then have "R r3 r1" using w fin by (auto simp: steady_def)
    ultimately show ?thesis by (rule kept.trans [OF k])
  qed
  moreover have "R r r2" using one r2 by (simp add: steady_def)
  ultimately show ?thesis by (metis kept.trans [OF k])
qed


definition lost_run :: "(unit, unit, unit) run" where
  "lost_run = demo_run\<lparr>World := short_world\<lparr>RunningAt := None, Running := Some (echo_message [])\<rparr>\<rparr>"

lemma lost_turn: "\<exists>r1. reasoning_turn demo_agent None lost_run = Ret (Some (Inr False, r1))"
proof -
  have "case reasoning_turn demo_agent None lost_run of Ret (Some (Inr again, r1)) \<Rightarrow> \<not> again | _ \<Rightarrow> False"
    by code_simp
  then show ?thesis by (auto split: go.splits option.splits sum.splits)
qed


end
