(* ===== verification/Go_Path.thy ===== *)
theory Go_Path
  imports Utf8
begin

text \<open>
  What the built-in tools use of Go's \<open>path/filepath\<close> on Unix, the lexical functions on paths, and of
  \<open>strings\<close> on substrings. A path is taken apart into whether it is rooted and its elements.
\<close>

section \<open>Paths\<close>

definition slash :: char where "slash = CHR ''/''"

definition dot_dot :: string where "dot_dot = ''..''"

text \<open>The elements of \<open>Clean\<close>, the last first: dots dropped, an element removed by the dot-dot after it.\<close>

fun push_elem :: "bool \<Rightarrow> string list \<Rightarrow> string \<Rightarrow> string list" where
  "push_elem rooted acc e =
     (if e = [] \<or> e = ''.'' then acc
      else if e = dot_dot
      then (case acc of
          [] \<Rightarrow> if rooted then [] else [dot_dot]
        | a # rest \<Rightarrow> if a = dot_dot then dot_dot # acc else rest)
      else e # acc)"

declare push_elem.simps [simp del]

definition clean_path :: "string \<Rightarrow> bool \<times> string list" where
  "clean_path s =
     (let rooted = HasPrefix s [slash]
      in (rooted, rev (fold (\<lambda>e acc. push_elem rooted acc e) (SplitByte s slash) [])))"

fun show_path :: "bool \<times> string list \<Rightarrow> string" where
  "show_path (True, es) = slash # strings_Join es [slash]"
| "show_path (False, es) = (if es = [] then ''.'' else strings_Join es [slash])"

text \<open>\<open>filepath.Clean\<close>, \<open>IsAbs\<close>, \<open>Base\<close>, \<open>Dir\<close>, \<open>Join\<close>.\<close>

definition Clean :: "string \<Rightarrow> string" where
  "Clean s = show_path (clean_path s)"

definition IsAbs :: "string \<Rightarrow> bool" where
  "IsAbs s = HasPrefix s [slash]"

definition after_last_slash :: "string \<Rightarrow> string" where
  "after_last_slash s = rev (takeWhile (\<lambda>c. c \<noteq> slash) (rev s))"

definition Base :: "string \<Rightarrow> string" where
  "Base s =
     (if s = [] then ''.''
      else let b = after_last_slash (TrimRight s [slash]) in if b = [] then [slash] else b)"

definition Dir :: "string \<Rightarrow> string" where
  "Dir s = Clean (rev (dropWhile (\<lambda>c. c \<noteq> slash) (rev s)))"

definition Join :: "string list \<Rightarrow> string" where
  "Join ps = (let ps = filter (\<lambda>p. p \<noteq> []) ps in if ps = [] then [] else Clean (strings_Join ps [slash]))"

text \<open>\<open>filepath.Rel\<close>: the elements two paths share are dropped, those the base has left are climbed.\<close>

fun drop_common :: "string list \<Rightarrow> string list \<Rightarrow> string list \<times> string list" where
  "drop_common (b # bs) (t # ts) = (if b = t then drop_common bs ts else (b # bs, t # ts))"
| "drop_common bs ts = (bs, ts)"

definition Rel :: "string \<Rightarrow> string \<Rightarrow> string option" where
  "Rel base targ =
     (let (rb, bs) = clean_path base; (rt, ts) = clean_path targ in
      if (rb, bs) = (rt, ts) then Some ''.''
      else if rb \<noteq> rt then None
      else let (bs, ts) = drop_common bs ts in
        if bs \<noteq> [] \<and> hd bs = dot_dot then None
        else Some (strings_Join (replicate (length bs) dot_dot @ ts) [slash]))"

section \<open>Facts about paths\<close>

text \<open>An element of a path as \<open>Clean\<close> leaves it.\<close>

definition proper :: "string \<Rightarrow> bool" where
  "proper e \<longleftrightarrow> e \<noteq> [] \<and> e \<noteq> ''.'' \<and> e \<noteq> dot_dot \<and> slash \<notin> set e"

lemma proper_no_slash: "list_all proper es \<Longrightarrow> \<forall>e\<in>set es. slash \<notin> set e"
  by (simp add: list_all_iff proper_def)

lemma dot_dot_no_slash: "slash \<notin> set dot_dot"
  by (simp add: dot_dot_def slash_def)

lemma split_no_slash: "slash \<notin> set e \<Longrightarrow> SplitByte e slash = [e]"
  by (induction e) auto

lemma split_append: "slash \<notin> set e \<Longrightarrow> SplitByte (e @ slash # s) slash = e # SplitByte s slash"
  by (induction e) auto

lemma split_join:
  "\<forall>e\<in>set es. slash \<notin> set e \<Longrightarrow> es \<noteq> [] \<Longrightarrow> SplitByte (strings_Join es [slash]) slash = es"
proof (induction es)
  case (Cons e es)
  then show ?case by (cases es) (auto simp: split_no_slash split_append)
qed simp

lemma split_elems: "e \<in> set (SplitByte s slash) \<Longrightarrow> slash \<notin> set e"
  by (induction s arbitrary: e) (auto split: list.splits if_splits)

lemma push_proper [simp]: "proper e \<Longrightarrow> push_elem rooted acc e = e # acc"
  by (simp add: proper_def push_elem.simps)

lemma push_nil [simp]: "push_elem rooted acc [] = acc"
  by (simp add: push_elem.simps)

lemma push_climb [simp]: "proper a \<Longrightarrow> push_elem rooted (a # acc) dot_dot = acc"
  by (simp add: proper_def push_elem.simps dot_dot_def)

lemma push_properly: "list_all proper acc \<Longrightarrow> slash \<notin> set e \<Longrightarrow> list_all proper (push_elem True acc e)"
  by (cases acc) (auto simp: proper_def push_elem.simps)

lemma fold_proper: "list_all proper es \<Longrightarrow> fold (\<lambda>e acc. push_elem rooted acc e) es acc = rev es @ acc"
  by (induction es arbitrary: acc) auto

lemma fold_climb:
  "list_all proper acc \<Longrightarrow> n = length acc \<Longrightarrow> fold (\<lambda>e acc. push_elem True acc e) (replicate n dot_dot) acc = []"
proof (induction n arbitrary: acc)
  case (Suc n)
  then show ?case by (cases acc) auto
qed simp

text \<open>The elements of a rooted path are proper, and a path of proper elements is clean.\<close>

lemma fold_properly:
  "\<forall>e\<in>set es. slash \<notin> set e \<Longrightarrow> list_all proper acc
     \<Longrightarrow> list_all proper (fold (\<lambda>e acc. push_elem True acc e) es acc)"
  by (induction es arbitrary: acc) (auto simp: push_properly)

lemma clean_rooted: "IsAbs s \<Longrightarrow> fst (clean_path s) \<and> list_all proper (snd (clean_path s))"
  using fold_properly [of "SplitByte s slash" "[]"] split_elems
  by (auto simp: clean_path_def IsAbs_def Let_def)

lemma clean_show:
  assumes "list_all proper es"
  shows "clean_path (show_path (True, es)) = (True, es)"
proof -
  have "\<forall>e\<in>set es. slash \<notin> set e" using assms by (rule proper_no_slash)
  then have "SplitByte (slash # strings_Join es [slash]) slash = [] # (if es = [] then [[]] else es)"
    by (simp add: split_join)
  then show ?thesis
    using fold_proper [OF assms, of True "[]"] by (simp add: clean_path_def HasPrefix_def)
qed

lemma Clean_show: "list_all proper es \<Longrightarrow> Clean (show_path (True, es)) = show_path (True, es)"
  by (simp add: Clean_def clean_show del: show_path.simps)

lemma Clean_abs: "IsAbs s \<Longrightarrow> IsAbs (Clean s)"
  using clean_rooted [of s] by (cases "clean_path s") (auto simp: Clean_def IsAbs_def HasPrefix_def)

lemma clean_Clean: "IsAbs s \<Longrightarrow> clean_path (Clean s) = clean_path s"
  using clean_rooted [of s] by (cases "clean_path s") (auto simp: Clean_def clean_show simp del: show_path.simps)

text \<open>Climbing from a directory with as many dot-dots as it has elements.\<close>

lemma clean_climb:
  assumes "list_all proper ds" and "list_all proper ts" and "ts \<noteq> []"
  shows "Clean (slash # strings_Join (ds @ replicate (length ds) dot_dot @ ts) [slash]) = show_path (True, ts)"
proof -
  let ?es = "ds @ replicate (length ds) dot_dot @ ts"
  have "\<forall>e\<in>set ?es. slash \<notin> set e"
    using proper_no_slash [OF assms(1)] proper_no_slash [OF assms(2)] dot_dot_no_slash by auto
  moreover have "?es \<noteq> []" using assms(3) by simp
  ultimately have "SplitByte (slash # strings_Join ?es [slash]) slash = [] # ?es"
    by (simp add: split_join)
  moreover have "fold (\<lambda>e acc. push_elem True acc e) ?es [] = rev ts"
    using assms(1,2) fold_climb [of "rev ds" "length ds"] by (simp add: fold_proper)
  ultimately show ?thesis by (simp add: Clean_def clean_path_def HasPrefix_def)
qed

text \<open>A path that \<open>Rel\<close> does not take above its base has the elements of the base in front.\<close>

lemma drop_common_split:
  "drop_common bs ts = (bs', ts') \<Longrightarrow> \<exists>cs. bs = cs @ bs' \<and> ts = cs @ ts'"
  by (induction bs ts rule: drop_common.induct) (auto split: if_splits)

lemma Rel_inside:
  assumes "Rel base targ = Some rel" and "IsAbs base"
    and "rel = ''.'' \<or> \<not> HasPrefix rel (dot_dot @ [slash]) \<and> rel \<noteq> dot_dot"
  shows "IsAbs targ \<and> prefix (snd (clean_path base)) (snd (clean_path targ))"
proof -
  obtain bs where b: "clean_path base = (True, bs)" and proper: "list_all proper bs"
    using clean_rooted [OF assms(2)] by (cases "clean_path base") auto
  obtain rt ts where t: "clean_path targ = (rt, ts)" by (cases "clean_path targ")
  have rt: "rt = IsAbs targ" using t by (simp add: clean_path_def IsAbs_def Let_def)
  show ?thesis
  proof (cases "rt \<and> bs = ts")
    case True
    with b t rt show ?thesis by simp
  next
    case False
    obtain bs' ts' where d: "drop_common bs ts = (bs', ts')" by (cases "drop_common bs ts")
    with assms(1) b t False have "rt" and rel: "rel = strings_Join (replicate (length bs') dot_dot @ ts') [slash]"
      by (auto simp: Rel_def split: if_splits)
    have "bs' = []"
    proof (rule ccontr)
      assume "bs' \<noteq> []"
      then obtain n where "length bs' = Suc n" by (cases bs') auto
      with rel have "rel = dot_dot \<or> HasPrefix rel (dot_dot @ [slash])"
        by (cases "replicate n dot_dot @ ts'") (auto simp: HasPrefix_def prefix_def)
      moreover have "rel \<noteq> ''.''" using calculation by (auto simp: dot_dot_def HasPrefix_def)
      ultimately show False using assms(3) by blast
    qed
    with drop_common_split [OF d] have "prefix bs ts" by (auto simp: prefix_def)
    with b t rt \<open>rt\<close> show ?thesis by simp
  qed
qed

section \<open>Runes and substrings\<close>

function rune_slices :: "string \<Rightarrow> string list" where
  "rune_slices s = (if s = [] then [] else take (rune_size s) s # rune_slices (drop (rune_size s) s))"
  by auto
termination
  by (relation "measure length") (auto simp: rune_size_pos)

declare rune_slices.simps [simp del]

text \<open>\<open>string(r)\<close> of every rune; an invalid byte is the replacement character.\<close>

definition rune_strings :: "string \<Rightarrow> string list" where
  "rune_strings s = map (\<lambda>r. if bad_rune r then [CHR 0xEF, CHR 0xBF, CHR 0xBD] else r) (rune_slices s)"

text \<open>\<open>strings.Count\<close>, \<open>strings.Replace\<close> of the first occurrence, \<open>strings.ReplaceAll\<close>.\<close>

function count_from :: "string \<Rightarrow> string \<Rightarrow> nat" where
  "count_from old s =
     (if old = [] \<or> s = [] then 0
      else if prefix old s then Suc (count_from old (drop (length old) s))
      else count_from old (tl s))"
  by auto
termination
  by (relation "measure (\<lambda>(old, s). length s)") auto

declare count_from.simps [simp del]

definition Count :: "string \<Rightarrow> string \<Rightarrow> nat" where
  "Count s old = (if old = [] then Suc (length (rune_slices s)) else count_from old s)"

fun replace_first :: "string \<Rightarrow> string \<Rightarrow> string \<Rightarrow> string" where
  "replace_first [] old new = (if old = [] then new else [])"
| "replace_first (c # s) old new =
     (if prefix old (c # s) then new @ drop (length old) (c # s) else c # replace_first s old new)"

function replace_from :: "string \<Rightarrow> string \<Rightarrow> string \<Rightarrow> string" where
  "replace_from old new s =
     (if old = [] \<or> s = [] then s
      else if prefix old s then new @ replace_from old new (drop (length old) s)
      else hd s # replace_from old new (tl s))"
  by auto
termination
  by (relation "measure (\<lambda>(old, new, s). length s)") auto

declare replace_from.simps [simp del]

definition ReplaceAll :: "string \<Rightarrow> string \<Rightarrow> string \<Rightarrow> string" where
  "ReplaceAll s old new =
     (if old = [] then new @ concat (map (\<lambda>r. r @ new) (rune_slices s)) else replace_from old new s)"

lemma found_in_front:
  "old \<noteq> [] \<Longrightarrow> count_from old (old @ t) = Suc (count_from old t)"
  "old \<noteq> [] \<Longrightarrow> replace_from old new (old @ t) = new @ replace_from old new t"
  by (subst count_from.simps, simp) (subst replace_from.simps, simp)

lemma not_in_front:
  "\<not> prefix old (c # t) \<Longrightarrow> count_from old (c # t) = count_from old t"
  "\<not> prefix old (c # t) \<Longrightarrow> replace_from old new (c # t) = c # replace_from old new t"
  by (subst count_from.simps, cases "old = []", simp_all) (subst replace_from.simps, cases "old = []", simp_all)

lemma replace_first_split:
  "0 < Count s old \<Longrightarrow> old \<noteq> [] \<Longrightarrow>
     \<exists>pre post. s = pre @ old @ post \<and> replace_first s old new = pre @ new @ post
       \<and> (\<forall>k < length pre. \<not> prefix old (drop k s))"
proof (induction s)
  case Nil
  then show ?case by (simp add: Count_def count_from.simps)
next
  case (Cons c s)
  show ?case
  proof (cases "prefix old (c # s)")
    case True
    then obtain post where post: "c # s = old @ post" by (auto simp: prefix_def)
    have "drop (length old) (c # s) = post" unfolding post by simp
    with True have "replace_first (c # s) old new = new @ post" by simp
    with post show ?thesis by (intro exI [of _ "[]"] exI [of _ post]) auto
  next
    case False
    with Cons.prems have "0 < Count s old" by (simp add: Count_def count_from.simps [of old "c # s"])
    from Cons.IH [OF this Cons.prems(2)] obtain pre post where
        p: "s = pre @ old @ post" "replace_first s old new = pre @ new @ post"
           "\<forall>k < length pre. \<not> prefix old (drop k s)" by blast
    have "\<forall>k < length (c # pre). \<not> prefix old (drop k (c # s))"
      using p(3) False by (simp add: All_less_Suc2)
    with p(1,2) False show ?thesis
      by (intro exI [of _ "c # pre"] exI [of _ post]) simp
  qed
qed

text \<open>Text with no occurrence between those replaced.\<close>

lemma replace_all_split:
  "old \<noteq> [] \<Longrightarrow> \<exists>parts. s = strings_Join parts old \<and> ReplaceAll s old new = strings_Join parts new
     \<and> length parts = Suc (Count s old)"
proof (induction s rule: length_induct)
  case (1 s)
  have IH: "\<exists>parts. t = strings_Join parts old \<and> replace_from old new t = strings_Join parts new
      \<and> length parts = Suc (count_from old t)" if "length t < length s" for t
    using 1 that by (auto simp: ReplaceAll_def Count_def)
  show ?case
  proof (cases "s = []")
    case True
    then show ?thesis
      by (intro exI [of _ "[[]]"]) (simp add: ReplaceAll_def Count_def count_from.simps replace_from.simps 1(2))
  next
    case False
    show ?thesis
    proof (cases "prefix old s")
      case True
      then obtain t where t: "s = old @ t" by (auto simp: prefix_def)
      with 1(2) have "length t < length s" by simp
      from IH [OF this] obtain parts where p: "t = strings_Join parts old"
        "replace_from old new t = strings_Join parts new" "length parts = Suc (count_from old t)" by blast
      obtain q qs where "parts = q # qs" using p(3) by (cases parts) auto
      with p t True False 1(2) show ?thesis
        by (intro exI [of _ "[] # parts"])
           (simp add: ReplaceAll_def Count_def found_in_front)
    next
      case no: False
      with False obtain c t where t: "s = c # t" by (cases s) auto
      then have "length t < length s" by simp
      from IH [OF this] obtain parts where p: "t = strings_Join parts old"
        "replace_from old new t = strings_Join parts new" "length parts = Suc (count_from old t)" by blast
      obtain q qs where q: "parts = q # qs" using p(3) by (cases parts) auto
      have "strings_Join ((c # q) # qs) d = c # strings_Join (q # qs) d" for d by (cases qs) auto
      with p t q no False 1(2) show ?thesis
        by (intro exI [of _ "(c # q) # qs"])
           (simp add: ReplaceAll_def Count_def not_in_front)
    qed
  qed
qed

end
