(* ===== verification/Path_Match.thy ===== *)
theory Path_Match
  imports Go_Path
begin

text \<open>
  Patterns of permission rules (\<open>pkg/permission/match.go\<close>), with \<open>filepath.Match\<close> of Go's library:
  a pattern is read chunk by chunk, a chunk being what stands between two stars. A malformed pattern
  matches nothing, which is all the code asks of it.
\<close>

section \<open>filepath.Match\<close>

datatype chunk_result = BadPattern | NoMatch | Rest string

definition backslash :: char where "backslash = CHR 0x5C"

text \<open>A character of a class, perhaps escaped; something has to stand behind it.\<close>

definition get_esc :: "string \<Rightarrow> (nat \<times> string) option" where
  "get_esc chunk =
     (if chunk = [] \<or> hd chunk = CHR ''-'' \<or> hd chunk = CHR '']'' then None
      else let c = (if hd chunk = backslash then tl chunk else chunk); rest = drop (rune_size c) c in
        if c = [] \<or> bad_rune c \<or> rest = [] then None else Some (fst (decode_rune c), rest))"

lemma get_esc_shorter: "get_esc chunk = Some (r, rest) \<Longrightarrow> length rest < length chunk"
  using rune_size_pos [of chunk] rune_size_pos [of "tl chunk"]
  by (cases chunk) (auto simp: get_esc_def Let_def split: if_splits)

text \<open>The ranges of a class up to its bracket: whether \<open>r\<close> is in one of them.\<close>

function class_loop :: "nat \<Rightarrow> bool \<Rightarrow> bool \<Rightarrow> string \<Rightarrow> (bool \<times> string) option" where
  "class_loop r hit some chunk =
     (if some \<and> chunk \<noteq> [] \<and> hd chunk = CHR '']'' then Some (hit, tl chunk)
      else case get_esc chunk of
        None \<Rightarrow> None
      | Some (lo, c) \<Rightarrow>
          if hd c = CHR ''-''
          then (case get_esc (tl c) of
              None \<Rightarrow> None
            | Some (hi, c') \<Rightarrow> class_loop r (hit \<or> lo \<le> r \<and> r \<le> hi) True c')
          else class_loop r (hit \<or> r = lo) True c)"
  by auto
termination
  by (relation "measure (\<lambda>(r, hit, some, chunk). length chunk)")
     (auto dest!: get_esc_shorter simp: diff_less_Suc intro: less_le_trans)

declare class_loop.simps [simp del]

lemma class_loop_shorter: "class_loop r hit some chunk = Some (b, rest) \<Longrightarrow> length rest < length chunk"
proof (induction r hit some chunk arbitrary: b rest rule: class_loop.induct)
  case (1 r hit some chunk)
  show ?case
  proof (cases "some \<and> chunk \<noteq> [] \<and> hd chunk = CHR '']''")
    case True
    with "1.prems" have "rest = tl chunk" by (subst (asm) class_loop.simps) simp
    with True show ?thesis by (cases chunk) simp_all
  next
    case False
    with "1.prems" obtain lo c where c: "get_esc chunk = Some (lo, c)"
      by (auto simp: class_loop.simps [of r hit some chunk] split: option.splits)
    show ?thesis
    proof (cases "hd c = CHR ''-''")
      case True
      with "1.prems" False c obtain hi c' where c': "get_esc (tl c) = Some (hi, c')"
        and r: "class_loop r (hit \<or> lo \<le> r \<and> r \<le> hi) True c' = Some (b, rest)"
        by (auto simp: class_loop.simps [of r hit some chunk] split: option.splits)
      from "1.IH"(1) [OF False c _ True c' _ r] get_esc_shorter [OF c] get_esc_shorter [OF c'] show ?thesis by simp
    next
      case no: False
      with "1.prems" False c have "class_loop r (hit \<or> r = lo) True c = Some (b, rest)"
        by (auto simp: class_loop.simps [of r hit some chunk])
      from "1.IH"(2) [OF False c _ no this] get_esc_shorter [OF c] show ?thesis by simp
    qed
  qed
qed

text \<open>One literal byte; \<open>None\<close> is a name that has already failed.\<close>

definition literal :: "char \<Rightarrow> string option \<Rightarrow> string option" where
  "literal x so = (case so of Some (c # s) \<Rightarrow> if c = x then Some s else None | _ \<Rightarrow> None)"

definition after_rune :: "string \<Rightarrow> string" where
  "after_rune s = drop (rune_size s) s"

definition negation :: "string \<Rightarrow> bool \<times> string" where
  "negation c = (if c \<noteq> [] \<and> hd c = CHR ''^'' then (True, tl c) else (False, c))"

lemma negation_le: "length (snd (negation c)) \<le> length c"
  by (simp add: negation_def)

function matchChunk :: "string \<Rightarrow> string option \<Rightarrow> chunk_result" where
  "matchChunk [] so = (case so of None \<Rightarrow> NoMatch | Some s \<Rightarrow> Rest s)"
| "matchChunk (x # xs) so =
     (let so = (if so = Some [] then None else so) in
      if x = CHR ''['' then
        (case class_loop (case so of None \<Rightarrow> 0 | Some s \<Rightarrow> fst (decode_rune s)) False False (snd (negation xs)) of
           None \<Rightarrow> BadPattern
         | Some (hit, c) \<Rightarrow> matchChunk c (if hit = fst (negation xs) then None else map_option after_rune so))
      else if x = CHR ''?'' then
        matchChunk xs (case so of None \<Rightarrow> None | Some s \<Rightarrow> if hd s = slash then None else Some (after_rune s))
      else if x = backslash then
        (case xs of [] \<Rightarrow> BadPattern | y # ys \<Rightarrow> matchChunk ys (literal y so))
      else matchChunk xs (literal x so))"
  by pat_completeness auto
termination
proof (relation "measure (\<lambda>(chunk, so). length chunk)", goal_cases)
  case (2 x xs so so' p hit c)
  then have "length c < length (snd (negation xs))" by (auto dest: class_loop_shorter)
  with negation_le [of xs] show ?case by simp
qed auto

text \<open>The stars in front, and how far the chunk behind them goes.\<close>

fun scan_len :: "bool \<Rightarrow> string \<Rightarrow> nat" where
  "scan_len inrange [] = 0"
| "scan_len inrange (x # xs) =
     (if x = backslash then (case xs of [] \<Rightarrow> 1 | y # ys \<Rightarrow> 2 + scan_len inrange ys)
      else if x = CHR ''['' then Suc (scan_len True xs)
      else if x = CHR '']'' then Suc (scan_len False xs)
      else if x = CHR ''*'' \<and> \<not> inrange then 0
      else Suc (scan_len inrange xs))"

definition scanChunk :: "string \<Rightarrow> bool \<times> string \<times> string" where
  "scanChunk pattern =
     (let p = TrimLeft pattern ''*''; i = scan_len False p in (p \<noteq> pattern, take i p, drop i p))"

text \<open>Trying the chunk behind a star at every later place before the next slash.\<close>

fun skip_star :: "string \<Rightarrow> bool \<Rightarrow> string \<Rightarrow> string option" where
  "skip_star chunk others [] = None"
| "skip_star chunk others (c # name) =
     (if c = slash then None
      else case matchChunk chunk (Some name) of
        Rest t \<Rightarrow> if \<not> others \<and> t \<noteq> [] then skip_star chunk others name else Some t
      | NoMatch \<Rightarrow> skip_star chunk others name
      | BadPattern \<Rightarrow> None)"

lemma scan_shorter:
  assumes "pattern \<noteq> []"
  shows "length (snd (snd (scanChunk pattern))) < length pattern"
proof -
  let ?p = "TrimLeft pattern ''*''"
  have le: "length ?p \<le> length pattern" by (simp add: TrimLeft_def length_dropWhile_le)
  show ?thesis
  proof (cases "?p = pattern")
    case True
    with assms have "hd pattern \<noteq> CHR ''*''"
      using hd_dropWhile [of "\<lambda>c. c \<in> set ''*''" pattern] by (auto simp: TrimLeft_def)
    with assms have "0 < scan_len False pattern" by (cases pattern) (auto split: list.splits)
    with True assms show ?thesis by (simp add: scanChunk_def Let_def)
  next
    case False
    then have "length ?p < length pattern"
      by (cases pattern) (auto simp: TrimLeft_def less_Suc_eq_le length_dropWhile_le split: if_splits)
    then show ?thesis by (simp add: scanChunk_def Let_def)
  qed
qed

function path_Match :: "string \<Rightarrow> string \<Rightarrow> bool" where
  "path_Match pattern name =
     (if pattern = [] then name = []
      else let (star, chunk, rest) = scanChunk pattern in
        if star \<and> chunk = [] then slash \<notin> set name
        else case (case matchChunk chunk (Some name) of
              Rest t \<Rightarrow> if t = [] \<or> rest \<noteq> [] then Some t
                         else if star then skip_star chunk (rest \<noteq> []) name else None
            | NoMatch \<Rightarrow> if star then skip_star chunk (rest \<noteq> []) name else None
            | BadPattern \<Rightarrow> None) of
          None \<Rightarrow> False
        | Some t \<Rightarrow> path_Match rest t)"
  by auto
termination
proof (relation "measure (\<lambda>(pattern, name). length pattern)", goal_cases)
  case (2 pattern name x star y chunk rest t)
  then have "rest = snd (snd (scanChunk pattern))" by (metis snd_conv)
  with 2(1) scan_shorter [of pattern] show ?case by simp
qed simp

declare path_Match.simps [simp del]

section \<open>Rules\<close>

definition MatchPattern :: "string \<Rightarrow> string \<Rightarrow> bool" where
  "MatchPattern pattern v =
     (if pattern = [] then True
      else if HasSuffix pattern '':*''
      then (let p = TrimSuffix pattern '':*'' in v = p \<or> HasPrefix v (p @ '' ''))
      else path_Match pattern v
        \<or> Contains pattern ''**'' \<and> HasPrefix v (TrimSuffix pattern ''**'')
        \<or> \<not> ContainsAny pattern ''*?['' \<and> Contains v pattern)"

lemma match_directory: "MatchPattern (d @ ''/**'') (d @ slash # f)"
proof -
  have "TrimSuffix (d @ ''/**'') ''**'' = d @ ''/''"
    using TrimSuffix_append [of "d @ ''/''" "''**''"] by simp
  moreover have "Contains (d @ ''/**'') ''**''" unfolding Contains_iff by (rule exI [of _ "d @ ''/''"], rule exI [of _ "[]"]) simp
  moreover have "\<not> HasSuffix (d @ ''/**'') '':*''" by (simp add: HasSuffix_def)
  ultimately show ?thesis by (simp add: MatchPattern_def HasPrefix_def slash_def)
qed

end
