(* ===== verification/Bash_Tool.thy ===== *)
theory Bash_Tool
  imports Path_Match Permission Tasks
begin

text \<open>
  The permission checks of the Bash tool (\<open>pkg/tool/builtin/bash.go\<close>, and \<open>isDangerousPath\<close> of
  \<open>common.go\<close>). The shell parser is a library outside the repository: of a parsed file the code uses
  the nodes \<open>syntax.Walk\<close> visits, in their order, and a file is the list of those nodes, with what
  the code looks at of each. The parser, the user's home directory and the lower case of letters
  beyond ASCII are parameters.
\<close>

section \<open>The parsed command\<close>

text \<open>The fields of a parameter expansion, each optional one by whether it is there.\<close>

record param_exp =
  Param :: "string option"
  HasNestedParam :: bool
  HasIndex :: bool
  HasExp :: bool
  HasRepl :: bool
  HasSlice :: bool
  NamesOp :: nat
  HasFlags :: bool
  Excl :: bool
  LengthOp :: bool
  WidthOp :: bool
  IsSet :: bool

datatype word_part =
    Lit string
  | SglQuoted string
  | DblQuoted "word_part list"
  | ParamExp param_exp
  | OtherPart

type_synonym word = "word_part list"

datatype redir_op =
    RdrOut | AppOut | RdrInOut | DplOut | RdrClob | AppClob | RdrAll | RdrAllClob | AppAll | AppAllClob
  | OtherRedir

record redirect =
  RedirOp :: redir_op
  RedirWord :: "word option"

datatype node =
    CmdSubst | ProcSubst | Subshell
  | IfClause | WhileClause | ForClause | CaseClause | FuncDecl | TestClause
  | CallExpr "word option list"
  | Stmt "redirect list"
  | OtherNode

type_synonym shell_file = "node list"

text \<open>How a command ended: by itself, at its deadline, or with an error.\<close>

datatype exec_end = Exited | TimedOut | ExecFailed error

record shell =
  ParseBash :: "string \<Rightarrow> error + shell_file"
  RunBash :: "string \<Rightarrow> int \<Rightarrow> string \<Rightarrow> string \<times> exec_end"
  FloatInt :: "string \<Rightarrow> int"
  UserHomeDir :: "error + string"
  LowerUnicode :: "string \<Rightarrow> string"

section \<open>Words\<close>

definition isSimpleParamExpansion :: "param_exp \<Rightarrow> bool" where
  "isSimpleParamExpansion e \<longleftrightarrow> Param e \<noteq> None \<and> \<not> HasNestedParam e \<and> \<not> HasIndex e \<and> \<not> HasExp e
     \<and> \<not> HasRepl e \<and> \<not> HasSlice e \<and> NamesOp e = 0 \<and> \<not> HasFlags e \<and> \<not> Excl e \<and> \<not> LengthOp e
     \<and> \<not> WidthOp e \<and> \<not> IsSet e"

text \<open>The literal text of a part, and of the parts of a word up to the first that has none.\<close>

fun wordPartLiteral :: "word_part \<Rightarrow> string option"
  and parts_literal :: "word_part list \<Rightarrow> string option" where
  "wordPartLiteral (Lit v) = Some v"
| "wordPartLiteral (SglQuoted v) = Some v"
| "wordPartLiteral (DblQuoted ps) = parts_literal ps"
| "wordPartLiteral (ParamExp e) = (if isSimpleParamExpansion e then Some (CHR ''$'' # the (Param e)) else None)"
| "wordPartLiteral OtherPart = None"
| "parts_literal [] = Some []"
| "parts_literal (p # ps) =
     (case wordPartLiteral p of
        None \<Rightarrow> None
      | Some v \<Rightarrow> map_option (\<lambda>rest. v @ rest) (parts_literal ps))"

definition wordLiteral :: "word option \<Rightarrow> string" where
  "wordLiteral wo = (case wo of None \<Rightarrow> [] | Some ps \<Rightarrow> (case parts_literal ps of None \<Rightarrow> [] | Some v \<Rightarrow> v))"

definition callLiteralWords :: "word option list \<Rightarrow> string list" where
  "callLiteralWords args = map wordLiteral args"

section \<open>Walking the file\<close>

fun risk_of :: "node \<Rightarrow> string" where
  "risk_of CmdSubst = ''command substitution cannot be statically analyzed''"
| "risk_of ProcSubst = ''process substitution cannot be statically analyzed''"
| "risk_of Subshell = ''subshell cannot be statically analyzed''"
| "risk_of (CallExpr args) = []"
| "risk_of (Stmt rs) = []"
| "risk_of OtherNode = []"
| "risk_of control = ''control flow cannot be statically analyzed''"

definition injectionRisk :: "shell_file \<Rightarrow> string" where
  "injectionRisk file = (case find (\<lambda>n. risk_of n \<noteq> []) file of None \<Rightarrow> [] | Some n \<Rightarrow> risk_of n)"

definition commandCalls :: "shell_file \<Rightarrow> word option list list" where
  "commandCalls file = concat (map (\<lambda>n. case n of CallExpr args \<Rightarrow> [args] | _ \<Rightarrow> []) file)"

definition commandRedirs :: "shell_file \<Rightarrow> redirect list" where
  "commandRedirs file = concat (map (\<lambda>n. case n of Stmt rs \<Rightarrow> rs | _ \<Rightarrow> []) file)"

definition firstCommandCall :: "shell_file \<Rightarrow> word option list option" where
  "firstCommandCall file = (case commandCalls file of [] \<Rightarrow> None | c # cs \<Rightarrow> Some c)"

definition isOutputRedirection :: "redir_op \<Rightarrow> bool" where
  "isOutputRedirection r \<longleftrightarrow> r \<noteq> OtherRedir"

section \<open>Read-only commands\<close>

definition hasOutputRedirection :: "shell_file \<Rightarrow> bool" where
  "hasOutputRedirection file = list_ex (\<lambda>r. isOutputRedirection (RedirOp r)) (commandRedirs file)"

definition findMutatingPredicates :: "string list" where
  "findMutatingPredicates = [''-delete'', ''-exec'', ''-execdir'', ''-fls'', ''-fprint'', ''-fprint0'',
     ''-fprintf'', ''-ok'', ''-okdir'']"

definition isMutatingFindCall :: "string list \<Rightarrow> bool" where
  "isMutatingFindCall args = list_ex (\<lambda>arg. arg \<in> set findMutatingPredicates) args"

definition safe_commands :: "string list" where
  "safe_commands = [''pwd'', ''ls'', ''cat'', ''head'', ''tail'', ''awk'', ''grep'', ''rg'', ''find'', ''wc'',
     ''sort'', ''uniq'', ''echo'', ''printf'', ''which'']"

definition safe_git :: "string list" where
  "safe_git = [''status'', ''diff'', ''log'', ''show'', ''branch'', ''remote'', ''rev-parse'']"

definition safe_docker :: "string list" where
  "safe_docker = [''ps'', ''images'', ''inspect'', ''logs'', ''version'', ''info'']"

definition isSingleCallReadOnly :: "word option list \<Rightarrow> bool" where
  "isSingleCallReadOnly call =
     (case callLiteralWords call of
        [] \<Rightarrow> False
      | base # args \<Rightarrow>
          if base = ''find'' \<and> isMutatingFindCall args then False
          else if base \<in> set safe_commands then True
          else if base = ''git'' \<and> args \<noteq> [] \<and> hd args \<in> set safe_git then True
          else base = ''docker'' \<and> args \<noteq> [] \<and> hd args \<in> set safe_docker)"

definition isReadOnlyCommand :: "shell_file \<Rightarrow> bool" where
  "isReadOnlyCommand file =
     (\<not> hasOutputRedirection file \<and> commandCalls file \<noteq> [] \<and> list_all isSingleCallReadOnly (commandCalls file))"

section \<open>Dangerous commands\<close>

definition containsArg :: "string list \<Rightarrow> string \<Rightarrow> bool" where
  "containsArg args want \<longleftrightarrow> want \<in> set args"

definition hasShortFlag :: "string list \<Rightarrow> string \<Rightarrow> bool" where
  "hasShortFlag args flag =
     list_ex (\<lambda>arg. \<not> HasPrefix arg ''--'' \<and> HasPrefix arg ''-'' \<and> Contains (TrimPrefix arg ''-'') flag) args"

definition isBroadRemovalPattern :: "string \<Rightarrow> bool" where
  "isBroadRemovalPattern path \<longleftrightarrow>
     path = ''*'' \<or> path = ''./*'' \<or> HasSuffix path ''/*'' \<or> HasSuffix path [backslash, CHR ''*'']"

definition isRootOrRootChild :: "shell \<Rightarrow> string \<Rightarrow> bool" where
  "isRootOrRootChild sh rawPath =
     (let path = (if rawPath = ''~'' then (case UserHomeDir sh of Inl e \<Rightarrow> rawPath | Inr home \<Rightarrow> home) else rawPath);
          cleaned = TrimRight path ''/''; cleaned = (if cleaned = [] then ''/'' else cleaned)
      in if cleaned = ''/'' then True
         else if \<not> HasPrefix cleaned ''/'' then False
         else CountByte (Trim cleaned ''/'') slash = 0)"

definition dangerousRemovePathPattern :: "shell \<Rightarrow> string list \<Rightarrow> string" where
  "dangerousRemovePathPattern sh args =
     (case find (\<lambda>arg. arg \<noteq> [] \<and> \<not> HasPrefix arg ''-'' \<and> (isBroadRemovalPattern arg \<or> isRootOrRootChild sh arg)) args of
        None \<Rightarrow> [] | Some arg \<Rightarrow> ''dangerous removal path '' @ arg)"

definition dangerousRemovePattern :: "shell \<Rightarrow> string list \<Rightarrow> string" where
  "dangerousRemovePattern sh args =
     (if dangerousRemovePathPattern sh args \<noteq> [] then dangerousRemovePathPattern sh args
      else if hasShortFlag args ''r'' \<and> hasShortFlag args ''f'' then ''rm -rf'' else [])"

definition dangerousChmodPattern :: "string list \<Rightarrow> string" where
  "dangerousChmodPattern args =
     (if containsArg args ''777'' then (if containsArg args ''-R'' then ''chmod -R 777'' else ''chmod 777'') else [])"

fun dangerousWords :: "shell \<Rightarrow> string list \<Rightarrow> string" where
  "dangerousWords sh [] = []"
| "dangerousWords sh (base # args) =
     (if base = ''rm'' then dangerousRemovePattern sh args
      else if base = ''rmdir'' then dangerousRemovePathPattern sh args
      else if base = ''sudo'' then (if dangerousWords sh args \<noteq> [] then ''sudo '' @ dangerousWords sh args else [])
      else if base = ''dd'' then ''dd''
      else if base \<in> {''mkfs'', ''fdisk'', ''format''} then base
      else if base = ''chmod'' then dangerousChmodPattern args
      else if base = ''chown'' then (if containsArg args ''-R'' then ''chown -R'' else [])
      else if base = ''kill'' then (if containsArg args ''-9'' then ''kill -9'' else [])
      else [])"

definition dangerousCall :: "shell \<Rightarrow> word option list \<Rightarrow> string" where
  "dangerousCall sh call = dangerousWords sh (callLiteralWords call)"

definition dangerousRedirection :: "shell_file \<Rightarrow> string" where
  "dangerousRedirection file =
     (if list_ex (\<lambda>r. isOutputRedirection (RedirOp r) \<and> RedirWord r \<noteq> None
                    \<and> HasPrefix (wordLiteral (RedirWord r)) ''/dev/'') (commandRedirs file)
      then ''> /dev/'' else [])"

text \<open>The first of some values that is not the empty string.\<close>

definition first_text :: "string list \<Rightarrow> string" where
  "first_text ts = (case find (\<lambda>t. t \<noteq> []) ts of None \<Rightarrow> [] | Some t \<Rightarrow> t)"

definition dangerousCommand :: "shell \<Rightarrow> shell_file \<Rightarrow> string" where
  "dangerousCommand sh file = first_text (dangerousRedirection file # map (dangerousCall sh) (commandCalls file))"

section \<open>Sed\<close>

definition splitSedShortFlags :: "string \<Rightarrow> string list" where
  "splitSedShortFlags flags = rune_strings flags"

text \<open>The flags, the expressions and the files of a call; \<open>found\<close> says that an expression was found.\<close>

fun splitSedArgs :: "bool \<Rightarrow> string list \<Rightarrow> string list \<times> string list \<times> string list" where
  "splitSedArgs found [] = ([], [], [])"
| "splitSedArgs found (arg # args) =
     (if arg = ''--in-place'' then (let (fs, es, ps) = splitSedArgs found args in (''i'' # fs, es, ps))
      else if arg = ''-e'' \<or> arg = ''--expression''
      then (case args of
          [] \<Rightarrow> ([''e''], [], [])
        | e # args' \<Rightarrow> (let (fs, es, ps) = splitSedArgs found args' in (''e'' # fs, e # es, ps)))
      else if HasPrefix arg ''-'' \<and> \<not> HasPrefix arg ''--''
      then (let (fs, es, ps) = splitSedArgs found args in (splitSedShortFlags (TrimPrefix arg ''-'') @ fs, es, ps))
      else if \<not> found then (let (fs, es, ps) = splitSedArgs True args in (fs, arg # es, ps))
      else (let (fs, es, ps) = splitSedArgs found args in (fs, es, arg # ps)))"

definition disallowedSedFlag :: "string list \<Rightarrow> string" where
  "disallowedSedFlag flags =
     (case find (\<lambda>f. f \<notin> {''n'', ''E'', ''e'', ''i''}) flags of None \<Rightarrow> [] | Some f \<Rightarrow> f)"

definition sedExpressionWrites :: "string \<Rightarrow> bool" where
  "sedExpressionWrites expr \<longleftrightarrow> HasSuffix expr ''/w'' \<or> HasSuffix expr ''/W''
     \<or> Contains expr ''/w '' \<or> Contains expr ''/W ''"

definition sedExpressionExecutes :: "string \<Rightarrow> bool" where
  "sedExpressionExecutes expr \<longleftrightarrow> HasSuffix expr ''/e'' \<or> HasSuffix expr ''/E''
     \<or> Contains expr ''/e '' \<or> Contains expr ''/E ''"

definition isDecimalDigits :: "string \<Rightarrow> bool" where
  "isDecimalDigits t \<longleftrightarrow> t \<noteq> [] \<and> list_all (\<lambda>c. c \<in> set ''0123456789'') t"

definition isSedPrintExpression :: "string \<Rightarrow> bool" where
  "isSedPrintExpression expr =
     (if \<not> HasSuffix expr ''p'' then False
      else let body = TrimSuffix expr ''p''; parts = SplitByte body (CHR '','') in
        body \<noteq> [] \<and> length parts \<le> 2 \<and> list_all isDecimalDigits parts)"

text \<open>Only ASCII flags are allowed, so that comparing bytes is comparing runes.\<close>

definition isSedSubstitutionExpression :: "string \<Rightarrow> bool" where
  "isSedSubstitutionExpression expr =
     (if length expr < 3 \<or> expr ! 0 \<noteq> CHR ''s'' then False
      else let d = expr ! 1; parts = SplitByte (drop 2 expr) d in
        d \<in> set ''/|#'' \<and> 2 \<le> length parts
        \<and> (length parts = 2 \<or> list_all (\<lambda>c. c \<in> set ''gp0123456789'') (parts ! 2)))"

definition checkSedExpression :: "string \<Rightarrow> bool \<Rightarrow> string" where
  "checkSedExpression expr hasNFlag =
     (if sedExpressionWrites expr then ''sed write operation (w/W) not allowed''
      else if sedExpressionExecutes expr then ''sed execute operation (e/E) not allowed''
      else if ContainsAny expr ''{}'' then ''sed curly braces not allowed''
      else if HasPrefix expr ''!'' then ''sed negation (!) not allowed''
      else if Contains expr ''#'' \<and> \<not> HasPrefix expr ''s#'' then ''sed comments not allowed''
      else if hasNFlag \<and> isSedPrintExpression expr then []
      else if isSedSubstitutionExpression expr then []
      else ''sed expression '' @ go_quote expr @ '' not in allowlist'')"

section \<open>Sensitive paths\<close>

definition ascii_lower :: "char \<Rightarrow> char" where
  "ascii_lower c = (if CHR ''A'' \<le> c \<and> c \<le> CHR ''Z'' then char_of (of_char c + 32 :: nat) else c)"

definition ToLower :: "shell \<Rightarrow> string \<Rightarrow> string" where
  "ToLower sh s = (if list_all (\<lambda>c. (of_char c :: nat) < 128) s then map ascii_lower s else LowerUnicode sh s)"

definition dangerous_files :: "string list" where
  "dangerous_files = [''.gitconfig'', ''.gitmodules'', ''.bashrc'', ''.bash_profile'', ''.zshrc'', ''.zprofile'',
     ''.profile'', ''.netrc'', ''.npmrc'', ''.pypirc'', ''.env'', ''.envrc'', ''.env.local'', ''.env.development'',
     ''.env.development.local'', ''.env.test'', ''.env.test.local'', ''.env.staging'', ''.env.production'',
     ''.env.production.local'']"

definition isDangerousPath :: "shell \<Rightarrow> string \<Rightarrow> bool" where
  "isDangerousPath sh path =
     (let lower = ToLower sh (Clean path); base = ToLower sh (Base lower) in
      base \<in> set dangerous_files
      \<or> base = ''config'' \<and> Contains lower ''/.ssh/config''
      \<or> base = ''authorized_keys'' \<and> Contains lower ''/.ssh/authorized_keys''
      \<or> list_ex (\<lambda>seg. seg \<in> {''.git'', ''.vscode'', ''.idea'', ''.ssh''}) (SplitByte lower slash))"

definition commandName :: "string \<Rightarrow> string" where
  "commandName command = Base command"

definition isFileManipulatingCommand :: "string \<Rightarrow> bool" where
  "isFileManipulatingCommand command \<longleftrightarrow>
     commandName command \<in> {''rm'', ''mv'', ''cp'', ''chmod'', ''chown'', ''chgrp'', ''touch'', ''ln'', ''sed''}"

definition call_paths :: "word option list \<Rightarrow> string list" where
  "call_paths call =
     (case callLiteralWords call of
        [] \<Rightarrow> []
      | base # args \<Rightarrow>
          if isFileManipulatingCommand base then filter (\<lambda>arg. arg \<noteq> [] \<and> \<not> HasPrefix arg ''-'') args else [])"

definition bashFilePaths :: "shell_file \<Rightarrow> string list" where
  "bashFilePaths file =
     map (\<lambda>r. wordLiteral (RedirWord r))
       (filter (\<lambda>r. isOutputRedirection (RedirOp r) \<and> RedirWord r \<noteq> None) (commandRedirs file))
     @ concat (map call_paths (commandCalls file))"

definition dangerousBashPath :: "shell \<Rightarrow> shell_file \<Rightarrow> string" where
  "dangerousBashPath sh file =
     (case find (isDangerousPath sh) (bashFilePaths file) of None \<Rightarrow> [] | Some p \<Rightarrow> p)"

definition checkSedArgs :: "shell \<Rightarrow> string list \<Rightarrow> string" where
  "checkSedArgs sh args =
     (let (flags, expressions, fileArgs) = splitSedArgs False args in
      if expressions = [] then ''sed command missing expression''
      else if disallowedSedFlag flags \<noteq> [] then ''sed flag -'' @ disallowedSedFlag flags @ '' not allowed''
      else let bad = first_text (map (\<lambda>e. checkSedExpression e (containsArg flags ''n'')) expressions) in
        if bad \<noteq> [] then bad
        else if containsArg flags ''i''
        then (case find (isDangerousPath sh) fileArgs of
            None \<Rightarrow> [] | Some p \<Rightarrow> ''sed -i modifying dangerous file: '' @ p)
        else [])"

definition sed_call :: "shell \<Rightarrow> word option list \<Rightarrow> string" where
  "sed_call sh call =
     (case callLiteralWords call of
        [] \<Rightarrow> [] | base # args \<Rightarrow> if commandName base \<noteq> ''sed'' then [] else checkSedArgs sh args)"

definition sedSafetyViolation :: "shell \<Rightarrow> shell_file \<Rightarrow> string" where
  "sedSafetyViolation sh file = first_text (map (sed_call sh) (commandCalls file))"

section \<open>Rules for commands\<close>

definition callMatchesPrefix :: "string list \<Rightarrow> string \<Rightarrow> bool" where
  "callMatchesPrefix ws pre = (let ps = Fields pre in ps \<noteq> [] \<and> prefix ps ws)"

definition matchBashPrefixRule :: "shell \<Rightarrow> string \<Rightarrow> string \<Rightarrow> bool" where
  "matchBashPrefixRule sh pre command =
     (if pre = [] then True
      else case ParseBash sh command of
        Inl e \<Rightarrow> MatchPattern (pre @ '':*'') command
      | Inr file \<Rightarrow> commandCalls file \<noteq> []
          \<and> list_all (\<lambda>call. callMatchesPrefix (callLiteralWords call) pre) (commandCalls file))"

definition two_words :: "string list \<Rightarrow> string" where
  "two_words ws =
     (case ws of
        [] \<Rightarrow> []
      | [w] \<Rightarrow> w
      | w # v # _ \<Rightarrow> if HasPrefix v ''-'' then w else w @ '' '' @ v)"

definition fallbackCommandPrefix :: "string \<Rightarrow> string" where
  "fallbackCommandPrefix command = two_words (dropWhile (\<lambda>f. Contains f ''='') (Fields command))"

definition commandPrefix :: "shell \<Rightarrow> string \<Rightarrow> string" where
  "commandPrefix sh command =
     (case ParseBash sh command of
        Inl e \<Rightarrow> fallbackCommandPrefix command
      | Inr file \<Rightarrow> (case firstCommandCall file of None \<Rightarrow> [] | Some call \<Rightarrow> two_words (callLiteralWords call)))"

definition baseCommand :: "shell_file \<Rightarrow> string" where
  "baseCommand file =
     (case firstCommandCall file of
        None \<Rightarrow> [] | Some call \<Rightarrow> (case callLiteralWords call of [] \<Rightarrow> [] | base # args \<Rightarrow> base))"

definition isFilesystemCommand :: "string \<Rightarrow> bool" where
  "isFilesystemCommand command \<longleftrightarrow>
     command \<in> {''mkdir'', ''touch'', ''cp'', ''mv'', ''rm'', ''rmdir'', ''chmod'', ''chown''}"

section \<open>The tool\<close>

text \<open>The arguments of a call: a string, a boolean, an integer with its fallback.\<close>

definition input_string :: "gmap \<Rightarrow> string \<Rightarrow> string" where
  "input_string input key = (case map_of input key of Some (VStr s) \<Rightarrow> s | _ \<Rightarrow> [])"

definition input_bool :: "gmap \<Rightarrow> string \<Rightarrow> bool" where
  "input_bool input key = (case map_of input key of Some (VBool b) \<Rightarrow> b | _ \<Rightarrow> False)"

definition digits_value :: "string \<Rightarrow> int" where
  "digits_value ds = fold (\<lambda>c n. 10 * n + int (of_char c - 48)) ds 0"

definition Atoi :: "string \<Rightarrow> int option" where
  "Atoi s =
     (let (sign, ds) = (if HasPrefix s ''-'' then (- 1, tl s) else if HasPrefix s ''+'' then (1, tl s) else (1, s));
          v = sign * digits_value ds
      in if isDecimalDigits ds \<and> - (2 ^ 63) \<le> v \<and> v < 2 ^ 63 then Some v else None)"

definition input_int :: "shell \<Rightarrow> gmap \<Rightarrow> string \<Rightarrow> int \<Rightarrow> int" where
  "input_int sh input key fallback =
     (case map_of input key of
        Some (VInt i) \<Rightarrow> i
      | Some (VFloat f) \<Rightarrow> FloatInt sh f
      | Some (VStr s) \<Rightarrow> (case Atoi s of None \<Rightarrow> fallback | Some i \<Rightarrow> i)
      | _ \<Rightarrow> fallback)"

definition bash_IsReadOnlyInput :: "shell \<Rightarrow> gmap \<Rightarrow> bool" where
  "bash_IsReadOnlyInput sh input =
     (let command = TrimSpace (input_string input ''command'') in
      if command = [] then False
      else case ParseBash sh command of
        Inl e \<Rightarrow> False
      | Inr file \<Rightarrow> injectionRisk file = [] \<and> isReadOnlyCommand file)"

definition bash_CheckPermissions :: "shell \<Rightarrow> gmap \<Rightarrow> perm_context option \<Rightarrow> decision" where
  "bash_CheckPermissions sh input ctx =
     (let command = TrimSpace (input_string input ''command'') in
      if command = [] then mk_decision BehaviorDeny ''Empty command'' ''Bash command is empty''
      else case ParseBash sh command of
        Inl e \<Rightarrow> mk_decision BehaviorAsk ''Permission required: Bash command has invalid shell syntax''
            (''Safety check: invalid shell syntax: '' @ error_text e)
      | Inr file \<Rightarrow>
          if injectionRisk file \<noteq> []
          then mk_decision BehaviorAsk ''Permission required: Bash command contains dynamic shell constructs''
            (''Safety check: '' @ injectionRisk file)
          else if isReadOnlyCommand file
          then mk_decision BehaviorAllow ''Permission granted for read-only command'' ''Read-only command is allowed''
          else if dangerousCommand sh file \<noteq> []
          then mk_decision BehaviorAsk
            (''Permission required: Bash command matches dangerous pattern: '' @ dangerousCommand sh file)
            (''Safety check: dangerous command pattern '' @ dangerousCommand sh file)
          else if sedSafetyViolation sh file \<noteq> []
          then mk_decision BehaviorAsk (''Permission required: '' @ sedSafetyViolation sh file)
            ''Safety check: sed command requires explicit review''
          else if dangerousBashPath sh file \<noteq> []
          then mk_decision BehaviorAsk
            (''Permission required: Bash command operates on sensitive path '' @ dangerousBashPath sh file)
            ''Safety check: dangerous file or directory in bash command''
          else if (case ctx of None \<Rightarrow> False | Some c \<Rightarrow> Mode c = ModeAcceptEdits \<or> Mode c = ModeDontAsk)
              \<and> isFilesystemCommand (baseCommand file)
          then mk_decision BehaviorAllow
            (''Permission granted for '' @ go_quote (baseCommand file) @ '' command (filesystem command)'')
            (''Filesystem command '' @ go_quote (baseCommand file) @ '' is auto-allowed'')
          else mk_decision BehaviorPassthrough (''Execute bash command: '' @ command) [])"

definition bash_MatchRule :: "shell \<Rightarrow> string \<Rightarrow> gmap \<Rightarrow> bool" where
  "bash_MatchRule sh ruleContent input =
     (let command = input_string input ''command'' in
      if HasSuffix ruleContent '':*''
      then matchBashPrefixRule sh (TrimSpace (TrimSuffix ruleContent '':*'')) command
      else MatchPattern ruleContent command)"

definition suggested :: "string \<Rightarrow> string \<Rightarrow> rule" where
  "suggested tool content =
     \<lparr>ToolName = tool, RuleContent = content, RuleBehavior = BehaviorAllow, RuleSource = ''suggested''\<rparr>"

definition bash_GenerateSuggestions :: "shell \<Rightarrow> gmap \<Rightarrow> rule list" where
  "bash_GenerateSuggestions sh input =
     (let command = TrimSpace (input_string input ''command'') in
      if command = [] then [] else [suggested ''Bash'' (commandPrefix sh command @ '':*'')])"

definition NewBash :: "shell \<Rightarrow> tool" where
  "NewBash sh = \<lparr>ToolNameOf = ''Bash'', IsReadOnly = False, IsReadOnlyInput = Some (bash_IsReadOnlyInput sh),
     CheckPermissions = (\<lambda>input ctx. Inr (Some (bash_CheckPermissions sh input (Some ctx)))),
     MatchRule = bash_MatchRule sh, GenerateSuggestions = bash_GenerateSuggestions sh,
     ToolDescription = Some ''Executes a bash command and returns its combined output.''\<rparr>"

definition defaultBashTimeoutMS :: int where "defaultBashTimeoutMS = 120000"
definition maxBashTimeoutMS :: int where "maxBashTimeoutMS = 600000"

definition singleTextChunkWithMetadata :: "env \<Rightarrow> string \<Rightarrow> ToolResultState \<Rightarrow> gmap option \<Rightarrow> (tool_chunk \<times> env) go" where
  "singleTextChunkWithMetadata w t st md =
     (let (b, w) = NewTextBlock w t in NewToolChunk w [Some b] [WithToolChunkState st, WithToolChunkMetadata md])"

definition builtin_text :: "ToolResultState \<Rightarrow> env \<Rightarrow> string \<Rightarrow> (tool_chunk \<times> env) go" where
  "builtin_text st w t = singleTextChunkWithMetadata w t st None"

definition bash_Execute :: "shell \<Rightarrow> string \<Rightarrow> env \<Rightarrow> gmap \<Rightarrow> (tool_chunk \<times> env) go" where
  "bash_Execute sh cwd w input =
     (let command = TrimSpace (input_string input ''command'') in
      if command = [] then builtin_text ToolResultError w ''Error: command is required''
      else let ms = input_int sh input ''timeout_ms'' defaultBashTimeoutMS;
               ms = (if ms \<le> 0 then defaultBashTimeoutMS else ms);
               ms = (if ms > maxBashTimeoutMS then maxBashTimeoutMS else ms);
               (text, ended) = RunBash sh cwd ms command
        in case ended of
             TimedOut \<Rightarrow> builtin_text ToolResultError w (''Command timed out after '' @ Itoa ms @ ''ms: '' @ command)
           | ExecFailed e \<Rightarrow> builtin_text ToolResultError w (''Command failed: '' @ command @ [CHR 0x0A]
                 @ (if text = [] then error_text e else text))
           | Exited \<Rightarrow> builtin_text ToolResultSuccess w text)"

end
