(* ===== verification/File_Tools.thy ===== *)
theory File_Tools
  imports Bash_Tool State
begin

text \<open>
  The built-in tools on files (\<open>read.go\<close>, \<open>write.go\<close>, \<open>edit.go\<close>, \<open>diff.go\<close> and \<open>common.go\<close> of
  \<open>pkg/tool/builtin\<close>). The file system is a parameter: what the tools call of the \<open>os\<close> package, over
  a state of its own, and the resolution of symbolic links. The text of a diff is a library's.
\<close>

section \<open>The file system\<close>

datatype file_stat = StatMissing error | StatFailed error | StatFile int | StatDir int

datatype resolved = Resolved string | Missing error | Unresolved error

record 'f disk =
  Stat :: "'f \<Rightarrow> string \<Rightarrow> file_stat"
  ReadFile :: "'f \<Rightarrow> string \<Rightarrow> error + string"
  WriteFile :: "'f \<Rightarrow> string \<Rightarrow> string \<Rightarrow> error option \<times> 'f"
  MkdirAll :: "'f \<Rightarrow> string \<Rightarrow> error option \<times> 'f"
  EvalSymlinks :: "string \<Rightarrow> resolved"
  UnifiedDiff :: "string \<Rightarrow> string \<Rightarrow> string \<Rightarrow> error + string"
  Shell :: shell

definition mtime_of :: "'f disk \<Rightarrow> 'f \<Rightarrow> os_stat" where
  "mtime_of dk f path =
     (case Stat dk f path of StatMissing e \<Rightarrow> Inl e | StatFailed e \<Rightarrow> Inl e | StatFile t \<Rightarrow> Inr t | StatDir t \<Rightarrow> Inr t)"

section \<open>Paths of calls\<close>

definition absolutePath :: "'f disk \<Rightarrow> string \<Rightarrow> error + string" where
  "absolutePath dk filePath =
     (let p = TrimSpace filePath in
      if p = [] then Inl (Err ''file_path is required'')
      else let p = (if HasPrefix p ''~''
              then (case UserHomeDir (Shell dk) of
                  Inl e \<Rightarrow> p
                | Inr home \<Rightarrow> if p = ''~'' then home
                    else if HasPrefix p ''~/'' then Join [home, TrimPrefix p ''~/''] else p)
              else p)
        in if \<not> IsAbs p then Inl (Err (''file_path must be an absolute path, got: '' @ p)) else Inr (Clean p))"

text \<open>
  \<open>resolvePermissionPath\<close>: a path whose end does not exist yet is resolved up to its longest
  existing part. \<open>Dir\<close> and \<open>Base\<close> take a clean rooted path apart into its elements.
\<close>

fun resolve_up :: "'f disk \<Rightarrow> string list \<Rightarrow> string list \<Rightarrow> error + string" where
  "resolve_up dk missing [] =
     (case EvalSymlinks dk (show_path (True, [])) of
        Resolved r \<Rightarrow> Inr (Clean (fold (\<lambda>e r. Join [r, e]) missing r))
      | Missing e \<Rightarrow> Inl e
      | Unresolved e \<Rightarrow> Inl e)"
| "resolve_up dk missing (e # es) =
     (case EvalSymlinks dk (show_path (True, rev (e # es))) of
        Resolved r \<Rightarrow> Inr (Clean (fold (\<lambda>e r. Join [r, e]) missing r))
      | Missing err \<Rightarrow> resolve_up dk (e # missing) es
      | Unresolved err \<Rightarrow> Inl err)"

definition resolvePermissionPath :: "'f disk \<Rightarrow> string \<Rightarrow> error + string" where
  "resolvePermissionPath dk filePath =
     (let cleaned = Clean (TrimSpace filePath) in
      if cleaned = ''.'' \<or> \<not> IsAbs cleaned then Inl (Err ''file_path must be absolute'')
      else resolve_up dk [] (rev (snd (clean_path cleaned))))"

definition inside :: "'f disk \<Rightarrow> string \<Rightarrow> workdir \<Rightarrow> bool" where
  "inside dk candidate d =
     (if DirPath d = [] then False
      else case resolvePermissionPath dk (DirPath d) of
        Inl e \<Rightarrow> False
      | Inr base \<Rightarrow> (case Rel base candidate of
            None \<Rightarrow> False
          | Some rel \<Rightarrow> rel = ''.'' \<or> \<not> HasPrefix rel (dot_dot @ [slash]) \<and> rel \<noteq> dot_dot))"

definition pathInAllowedWorkingDir :: "'f disk \<Rightarrow> string \<Rightarrow> perm_context option \<Rightarrow> bool" where
  "pathInAllowedWorkingDir dk filePath co =
     (case co of
        None \<Rightarrow> False
      | Some c \<Rightarrow> (case resolvePermissionPath dk filePath of
            Inl e \<Rightarrow> False
          | Inr candidate \<Rightarrow>
              (case WorkingDirectories c of
                 None \<Rightarrow> False
               | Some dirs \<Rightarrow> \<exists>d\<in>ran dirs. inside dk candidate d)))"

section \<open>Permissions\<close>

definition fileMatchRule :: "string \<Rightarrow> gmap \<Rightarrow> bool" where
  "fileMatchRule ruleContent input =
     (let p = input_string input ''file_path'' in p \<noteq> [] \<and> MatchPattern ruleContent p)"

definition fileSuggestions :: "string \<Rightarrow> gmap \<Rightarrow> rule list" where
  "fileSuggestions tool input =
     (let p = input_string input ''file_path''; parent = Dir p
      in [suggested tool (if p \<noteq> [] \<and> parent \<noteq> ''.'' \<and> parent \<noteq> [] then Clean parent @ ''/**'' else ''**'')])"

definition writableFilePermission :: "'f disk \<Rightarrow> string \<Rightarrow> string \<Rightarrow> gmap \<Rightarrow> perm_context option \<Rightarrow> decision" where
  "writableFilePermission dk tool action input co =
     (let p = input_string input ''file_path'' in
      if p = [] then mk_decision BehaviorAsk (''Permission required for '' @ tool) ''Missing file_path''
      else if isDangerousPath (Shell dk) p
      then mk_decision BehaviorAsk (''Permission required: '' @ tool @ '' operates on sensitive file '' @ p)
        ''Safety check: dangerous file path''
      else if (case co of None \<Rightarrow> False | Some c \<Rightarrow> Mode c = ModeAcceptEdits \<or> Mode c = ModeDontAsk)
          \<and> pathInAllowedWorkingDir dk p co
      then mk_decision BehaviorAllow (''Permission granted for '' @ action @ '' '' @ p @ '' (in working directory)'')
        ''File is in a working directory and not a dangerous path''
      else mk_decision BehaviorAsk (''Permission required to '' @ action @ '' '' @ p)
        ''Write-capable tools require user approval'')"

text \<open>\<open>NewWrite\<close>, \<open>NewEdit\<close> and \<open>NewRead\<close>, as the permission engine sees them.\<close>

definition writing_tool :: "'f disk \<Rightarrow> string \<Rightarrow> string \<Rightarrow> string \<Rightarrow> tool" where
  "writing_tool dk name action description =
     \<lparr>ToolNameOf = name, IsReadOnly = False, IsReadOnlyInput = None,
      CheckPermissions = (\<lambda>input ctx. Inr (Some (writableFilePermission dk name action input (Some ctx)))),
      MatchRule = fileMatchRule, GenerateSuggestions = fileSuggestions name, ToolDescription = Some description\<rparr>"

definition NewWrite :: "'f disk \<Rightarrow> tool" where
  "NewWrite dk = writing_tool dk ''Write'' ''writing''
     ''Writes content to an absolute file path, creating parent directories when needed.''"

definition NewEdit :: "'f disk \<Rightarrow> tool" where
  "NewEdit dk = writing_tool dk ''Edit'' ''editing'' ''Replaces an exact string in an absolute file path.''"

definition NewRead :: tool where
  "NewRead = \<lparr>ToolNameOf = ''Read'', IsReadOnly = True, IsReadOnlyInput = None,
     CheckPermissions = (\<lambda>input ctx. Inr (Some (mk_decision BehaviorAllow ''Read is read-only.''
       ''Read-only tool is allowed''))),
     MatchRule = fileMatchRule, GenerateSuggestions = fileSuggestions ''Read'',
     ToolDescription = Some ''Reads a file from an absolute path and returns line-numbered content.''\<rparr>"

section \<open>Lines and the read cache\<close>

text \<open>Lines with their line ends; no line after the last one.\<close>

fun splitLinesPreserve :: "string \<Rightarrow> string list" where
  "splitLinesPreserve [] = []"
| "splitLinesPreserve (c # s) =
     (if c = CHR 0x0A then [c] # splitLinesPreserve s
      else (case splitLinesPreserve s of [] \<Rightarrow> [[c]] | l # ls \<Rightarrow> (c # l) # ls))"

definition readFileLines :: "'f disk \<Rightarrow> 'f \<Rightarrow> string \<Rightarrow> error + string list" where
  "readFileLines dk f path = (case ReadFile dk f path of Inl e \<Rightarrow> Inl e | Inr s \<Rightarrow> Inr (splitLinesPreserve s))"

definition tool_context_of :: "agent_state option \<Rightarrow> tool_context option" where
  "tool_context_of so = (case so of None \<Rightarrow> None | Some st \<Rightarrow> ToolContext st)"

definition put_context :: "tool_context option \<Rightarrow> agent_state option \<Rightarrow> agent_state option" where
  "put_context tc so = map_option (\<lambda>st. st\<lparr>ToolContext := tc\<rparr>) so"

text \<open>The cached lines of a path, and the state afterwards.\<close>

definition cached_lines :: "'f disk \<Rightarrow> 'f \<Rightarrow> string \<Rightarrow> agent_state option \<Rightarrow> string list option \<times> agent_state option" where
  "cached_lines dk f path so =
     (let (hit, tc) = GetCache (mtime_of dk f) (tool_context_of so) path
      in (map_option Lines hit, put_context tc so))"

definition cachedOrDiskLines :: "'f disk \<Rightarrow> 'f \<Rightarrow> string \<Rightarrow> agent_state option
    \<Rightarrow> (error + string list) \<times> agent_state option" where
  "cachedOrDiskLines dk f path so =
     (let (hit, so) = cached_lines dk f path so
      in (case hit of None \<Rightarrow> readFileLines dk f path | Some ls \<Rightarrow> Inr ls, so))"

definition cacheFile :: "'f disk \<Rightarrow> 'f \<Rightarrow> agent_state option \<Rightarrow> string \<Rightarrow> string list \<Rightarrow> agent_state option" where
  "cacheFile dk f so path ls =
     (let tc = (case tool_context_of so of None \<Rightarrow> NewToolContext | Some tc \<Rightarrow> tc)
      in put_context (snd (CacheFile (mtime_of dk f) (Some tc) path ls)) so)"

section \<open>Execution\<close>

text \<open>What a call ends in: its chunk and the agent's state, the disk, the supply.\<close>

type_synonym 'f executed = "((tool_chunk \<times> agent_state option) \<times> 'f \<times> env) go"

definition finish_with :: "env \<Rightarrow> 'f \<Rightarrow> agent_state option \<Rightarrow> string \<Rightarrow> ToolResultState \<Rightarrow> gmap option \<Rightarrow> 'f executed" where
  "finish_with w f so t st md = go_bind (singleTextChunkWithMetadata w t st md) (\<lambda>(c, w). Ret ((c, so), f, w))"

definition fail_with :: "env \<Rightarrow> 'f \<Rightarrow> agent_state option \<Rightarrow> string \<Rightarrow> 'f executed" where
  "fail_with w f so t = finish_with w f so t ToolResultError None"

definition unifiedDiff :: "'f disk \<Rightarrow> string \<Rightarrow> string \<Rightarrow> string \<Rightarrow> string" where
  "unifiedDiff dk path before after = (case UnifiedDiff dk path before after of Inl e \<Rightarrow> [] | Inr d \<Rightarrow> d)"

definition fileChangeMetadata :: "'f disk \<Rightarrow> string \<Rightarrow> string \<Rightarrow> string \<Rightarrow> gmap \<Rightarrow> gmap" where
  "fileChangeMetadata dk path before after extra =
     gmap_merge [(''file_path'', VStr path), (''diff'', VStr (unifiedDiff dk path before after))] extra"

subsection \<open>Write\<close>

definition not_read :: "string \<Rightarrow> string" where
  "not_read path = ''Error: File '' @ path @ '' exists but has not been read yet. ''
     @ ''You must read the file first before writing to it.''"

definition write_now :: "'f disk \<Rightarrow> env \<Rightarrow> 'f \<Rightarrow> agent_state option \<Rightarrow> string \<Rightarrow> string \<Rightarrow> string \<Rightarrow> 'f executed" where
  "write_now dk w f so path previous content =
     (case MkdirAll dk f (Dir path) of
        (Some e, f) \<Rightarrow> fail_with w f so (''Error creating parent directories: '' @ error_text e)
      | (None, f) \<Rightarrow>
          (case WriteFile dk f path content of
             (Some e, f) \<Rightarrow> fail_with w f so (''Error writing file: '' @ error_text e)
           | (None, f) \<Rightarrow>
               finish_with w f (cacheFile dk f so path (splitLinesPreserve content))
                 (''The file '' @ path @ '' has been written successfully (''
                    @ nat_text (length (SplitByte content (CHR 0x0A))) @ '' lines).'')
                 ToolResultSuccess (Some (fileChangeMetadata dk path previous content []))))"

definition write_existing :: "'f disk \<Rightarrow> env \<Rightarrow> 'f \<Rightarrow> agent_state option \<Rightarrow> string \<Rightarrow> string \<Rightarrow> 'f executed" where
  "write_existing dk w f so path content =
     (case ReadFile dk f path of
        Inl e \<Rightarrow> fail_with w f so (''Error reading existing file: '' @ error_text e)
      | Inr previous \<Rightarrow>
          if so = None
          then fail_with w f so (''Error: agent state required to verify prior Read before writing existing file '' @ path @ ''.'')
          else if tool_context_of so = None then fail_with w f so (not_read path)
          else (case cached_lines dk f path so of
              (None, so) \<Rightarrow> fail_with w f so (not_read path)
            | (Some ls, so) \<Rightarrow> write_now dk w f so path previous content))"

definition write_Execute :: "'f disk \<Rightarrow> env \<Rightarrow> 'f \<Rightarrow> gmap \<Rightarrow> agent_state option \<Rightarrow> 'f executed" where
  "write_Execute dk w f input so =
     (case absolutePath dk (input_string input ''file_path'') of
        Inl e \<Rightarrow> fail_with w f so (''Error: '' @ error_text e)
      | Inr path \<Rightarrow>
          (let content = input_string input ''content'' in
           case Stat dk f path of
             StatMissing e \<Rightarrow> write_now dk w f so path [] content
           | StatFailed e \<Rightarrow> fail_with w f so (''Error: '' @ error_text e)
           | existing \<Rightarrow> write_existing dk w f so path content))"

subsection \<open>Edit\<close>

definition must_read :: string where
  "must_read = ''Error: To edit a file, you must first read it using the Read tool.''"

definition edit_content :: "'f disk \<Rightarrow> env \<Rightarrow> 'f \<Rightarrow> agent_state option \<Rightarrow> string \<Rightarrow> string \<Rightarrow> string \<Rightarrow> string \<Rightarrow> bool \<Rightarrow> 'f executed" where
  "edit_content dk w f so path content old new replaceAll =
     (let occurrences = Count content old in
      if occurrences = 0 then fail_with w f so (''Error: old_string not found in '' @ path)
      else if occurrences > 1 \<and> \<not> replaceAll
      then fail_with w f so (''Error: old_string appears '' @ nat_text occurrences @ '' times in '' @ path
        @ ''. Set replace_all=true to replace all occurrences, or make old_string more specific.'')
      else let updated = (if replaceAll then ReplaceAll content old new else replace_first content old new);
               what = (if replaceAll then ''all '' @ nat_text occurrences @ '' occurrences'' else ''1 occurrence'')
        in case WriteFile dk f path updated of
             (Some e, f) \<Rightarrow> fail_with w f so (''Error writing file: '' @ error_text e)
           | (None, f) \<Rightarrow>
               finish_with w f (cacheFile dk f so path (splitLinesPreserve updated))
                 (''Successfully replaced '' @ what @ '' in '' @ path) ToolResultSuccess
                 (Some (fileChangeMetadata dk path content updated [(''occurrences'', VInt (int occurrences))])))"

definition edit_existing :: "'f disk \<Rightarrow> env \<Rightarrow> 'f \<Rightarrow> gmap \<Rightarrow> agent_state option \<Rightarrow> string \<Rightarrow> 'f executed" where
  "edit_existing dk w f input so path =
     (let old = input_string input ''old_string''; new = input_string input ''new_string'' in
      if old = new
      then fail_with w f so ''Error: old_string and new_string are identical. No changes to make.''
      else if so = None
      then fail_with w f so (''Error: agent state required to verify prior Read before editing existing file '' @ path @ ''.'')
      else if tool_context_of so = None then fail_with w f so must_read
      else (case cached_lines dk f path so of
          (None, so) \<Rightarrow> fail_with w f so must_read
        | (Some ls, so) \<Rightarrow> edit_content dk w f so path (concat ls) old new (input_bool input ''replace_all'')))"

definition edit_Execute :: "'f disk \<Rightarrow> env \<Rightarrow> 'f \<Rightarrow> gmap \<Rightarrow> agent_state option \<Rightarrow> 'f executed" where
  "edit_Execute dk w f input so =
     (case absolutePath dk (input_string input ''file_path'') of
        Inl e \<Rightarrow> fail_with w f so (''Error: '' @ error_text e)
      | Inr path \<Rightarrow>
          (case Stat dk f path of
             StatMissing e \<Rightarrow> fail_with w f so (''Error: File not found: '' @ path)
           | StatFailed e \<Rightarrow> fail_with w f so (''Error: '' @ error_text e)
           | existing \<Rightarrow> edit_existing dk w f input so path))"

subsection \<open>Read\<close>

definition maxReadLineCharacters :: nat where "maxReadLineCharacters = 2000"

text \<open>\<open>%6d\<close>, a tab and the line without its end, cut after 2000 characters.\<close>

definition numbered_line :: "int \<Rightarrow> string \<Rightarrow> string" where
  "numbered_line n line =
     (let t = TrimRight line [CHR 0x0D, CHR 0x0A]; num = Itoa n;
          t = (if length (rune_slices t) > maxReadLineCharacters
               then concat (take maxReadLineCharacters (rune_strings t)) @ ''[truncated]'' else t)
      in replicate (6 - length num) (CHR '' '') @ num @ [CHR 0x09] @ t)"

definition read_window :: "int \<Rightarrow> int \<Rightarrow> string list \<Rightarrow> string list" where
  "read_window offset limit ls =
     (let start = min (nat (offset - 1)) (length ls); stop = min (start + nat limit) (length ls)
      in map (\<lambda>i. numbered_line (offset + int i) (ls ! (start + i))) [0..<stop - start])"

definition read_Execute :: "'f disk \<Rightarrow> env \<Rightarrow> 'f \<Rightarrow> gmap \<Rightarrow> agent_state option \<Rightarrow> 'f executed" where
  "read_Execute dk w f input so =
     (case absolutePath dk (input_string input ''file_path'') of
        Inl e \<Rightarrow> fail_with w f so (''Error: '' @ error_text e)
      | Inr path \<Rightarrow>
          (case Stat dk f path of
             StatMissing e \<Rightarrow> fail_with w f so (''Error: File does not exist: '' @ path)
           | StatFailed e \<Rightarrow> fail_with w f so (''Error: '' @ error_text e)
           | StatDir t \<Rightarrow> fail_with w f so (''Error: Path is a directory, not a file: '' @ path)
           | StatFile t \<Rightarrow>
               (case cachedOrDiskLines dk f path so of
                  (Inl e, so) \<Rightarrow> fail_with w f so (''Error reading file: '' @ error_text e)
                | (Inr ls, so) \<Rightarrow>
                    (let offset = max 1 (input_int (Shell dk) input ''offset'' 1);
                         limit = input_int (Shell dk) input ''limit'' 2000;
                         limit = (if limit \<le> 0 \<or> limit > 2000 then 2000 else limit)
                     in finish_with w f (cacheFile dk f so path ls)
                          (strings_Join (read_window offset limit ls) [CHR 0x0A]) ToolResultSuccess None))))"

end
