(* ===== verification/Builtin_Safety.thy ===== *)
theory Builtin_Safety
  imports File_Tools
begin

text \<open>
  What the checks of the built-in tools give: what a directory rule covers, where a write that was
  allowed goes, when the user is asked, what the shell check lets through, and what an edit and a
  write do to a file.
\<close>

section \<open>Directory rules\<close>

text \<open>A directory whose name has no character that means something in a pattern.\<close>

definition literal_name :: "string \<Rightarrow> bool" where
  "literal_name s \<longleftrightarrow> set s \<inter> {CHR ''*'', CHR ''?'', CHR ''['', CHR '']'', backslash} = {}"

lemma scan_literal: "literal_name s \<Longrightarrow> scan_len False (s @ CHR ''*'' # t) = length s"
  by (induction s) (auto simp: literal_name_def backslash_def)

lemma match_literal:
  "literal_name s \<Longrightarrow> matchChunk s (Some n) = (if prefix s n then Rest (drop (length s) n) else NoMatch)"
proof (induction s arbitrary: n)
  case (Cons c s)
  have failed: "literal_name s \<Longrightarrow> matchChunk s None = NoMatch" for s
    by (induction s) (auto simp: literal_name_def Let_def literal_def)
  from Cons.prems have s: "literal_name s" and c: "c \<noteq> CHR ''?''" "c \<noteq> CHR ''[''" "c \<noteq> backslash"
    by (auto simp: literal_name_def)
  show ?case
  proof (cases n)
    case Nil
    with c failed [OF s] show ?thesis by (simp add: Let_def literal_def)
  next
    case (Cons d m)
    with c failed [OF s] Cons.IH [OF s, of m] show ?thesis by (auto simp: Let_def literal_def)
  qed
qed simp

lemma path_match_directory:
  assumes "literal_name d" and "path_Match (d @ ''/**'') n"
  shows "HasPrefix n (d @ [slash])"
proof -
  have lit: "literal_name (d @ [slash])" using assms(1) by (auto simp: literal_name_def slash_def backslash_def)
  have no_star: "TrimLeft (d @ ''/**'') ''*'' = d @ ''/**''"
    using assms(1) by (cases d) (auto simp: TrimLeft_def literal_name_def)
  have "scan_len False (d @ ''/**'') = length d + 1"
    using scan_literal [OF lit, of "''*''"] by (simp add: slash_def)
  then have scan: "scanChunk (d @ ''/**'') = (False, d @ [slash], ''**'')"
    by (simp add: scanChunk_def no_star Let_def slash_def)
  have "prefix (d @ [slash]) n"
    using assms(2) match_literal [OF lit, of n]
    by (subst (asm) path_Match.simps) (auto simp: scan split: if_splits)
  then show ?thesis by (simp add: HasPrefix_def)
qed

text \<open>Such a rule looks at the text of the path alone.\<close>

lemma directory_rule: "literal_name d \<Longrightarrow> MatchPattern (d @ ''/**'') n \<longleftrightarrow> HasPrefix n (d @ [slash])"
proof
  assume d: "literal_name d" and "MatchPattern (d @ ''/**'') n"
  moreover have "TrimSuffix (d @ ''/**'') ''**'' = d @ ''/''"
    using TrimSuffix_append [of "d @ ''/''" "''**''"] by simp
  moreover have "ContainsAny (d @ ''/**'') ''*?[''" by (simp add: ContainsAny_def)
  ultimately show "HasPrefix n (d @ [slash])"
    using path_match_directory [OF d, of n]
    by (auto simp: MatchPattern_def HasSuffix_def slash_def)
next
  assume "HasPrefix n (d @ [slash])"
  then obtain f where "n = d @ slash # f" by (auto simp: HasPrefix_def prefix_def)
  then show "MatchPattern (d @ ''/**'') n" by (simp add: match_directory)
qed

lemma absolute_clean:
  assumes "IsAbs p" and "plain (last p)"
  shows "absolutePath dk p = Inr (Clean p)"
proof -
  obtain q where p: "p = slash # q" using assms(1) by (cases p) (auto simp: IsAbs_def HasPrefix_def)
  have "TrimSpace p = p"
    using assms(2) p by (intro TrimSpace_plain) (auto simp: plain_def slash_def)
  with p show ?thesis by (simp add: absolutePath_def IsAbs_def HasPrefix_def slash_def)
qed

lemma join_append:
  "es \<noteq> [] \<Longrightarrow> fs \<noteq> [] \<Longrightarrow> strings_Join (es @ fs) d = strings_Join es d @ d @ strings_Join fs d"
proof (induction es)
  case (Cons e es)
  then show ?case by (cases es; cases fs) auto
qed simp

lemma last_join: "fs \<noteq> [] \<Longrightarrow> last fs \<noteq> [] \<Longrightarrow> last (strings_Join (es @ fs) d) = last (last fs)"
proof (induction "es @ fs" arbitrary: es fs rule: length_induct)
  case 1
  have one: "gs \<noteq> [] \<Longrightarrow> last gs \<noteq> [] \<Longrightarrow> strings_Join gs d \<noteq> [] \<and> last (strings_Join gs d) = last (last gs)" for gs
  proof (induction gs)
    case (Cons g gs)
    then show ?case by (cases gs) (auto simp: last_append)
  qed simp
  from one [of "es @ fs"] "1.prems" show ?case by simp
qed

lemma path_ends:
  "list_all proper ts \<Longrightarrow> ts \<noteq> [] \<Longrightarrow> plain (last (last ts)) \<Longrightarrow>
     plain (last (slash # strings_Join (es @ ts) [slash]))"
proof -
  assume ts: "list_all proper ts" "ts \<noteq> []" "plain (last (last ts))"
  then have "proper (last ts)" by (simp add: list_all_iff)
  then have e: "last ts \<noteq> []" by (simp add: proper_def)
  have "strings_Join (es @ ts) [slash] \<noteq> []"
    using ts(2) e by (cases es; cases ts) (auto split: if_splits elim: strings_Join.elims)
  with ts last_join [OF ts(2) e, of es "[slash]"] show ?thesis by simp
qed

lemma dotted_path:
  assumes "list_all proper es"
  shows "Clean (slash # strings_Join (''.'' # es) [slash]) = show_path (True, es)"
proof -
  have "\<forall>e\<in>set (''.'' # es). slash \<notin> set e"
    using proper_no_slash [OF assms] by (simp add: slash_def)
  then have "SplitByte (slash # strings_Join (''.'' # es) [slash]) slash = [] # ''.'' # es"
    by (subst SplitByte.simps) (simp add: split_join del: strings_Join.simps)
  moreover have "push_elem True [] ''.'' = []" by (simp add: push_elem.simps)
  ultimately show ?thesis
    using fold_proper [OF assms, of True "[]"] by (simp add: Clean_def clean_path_def HasPrefix_def del: strings_Join.simps)
qed

lemma dotted_not_in:
  assumes "list_all proper ds" and "ds \<noteq> []"
  shows "\<not> HasPrefix (slash # strings_Join (''.'' # es) [slash]) (show_path (True, ds) @ [slash])"
proof
  assume "HasPrefix (slash # strings_Join (''.'' # es) [slash]) (show_path (True, ds) @ [slash])"
  moreover obtain d rest where ds: "ds = d # rest" using assms(2) by (cases ds) auto
  moreover have d: "d \<noteq> []" "d \<noteq> ''.''" "slash \<notin> set d" using assms(1) ds by (auto simp: proper_def)
  ultimately have "\<exists>t. strings_Join (''.'' # es) [slash] = d @ slash # t"
    by (cases rest) (auto simp: HasPrefix_def prefix_def)
  moreover have "strings_Join (''.'' # es) [slash] = ''.'' @ (if es = [] then [] else slash # strings_Join es [slash])"
    by (cases es) auto
  ultimately obtain t where t: "''.'' @ (if es = [] then [] else slash # strings_Join es [slash]) = d @ slash # t" by auto
  obtain c d' where c: "d = c # d'" using d(1) by (cases d) auto
  with t have "c = CHR ''.''" by simp
  with c t d show False by (cases d') (auto simp: slash_def split: if_splits)
qed

text \<open>C22: A directory rule (\<open>/dir/**\<close>, what the file tools suggest to the user) is about the text of a
  path and not about the file: for every directory whose name has no pattern character, every file
  in it can be written so that the rule does not match, and every file outside can be written so
  that it does. The tools work on the cleaned path.\<close>

theorem directory_rule_is_about_spelling:
  assumes "list_all proper ds" and "ds \<noteq> []" and "literal_name (show_path (True, ds))"
    and "proper x" and "plain (last x)"
    and "list_all proper ts" and "ts \<noteq> []" and "plain (last (last ts))"
  shows "(\<exists>f. absolutePath dk f = Inr (show_path (True, ds @ [x]))
        \<and> \<not> fileMatchRule (show_path (True, ds) @ ''/**'') [(''file_path'', VStr f)])
    \<and> (\<exists>g. absolutePath dk g = Inr (show_path (True, ts))
        \<and> fileMatchRule (show_path (True, ds) @ ''/**'') [(''file_path'', VStr g)])"
proof (intro conjI exI)
  let ?f = "slash # strings_Join (''.'' # ds @ [x]) [slash]"
  let ?g = "slash # strings_Join (ds @ replicate (length ds) dot_dot @ ts) [slash]"
  have abs: "IsAbs (slash # s)" for s by (simp add: IsAbs_def HasPrefix_def)
  have "plain (last ?f)"
    using path_ends [of "[x]" "''.'' # ds"] assms(4,5) by (simp del: strings_Join.simps)
  then show "absolutePath dk ?f = Inr (show_path (True, ds @ [x]))"
    using absolute_clean [OF abs, of "strings_Join (''.'' # ds @ [x]) [slash]" dk] dotted_path [of "ds @ [x]"] assms(1,4)
    by (simp del: strings_Join.simps show_path.simps)
  have "\<not> MatchPattern (show_path (True, ds) @ ''/**'') ?f"
    using directory_rule [OF assms(3), of ?f] dotted_not_in [OF assms(1,2), of "ds @ [x]"] by blast
  then show "\<not> fileMatchRule (show_path (True, ds) @ ''/**'') [(''file_path'', VStr ?f)]"
    by (simp add: fileMatchRule_def input_string_def Let_def del: strings_Join.simps show_path.simps)
  have "plain (last ?g)"
    using path_ends [OF assms(6,7,8), of "ds @ replicate (length ds) dot_dot"] by simp
  then show "absolutePath dk ?g = Inr (show_path (True, ts))"
    using absolute_clean [OF abs, of "strings_Join (ds @ replicate (length ds) dot_dot @ ts) [slash]" dk]
      clean_climb [OF assms(1,6,7)] by (simp del: show_path.simps)
  have "?g = show_path (True, ds) @ slash # strings_Join (replicate (length ds) dot_dot @ ts) [slash]"
    using assms(2,7) by (simp add: join_append)
  then have "MatchPattern (show_path (True, ds) @ ''/**'') ?g" using match_directory by metis
  then show "fileMatchRule (show_path (True, ds) @ ''/**'') [(''file_path'', VStr ?g)]"
    by (simp add: fileMatchRule_def input_string_def Let_def del: show_path.simps)
qed

section \<open>Writing\<close>

lemma input_of_Some [simp]: "input_of (Some input) = input"
  by (simp add: input_of_def)

lemma two_answers:
  "DecBehavior (writableFilePermission dk n action input co) = BehaviorAsk
     \<or> DecBehavior (writableFilePermission dk n action input co) = BehaviorAllow"
  by (simp add: writableFilePermission_def mk_decision_def Let_def)

lemma writing_stages:
  "CheckPermission marshal e (Some (writing_tool dk n action descr)) (Some input) =
     (let t = writing_tool dk n action descr; d = writableFilePermission dk n action input (Some (Context e)) in
      case checkRules t input (DenyRules (Context e)) BehaviorDeny of
        Some d \<Rightarrow> (Inr d, e)
      | None \<Rightarrow>
     (case checkRules t input (AskRules (Context e)) BehaviorAsk of
        Some d \<Rightarrow> (Inr (d\<lparr>SuggestedRules := GenerateSuggestions t input\<rparr>), e)
      | None \<Rightarrow>
     if Mode (Context e) = ModeExplore
     then (Inr (mk_decision BehaviorDeny (''Permission denied for '' @ n @ '' (explore mode is read-only)'')
            ''Explore mode does not allow modifications''), e)
     else if DecBehavior d = BehaviorAsk
     then resolveAutoPermission marshal e t input (d\<lparr>SuggestedRules := GenerateSuggestions t input\<rparr>)
     else (Inr d, resetAutoDenials e)))"
proof -
  show ?thesis
    using two_answers [of dk n action input "Some (Context e)"]
    by (elim disjE) (simp_all add: CheckPermission_def Let_def writing_tool_def checkReadOnlyFastPath_def
        isReadOnlyInvocation_def split: option.split)
qed

text \<open>A resolved path is absolute, when the resolution of links gives absolute paths.\<close>

lemma Join_abs: "IsAbs r \<Longrightarrow> IsAbs (Join [r, e])"
  by (auto simp: Join_def Let_def intro!: Clean_abs) (auto simp: IsAbs_def HasPrefix_def prefix_def)

lemma joined_abs: "IsAbs r \<Longrightarrow> IsAbs (fold (\<lambda>e r. Join [r, e]) es r)"
  by (induction es arbitrary: r) (auto intro: Join_abs)

lemma resolve_up_abs:
  "\<forall>p r. IsAbs p \<longrightarrow> EvalSymlinks dk p = Resolved r \<longrightarrow> IsAbs r \<Longrightarrow>
     resolve_up dk missing es = Inr r \<Longrightarrow> IsAbs r"
proof (induction es arbitrary: missing)
  case Nil
  then show ?case
    by (auto split: resolved.splits intro!: Clean_abs joined_abs) (auto simp: IsAbs_def HasPrefix_def)
next
  case (Cons e es)
  have "IsAbs (show_path (True, rev (e # es)))" by (simp add: IsAbs_def HasPrefix_def)
  with Cons show ?case
    by (auto simp del: show_path.simps split: resolved.splits intro!: Clean_abs joined_abs)
qed

lemma resolved_abs:
  "\<forall>p r. IsAbs p \<longrightarrow> EvalSymlinks dk p = Resolved r \<longrightarrow> IsAbs r \<Longrightarrow>
     resolvePermissionPath dk p = Inr r \<Longrightarrow> IsAbs r"
  by (rule resolve_up_abs) (auto simp: resolvePermissionPath_def Let_def split: if_splits)


text \<open>C23: A write or an edit outside the working directories is never allowed without asking: in default
  and in bypass mode the answer to a call that no deny rule meets is ask, whatever the allow rules
  say, those included that the user accepted from the suggestions of the tool itself.\<close>

theorem writes_always_ask:
  assumes "Mode (Context e) \<notin> {ModeExplore, ModeAuto, ModeAcceptEdits, ModeDontAsk}"
    and "\<not> some_rule (writing_tool dk n action descr) input (DenyRules (Context e))"
  shows "answer (fst (CheckPermission marshal e (Some (writing_tool dk n action descr)) (Some input))) = Some BehaviorAsk"
proof -
  let ?t = "writing_tool dk n action descr" let ?d = "writableFilePermission dk n action input (Some (Context e))"
  have "DecBehavior ?d = BehaviorAsk"
    using assms(1) by (auto simp: writableFilePermission_def mk_decision_def Let_def)
  moreover have "resolveAutoPermission marshal e ?t input a = (Inr a, e)" for a
    using assms(1) by (simp add: resolveAutoPermission_def split: option.split)
  moreover have "checkRules ?t input (DenyRules (Context e)) BehaviorDeny = None"
    using assms(2) by (simp add: checkRules_None)
  ultimately show ?thesis
    using assms(1) by (auto simp: writing_stages Let_def dest: checkRules_behavior split: option.split)
qed

section \<open>The shell check\<close>

lemma no_rule_meets:
  "\<not> some_rule t input (DenyRules (Context e)) \<Longrightarrow> \<not> some_rule t input (AskRules (Context e)) \<Longrightarrow>
     checkRules t input (DenyRules (Context e)) BehaviorDeny = None \<and> checkRules t input (AskRules (Context e)) BehaviorAsk = None"
  by (simp add: checkRules_None)

text \<open>C20: Explore mode, which is to be read-only, runs any awk program (and any sort, git branch or git
  remote command): a command line whose calls all start with words of the read-only list, without
  output redirections and dynamic constructs, is allowed whatever the other arguments are, although
  \<open>awk\<close> can run commands and \<open>sort -o\<close>, \<open>git branch -D\<close> write.\<close>

theorem explore_mode_runs_awk:
  assumes "Mode (Context e) = ModeExplore"
    and "\<not> some_rule (NewBash sh) input (DenyRules (Context e))" and "\<not> some_rule (NewBash sh) input (AskRules (Context e))"
    and "TrimSpace (input_string input ''command'') \<noteq> []"
    and "ParseBash sh (TrimSpace (input_string input ''command'')) = Inr parsed"
    and "injectionRisk parsed = []" and "commandRedirs parsed = []" and "commandCalls parsed \<noteq> []"
    and "\<forall>call\<in>set (commandCalls parsed). \<exists>args. callLiteralWords call = ''awk'' # args
           \<or> callLiteralWords call = ''sort'' # args \<or> callLiteralWords call = ''git'' # ''branch'' # args
           \<or> callLiteralWords call = ''git'' # ''remote'' # args"
  shows "answer (fst (CheckPermission marshal e (Some (NewBash sh)) (Some input))) = Some BehaviorAllow"
proof -
  have "isSingleCallReadOnly call" if "call \<in> set (commandCalls parsed)" for call
    using assms(9) that by (auto simp: isSingleCallReadOnly_def safe_commands_def safe_git_def)
  then have "isReadOnlyCommand parsed"
    using assms(7,8) by (simp add: isReadOnlyCommand_def hasOutputRedirection_def list_all_iff)
  with assms(4,5,6) have "bash_IsReadOnlyInput sh input" by (simp add: bash_IsReadOnlyInput_def Let_def)
  then have "isReadOnlyInvocation (NewBash sh) input" by (simp add: isReadOnlyInvocation_def NewBash_def)
  with no_rule_meets [OF assms(2,3)] show ?thesis
    by (simp add: CheckPermission_def Let_def checkReadOnlyFastPath_def mk_decision_def)
qed

text \<open>A call none of the checks looks at.\<close>

definition unwatched :: "word option list \<Rightarrow> bool" where
  "unwatched call \<longleftrightarrow> (\<exists>base args. callLiteralWords call = base # args
     \<and> base \<notin> {''rm'', ''rmdir'', ''sudo'', ''dd'', ''mkfs'', ''fdisk'', ''format'', ''chmod'', ''chown'', ''kill''}
     \<and> \<not> isFileManipulatingCommand base)"

lemma unwatched_safe:
  assumes "unwatched call"
  shows "dangerousCall sh call = []" "sed_call sh call = []" "call_paths call = []"
  using assms by (auto simp: unwatched_def dangerousCall_def sed_call_def call_paths_def isFileManipulatingCommand_def)

lemma first_text_none: "\<forall>t\<in>set ts. t = [] \<Longrightarrow> first_text ts = []"
  by (auto simp: first_text_def find_None_iff split: option.split dest!: find_SomeD)

text \<open>C21: With nobody there to ask, the shell check looks at the first command alone: in dont-ask and in
  accept-edits mode a line that begins with touching a file is allowed, whatever commands follow and
  wherever the file and the working directories are, as long as none of the names the checks look
  for is among the others.\<close>

theorem unattended_shell_runs_other_commands:
  assumes "Mode (Context e) \<in> {ModeDontAsk, ModeAcceptEdits}"
    and "\<not> some_rule (NewBash sh) input (DenyRules (Context e))" and "\<not> some_rule (NewBash sh) input (AskRules (Context e))"
    and "TrimSpace (input_string input ''command'') \<noteq> []"
    and "ParseBash sh (TrimSpace (input_string input ''command'')) = Inr parsed"
    and "injectionRisk parsed = []" and "commandRedirs parsed = []"
    and "commandCalls parsed = [Some [Lit ''touch''], Some [Lit x]] # others"
    and "\<not> isDangerousPath sh x" and "\<forall>call\<in>set others. unwatched call"
  shows "answer (fst (CheckPermission marshal e (Some (NewBash sh)) (Some input))) = Some BehaviorAllow"
proof -
  let ?touch = "[Some [Lit ''touch''], Some [Lit x]]"
  have touch: "callLiteralWords ?touch = [''touch'', x]" by (simp add: callLiteralWords_def wordLiteral_def)
  have "commandName ''touch'' = ''touch''" by (simp add: commandName_def Base_def after_last_slash_def TrimRight_def slash_def Let_def)
  then have "sed_call sh ?touch = []" by (simp add: sed_call_def touch)
  moreover have "dangerousCall sh ?touch = []" by (simp add: dangerousCall_def touch)
  moreover have "\<forall>p\<in>set (call_paths ?touch). p = x" unfolding call_paths_def touch list.case by (cases "isFileManipulatingCommand ''touch''") simp_all
  ultimately have t: "dangerousCall sh ?touch = []" "sed_call sh ?touch = []" "\<forall>p\<in>set (call_paths ?touch). p = x"
    by blast+
  have "dangerousRedirection parsed = []" by (simp add: dangerousRedirection_def assms(7))
  with t(1) assms(8,10) have "\<forall>t\<in>set (dangerousRedirection parsed # map (dangerousCall sh) (commandCalls parsed)). t = []"
    by (auto simp: unwatched_safe)
  then have danger: "dangerousCommand sh parsed = []"
    unfolding dangerousCommand_def by (rule first_text_none)
  from t(2) assms(8,10) have "\<forall>t\<in>set (map (sed_call sh) (commandCalls parsed)). t = []"
    by (auto simp: unwatched_safe)
  then have sed: "sedSafetyViolation sh parsed = []"
    unfolding sedSafetyViolation_def by (rule first_text_none)
  have "\<forall>p\<in>set (bashFilePaths parsed). p = x"
    using t(3) assms(7,8,10) by (auto simp: bashFilePaths_def unwatched_safe)
  then have path: "dangerousBashPath sh parsed = []"
    using assms(9) by (auto simp: dangerousBashPath_def split: option.split dest!: find_SomeD)
  have base: "isFilesystemCommand (baseCommand parsed)"
    by (simp add: baseCommand_def firstCommandCall_def assms(8) touch isFilesystemCommand_def)
  have "DecBehavior (bash_CheckPermissions sh input (Some (Context e))) = BehaviorAllow"
    using assms(1,4,5,6) danger sed path base by (auto simp: bash_CheckPermissions_def Let_def mk_decision_def)
  with no_rule_meets [OF assms(2,3)] assms(1) show ?thesis
    by (auto simp: CheckPermission_def Let_def checkReadOnlyFastPath_def mk_decision_def NewBash_def)
qed

section \<open>What a write and an edit do\<close>

lemma finish_with_returns:
  "st \<noteq> ToolResultOther [] \<Longrightarrow> \<exists>c w'. finish_with w f so t st md = Ret ((c, so), f, w') \<and> ChunkState c = st"
  by (auto simp: finish_with_def singleTextChunkWithMetadata_def NewTextBlock_def NewToolChunk_def newID_def
      WithToolChunkState_def WithToolChunkMetadata_def Let_def split: option.split)

lemma fail_with_returns:
  "\<exists>c w'. fail_with w f so t = Ret ((c, so), f, w') \<and> ChunkState c = ToolResultError"
  unfolding fail_with_def by (rule finish_with_returns) simp

lemma finish_withD:
  "finish_with w f so t st md = Ret ((c, so'), f', w') \<Longrightarrow> st \<noteq> ToolResultOther [] \<Longrightarrow>
     ChunkState c = st \<and> f' = f \<and> so' = so"
  using finish_with_returns [of st w f so t md] by auto

lemma fail_withD:
  "fail_with w f so t = Ret ((c, so'), f', w') \<Longrightarrow> ChunkState c = ToolResultError \<and> f' = f \<and> so' = so"
  unfolding fail_with_def by (drule finish_withD) simp_all


text \<open>C13: An edit that succeeds has written exactly the cached text with the old string replaced: the
  text falls into parts with the old string between them, as many as it occurs times plus one, two of
  them unless all occurrences were asked for, and the new text has the same parts with the new string
  between them.\<close>

theorem edit_replaces_exactly:
  assumes "edit_Execute dk w f input so = Ret ((c, so'), f', w')" and "ChunkState c = ToolResultSuccess"
    and "input_string input ''old_string'' \<noteq> []"
  shows "\<exists>path ls parts. absolutePath dk (input_string input ''file_path'') = Inr path
    \<and> fst (cached_lines dk f path so) = Some ls
    \<and> concat ls = strings_Join parts (input_string input ''old_string'')
    \<and> WriteFile dk f path (strings_Join parts (input_string input ''new_string'')) = (None, f')
    \<and> length parts = Suc (Count (concat ls) (input_string input ''old_string''))
    \<and> (input_bool input ''replace_all'' \<or> length parts = 2)"
proof -
  let ?old = "input_string input ''old_string''" let ?new = "input_string input ''new_string''"
  let ?all = "input_bool input ''replace_all''"
  have no_fail: "fail_with w f so t \<noteq> Ret ((c, so'), f', w')" for w f so t
    using assms(2) fail_withD by fastforce
  from assms(1) obtain path where path: "absolutePath dk (input_string input ''file_path'') = Inr path"
    and ed: "edit_existing dk w f input so path = Ret ((c, so'), f', w')"
    by (auto simp: edit_Execute_def no_fail split: sum.splits file_stat.splits)
  from ed obtain ls so1 where ls: "cached_lines dk f path so = (Some ls, so1)"
    and ec: "edit_content dk w f so1 path (concat ls) ?old ?new ?all = Ret ((c, so'), f', w')"
    by (auto simp: edit_existing_def no_fail Let_def split: if_splits prod.splits option.splits)
  let ?upd = "if ?all then ReplaceAll (concat ls) ?old ?new else replace_first (concat ls) ?old ?new"
  from ec have n: "0 < Count (concat ls) ?old" "?all \<or> Count (concat ls) ?old = 1"
    by (auto simp: edit_content_def no_fail Let_def split: if_splits)
  from ec obtain f1 where wr: "WriteFile dk f path ?upd = (None, f1)"
    and fin: "\<exists>t md. finish_with w f1 (cacheFile dk f1 so1 path (splitLinesPreserve ?upd)) t ToolResultSuccess md
      = Ret ((c, so'), f', w')"
    by (cases "WriteFile dk f path ?upd"; cases "fst (WriteFile dk f path ?upd)")
       (auto simp: edit_content_def no_fail Let_def split: if_splits)
  from fin finish_withD have "f' = f1" by fastforce
  with wr have written: "WriteFile dk f path ?upd = (None, f')" by simp
  show ?thesis
  proof (cases ?all)
    case True
    from replace_all_split [OF assms(3), of "concat ls" ?new] obtain parts where
      "concat ls = strings_Join parts ?old" "ReplaceAll (concat ls) ?old ?new = strings_Join parts ?new"
      "length parts = Suc (Count (concat ls) ?old)" by blast
    with True path ls written show ?thesis by auto
  next
    case False
    with n have one: "Count (concat ls) ?old = 1" by simp
    from replace_first_split [OF n(1) assms(3), of ?new] obtain pre post where
      split: "concat ls = pre @ ?old @ post" and new: "replace_first (concat ls) ?old ?new = pre @ ?new @ post" by blast
    have "WriteFile dk f path (strings_Join [pre, post] ?new) = (None, f')"
      using written False by (simp add: new)
    moreover have "concat ls = strings_Join [pre, post] ?old" using split by simp
    moreover have "length [pre, post] = Suc (Count (concat ls) ?old)" "length [pre, post] = 2" using one by simp_all
    moreover have "fst (cached_lines dk f path so) = Some ls" using ls by simp
    ultimately show ?thesis using path by blast
  qed
qed

section \<open>Examples\<close>

text \<open>A disk with one state for every path that has a file, and a shell that parses one command.\<close>

definition demo_shell :: "shell_file \<Rightarrow> shell" where
  "demo_shell parsed = \<lparr>ParseBash = (\<lambda>c. Inr parsed), RunBash = (\<lambda>d ms c. ([], Exited)), FloatInt = (\<lambda>t. 0),
     UserHomeDir = Inr ''/root'', LowerUnicode = (\<lambda>s. s)\<rparr>"

definition demo_disk :: "(string \<times> string) list disk" where
  "demo_disk = \<lparr>Stat = (\<lambda>f p. case map_of f p of None \<Rightarrow> StatMissing (Err ''no such file'') | Some c \<Rightarrow> StatFile 1),
     ReadFile = (\<lambda>f p. case map_of f p of None \<Rightarrow> Inl (Err ''no such file'') | Some c \<Rightarrow> Inr c),
     WriteFile = (\<lambda>f p c. (None, AList.update p c f)), MkdirAll = (\<lambda>f p. (None, f)),
     EvalSymlinks = Resolved, UnifiedDiff = (\<lambda>p b a. Inr []), Shell = demo_shell []\<rparr>"

definition demo_words :: "string list \<Rightarrow> node" where
  "demo_words ws = CallExpr (map (\<lambda>w. Some [Lit w]) ws)"

definition plain_engine :: "PermissionMode \<Rightarrow> engine" where
  "plain_engine mode = NewEngine (Some ((NewContext mode)\<lparr>WorkingDirectories :=
     Some (Map.empty(''w'' \<mapsto> \<lparr>DirPath = ''/work'', DirSource = ''session''\<rparr>))\<rparr>)) None []"

lemma no_rules [simp]:
  "\<not> some_rule t i (DenyRules (Context (plain_engine m)))" "\<not> some_rule t i (AskRules (Context (plain_engine m)))"
  by (simp_all add: plain_engine_def NewEngine_def ensureMaps_def init_map_def NewContext_def some_rule_def)

lemma plain_mode [simp]: "m \<noteq> ModeOther [] \<Longrightarrow> Mode (Context (plain_engine m)) = m"
  by (simp add: plain_engine_def NewEngine_def ensureMaps_def init_map_def NewContext_def)

theorem directory_rule_is_about_spelling_witness:
  "(\<exists>f. absolutePath demo_disk f = Inr ''/work/secret'' \<and> \<not> fileMatchRule ''/work/**'' [(''file_path'', VStr f)])
   \<and> (\<exists>g. absolutePath demo_disk g = Inr ''/etc/passwd'' \<and> fileMatchRule ''/work/**'' [(''file_path'', VStr g)])"
proof -
  have "list_all proper [''work'']" "proper ''secret''" "list_all proper [''etc'', ''passwd'']"
    "literal_name (show_path (True, [''work'']))" "plain (last ''secret'')" "plain (last (last [''etc'', ''passwd'']))"
    by (simp_all add: proper_def dot_dot_def slash_def literal_name_def backslash_def plain_def)
  from directory_rule_is_about_spelling [OF this(1) _ this(4,2,5,3) _ this(6), of demo_disk]
  show ?thesis by (simp add: slash_def)
qed

theorem writes_always_ask_witness:
  "answer (fst (CheckPermission (\<lambda>v. None) (plain_engine ModeBypass) (Some (NewWrite demo_disk))
     (Some [(''file_path'', VStr ''/tmp/x'')]))) = Some BehaviorAsk"
  unfolding NewWrite_def by (rule writes_always_ask) simp_all

theorem explore_mode_runs_awk_witness:
  "answer (fst (CheckPermission (\<lambda>v. None) (plain_engine ModeExplore)
     (Some (NewBash (demo_shell [Stmt [], demo_words [''awk'', ''BEGIN{system(1)}'']])))
     (Some [(''command'', VStr ''awk'')]))) = Some BehaviorAllow"
proof -
  have "TrimSpace ''awk'' = ''awk''" by code_simp
  then show ?thesis
    by (intro explore_mode_runs_awk [where parsed = "[Stmt [], demo_words [''awk'', ''BEGIN{system(1)}'']]"])
       (simp_all add: input_string_def demo_shell_def injectionRisk_def commandRedirs_def commandCalls_def demo_words_def
          callLiteralWords_def wordLiteral_def)
qed

theorem unattended_shell_runs_other_commands_witness:
  "answer (fst (CheckPermission (\<lambda>v. None) (plain_engine ModeDontAsk)
     (Some (NewBash (demo_shell [Stmt [], demo_words [''touch'', ''a''], Stmt [], demo_words [''curl'', ''x''], demo_words [''sh'']])))
     (Some [(''command'', VStr ''touch'')]))) = Some BehaviorAllow"
proof -
  have t: "TrimSpace ''touch'' = ''touch''" by code_simp
  have safe: "\<not> isDangerousPath (demo_shell f) ''a''" for f
  proof -
    have "isDangerousPath (demo_shell f) ''a'' = isDangerousPath (demo_shell []) ''a''"
      by (simp add: isDangerousPath_def ToLower_def demo_shell_def)
    moreover have "\<not> isDangerousPath (demo_shell []) ''a''" by code_simp
    ultimately show ?thesis by simp
  qed
  have others: "unwatched [Some [Lit ''curl''], Some [Lit ''x'']]" "unwatched [Some [Lit ''sh'']]"
  proof -
    have "\<not> isFileManipulatingCommand ''curl''" "\<not> isFileManipulatingCommand ''sh''" by code_simp+
    then show "unwatched [Some [Lit ''curl''], Some [Lit ''x'']]" "unwatched [Some [Lit ''sh'']]"
      by (simp_all add: unwatched_def callLiteralWords_def wordLiteral_def)
  qed
  show ?thesis
    by (intro unattended_shell_runs_other_commands
          [where parsed = "[Stmt [], demo_words [''touch'', ''a''], Stmt [], demo_words [''curl'', ''x''], demo_words [''sh'']]"
             and x = "''a''" and others = "[[Some [Lit ''curl''], Some [Lit ''x'']], [Some [Lit ''sh'']]]"])
       (simp_all add: input_string_def t safe others injectionRisk_def commandRedirs_def commandCalls_def demo_words_def,
        simp add: demo_shell_def demo_words_def)
qed



definition demo_reader :: agent_state where
  "demo_reader = (fst (NewAgentState demo_env))\<lparr>ToolContext := Some (NewToolContext\<lparr>ReadFileCache :=
     [\<lparr>Lines = [''one two''], UpdatedAt = 1, Bytes = 7, FilePath = ''/a.txt''\<rparr>]\<rparr>)\<rparr>"

definition demo_edit :: gmap where
  "demo_edit = [(''file_path'', VStr ''/a.txt''), (''old_string'', VStr ''two''), (''new_string'', VStr ''2'')]"

definition demo_text :: "(string \<times> string) list" where
  "demo_text = [(''/a.txt'', ''one two'')]"

theorem edit_replaces_exactly_witness:
  "\<exists>c so' f' w' parts. edit_Execute demo_disk demo_env demo_text demo_edit (Some demo_reader) = Ret ((c, so'), f', w')
     \<and> ChunkState c = ToolResultSuccess \<and> ''one two'' = strings_Join parts ''two'' \<and> length parts = 2
     \<and> f' = [(''/a.txt'', strings_Join parts ''2'')]"
proof -
  have path: "absolutePath demo_disk (input_string demo_edit ''file_path'') = Inr ''/a.txt''" by code_simp
  have words: "input_string demo_edit ''old_string'' = ''two''" "input_string demo_edit ''new_string'' = ''2''"
    "\<not> input_bool demo_edit ''replace_all''" by code_simp+
  have seen: "cached_lines demo_disk demo_text ''/a.txt'' (Some demo_reader) = (Some [''one two''], Some demo_reader)"
    by (simp add: cached_lines_def tool_context_of_def GetCache_def mtime_of_def demo_disk_def demo_text_def
        demo_reader_def put_context_def)
  have one: "Count ''one two'' ''two'' = 1" by code_simp
  have stat: "Stat demo_disk demo_text ''/a.txt'' = StatFile 1" by (simp add: demo_disk_def demo_text_def)
  have wrote: "WriteFile demo_disk demo_text ''/a.txt'' t = (None, [(''/a.txt'', t)])" for t
    by (simp add: demo_disk_def demo_text_def)
  have "tool_context_of (Some demo_reader) \<noteq> None" by (simp add: tool_context_of_def demo_reader_def)
  then obtain f1 so1 t md where
    "edit_Execute demo_disk demo_env demo_text demo_edit (Some demo_reader) = finish_with demo_env f1 so1 t ToolResultSuccess md"
    by (simp add: edit_Execute_def path stat edit_existing_def words seen edit_content_def one wrote Let_def)
  then obtain c so' f' w' where run: "edit_Execute demo_disk demo_env demo_text demo_edit (Some demo_reader) = Ret ((c, so'), f', w')"
    and ok: "ChunkState c = ToolResultSuccess"
    using finish_with_returns [of ToolResultSuccess demo_env f1 so1 t md] by auto
  have old: "input_string demo_edit ''old_string'' \<noteq> []" using words by simp
  from edit_replaces_exactly [OF run ok old] obtain parts where
      "''one two'' = strings_Join parts ''two''" "length parts = 2"
      "WriteFile demo_disk demo_text ''/a.txt'' (strings_Join parts ''2'') = (None, f')"
    by (auto simp: path seen words)
  with run ok show ?thesis by (auto simp: demo_disk_def demo_text_def)
qed

end
