(* ===== verification/Spec2Isabelle.thy ===== *)
theory Spec2Isabelle
  imports Prelude Permission Message Message_Events Base64 Tool_Response Tasks State Json_Repair Toolkit
    Operation_Gate Automation_Event Run_Store Automation_Gate Utf8 Chat_Model Agent_Context
    Agent_Summary Agent_Threshold Auto_Permission Agent_Run Tool_Provider Agent_Acting Acting_Safety
    Agent_Stream Stream_Events Agent_Config
    Agent_Options Agent_Loop Reply_Loop
    Go_Path Path_Match Bash_Tool File_Tools Builtin_Safety
begin

text \<open>
  A verification of the core of agentscope-go.
\<close>

end
